theory Spec2Isabelle
  imports Complex_Main
begin

section \<open>The mixture cubic-EOS engine of thermo/eos_mix.py\<close>

text \<open>
  Python floats are read as real numbers: \<open>+\<close>, \<open>*\<close>, \<open>/\<close> and \<open>** 0.5\<close> are the exact
  operations, so nothing here speaks about rounding, overflow, infinities or NaN.
  The pure-species attraction values \<open>a_alphas\<close> are taken non-negative wherever a
  theorem needs the square root: on them \<open>x ** 0.5\<close> is the real square root.
  Every \<open>raise\<close> of the source is a value \<open>Inl e\<close> of the result type.
\<close>

subsection \<open>Exceptions, indexing and loops\<close>

datatype py_error =
    ZeroDivisionError
  | IndexError
  | AttributeError
  | UnboundLocalError
  | UnconvergedError
  | ValueError string

definition bind_err :: "py_error + 'a \<Rightarrow> ('a \<Rightarrow> py_error + 'b) \<Rightarrow> py_error + 'b" where
  "bind_err m f = (case m of Inl e \<Rightarrow> Inl e | Inr x \<Rightarrow> f x)"

text \<open>\<open>xs[i]\<close> for an index produced by \<open>range\<close>: IndexError beyond the end.\<close>

definition getitem :: "'a list \<Rightarrow> nat \<Rightarrow> py_error + 'a" where
  "getitem xs i = (if i < length xs then Inr (xs ! i) else Inl IndexError)"

text \<open>\<open>M[i][j] = v\<close> on a list of lists.\<close>

definition set2 :: "'a list list \<Rightarrow> nat \<Rightarrow> nat \<Rightarrow> 'a \<Rightarrow> 'a list list" where
  "set2 M i j v = M[i := (M ! i)[j := v]]"

text \<open>A \<open>for\<close> loop over a list of values; the first exception of the body ends it.\<close>

fun for_each :: "'a list \<Rightarrow> ('a \<Rightarrow> 's \<Rightarrow> py_error + 's) \<Rightarrow> 's \<Rightarrow> py_error + 's" where
  "for_each [] body s = Inr s"
| "for_each (x # xs) body s =
     (case body x s of Inl e \<Rightarrow> Inl e | Inr s' \<Rightarrow> for_each xs body s')"

subsection \<open>Mixing rule: the composition-independent pairwise matrices\<close>

text \<open>
  The body of the inner loop of \<open>a_alpha_aijs_composition_independent\<close>
  (eos_mix.py, lines 80-83). The state is the pair
  \<open>(a_alpha_ijs, a_alpha_ij_roots_inv)\<close>.
\<close>

definition aijs_inner :: "real list \<Rightarrow> real list \<Rightarrow> nat \<Rightarrow> nat \<Rightarrow>
    real list list \<times> real list list \<Rightarrow> py_error + (real list list \<times> real list list)" where
  "aijs_inner a_alpha_i_roots kijs_i i j s =
     (let a_alpha_ijs = fst s; a_alpha_ij_roots_inv = snd s;
          term = a_alpha_i_roots ! i * a_alpha_i_roots ! j
      in if term = 0 then Inl ZeroDivisionError
         else
           let a_alpha_ij_roots_inv = set2 a_alpha_ij_roots_inv i j (1 / term)
           in bind_err (getitem kijs_i j) (\<lambda>kij.
                let v = (1 - kij) * term
                in Inr (set2 (set2 a_alpha_ijs i j v) j i v, a_alpha_ij_roots_inv)))"

definition a_alpha_aijs_composition_independent ::
    "real list \<Rightarrow> real list list \<Rightarrow> py_error + (real list list \<times> real list \<times> real list list)" where
  "a_alpha_aijs_composition_independent a_alphas kijs =
     (let N = length a_alphas;
          cmps = [0..<N];
          a_alpha_ijs = replicate N (replicate N 0);
          a_alpha_i_roots = map sqrt a_alphas;
          a_alpha_ij_roots_inv = replicate N (replicate N 0)
      in bind_err
           (for_each cmps
              (\<lambda>i s. bind_err (getitem kijs i) (\<lambda>kijs_i.
                         for_each [i..<N] (aijs_inner a_alpha_i_roots kijs_i i) s))
              (a_alpha_ijs, a_alpha_ij_roots_inv))
           (\<lambda>s. Inr (fst s, a_alpha_i_roots, snd s)))"

text \<open>
  The inner body of \<open>a_alpha_aijs_composition_independent_support_zeros\<close>
  (lines 103-108): the division is guarded by \<open>try ... except ZeroDivisionError\<close>.
\<close>

definition aijs_inner_support_zeros :: "real list \<Rightarrow> real list \<Rightarrow> nat \<Rightarrow> nat \<Rightarrow>
    real list list \<times> real list list \<Rightarrow> py_error + (real list list \<times> real list list)" where
  "aijs_inner_support_zeros a_alpha_i_roots kijs_i i j s =
     (let a_alpha_ijs = fst s; a_alpha_ij_roots_inv = snd s;
          term = a_alpha_i_roots ! i * a_alpha_i_roots ! j;
          a_alpha_ij_roots_inv =
            (if term = 0 then set2 a_alpha_ij_roots_inv i j (10 ^ 100)
             else set2 a_alpha_ij_roots_inv i j (1 / term))
      in bind_err (getitem kijs_i j) (\<lambda>kij.
           let v = (1 - kij) * term
           in Inr (set2 (set2 a_alpha_ijs i j v) j i v, a_alpha_ij_roots_inv)))"

definition a_alpha_aijs_composition_independent_support_zeros ::
    "real list \<Rightarrow> real list list \<Rightarrow> py_error + (real list list \<times> real list \<times> real list list)" where
  "a_alpha_aijs_composition_independent_support_zeros a_alphas kijs =
     (let N = length a_alphas;
          cmps = [0..<N];
          a_alpha_ijs = replicate N (replicate N 0);
          a_alpha_i_roots = map sqrt a_alphas;
          a_alpha_ij_roots_inv = replicate N (replicate N 0)
      in bind_err
           (for_each cmps
              (\<lambda>i s. bind_err (getitem kijs i) (\<lambda>kijs_i.
                         for_each [i..<N] (aijs_inner_support_zeros a_alpha_i_roots kijs_i i) s))
              (a_alpha_ijs, a_alpha_ij_roots_inv))
           (\<lambda>s. Inr (fst s, a_alpha_i_roots, snd s)))"

subsection \<open>Mixing rule: the mixture \<open>a_alpha\<close>\<close>

text \<open>
  The module-level \<open>a_alpha_and_derivatives\<close> (lines 112-130). The three optional
  arguments are the cached matrices; when one of them is \<open>None\<close> they are computed.
  The second component of the result is the literal \<open>None\<close> of the source.
\<close>

definition a_alpha_sum_inner :: "real list \<Rightarrow> real list \<Rightarrow> real \<Rightarrow> nat \<Rightarrow> real \<Rightarrow> py_error + real" where
  "a_alpha_sum_inner a_alpha_ijs_i zs zi j a_alpha =
     bind_err (getitem a_alpha_ijs_i j) (\<lambda>aij.
     bind_err (getitem zs j) (\<lambda>zj.
       let term = aij * zi * zj in Inr (a_alpha + (term + term))))"

definition a_alpha_sum_outer :: "nat \<Rightarrow> real list list \<Rightarrow> real list \<Rightarrow> nat \<Rightarrow> real \<Rightarrow> py_error + real" where
  "a_alpha_sum_outer N a_alpha_ijs zs i a_alpha =
     bind_err (getitem a_alpha_ijs i) (\<lambda>a_alpha_ijs_i.
     bind_err (getitem zs i) (\<lambda>zi.
     bind_err (for_each [i + 1..<N] (a_alpha_sum_inner a_alpha_ijs_i zs zi) a_alpha) (\<lambda>a_alpha.
     bind_err (getitem a_alpha_ijs_i i) (\<lambda>aii.
       Inr (a_alpha + aii * zi * zi)))))"

definition a_alpha_and_derivatives ::
    "real list \<Rightarrow> real \<Rightarrow> real list \<Rightarrow> real list list \<Rightarrow>
     real list list option \<Rightarrow> real list option \<Rightarrow> real list list option \<Rightarrow>
     py_error + (real \<times> real option \<times> real list list)" where
  "a_alpha_and_derivatives a_alphas T zs kijs a_alpha_ijs a_alpha_i_roots a_alpha_ij_roots_inv =
     (let N = length a_alphas
      in bind_err
           (case (a_alpha_ijs, a_alpha_i_roots, a_alpha_ij_roots_inv) of
              (Some m, Some r, Some v) \<Rightarrow> Inr (m, r, v)
            | _ \<Rightarrow> a_alpha_aijs_composition_independent a_alphas kijs)
           (\<lambda>c. let a_alpha_ijs = fst c
                in bind_err (for_each [0..<N] (a_alpha_sum_outer N a_alpha_ijs zs) 0)
                     (\<lambda>a_alpha. Inr (a_alpha, None, a_alpha_ijs))))"

subsection \<open>Mixing rule: \<open>a_alpha\<close> with its temperature derivatives\<close>

text \<open>
  \<open>a_alpha_and_derivatives_full\<close> (lines 133-215). The state of the derivative loop
  is \<open>(da_alpha_dT, d2a_alpha_dT2, da_alpha_dT_ijs, d2a_alpha_dT2_ijs)\<close>; the last
  matrix exists only when \<open>second_derivative\<close> is set, and is \<open>None\<close> otherwise
  (the source then returns the shorter tuple).
\<close>

definition z_products_of :: "nat \<Rightarrow> real list \<Rightarrow> py_error + real list list" where
  "z_products_of N zs =
     (if N \<le> length zs then Inr (map (\<lambda>i. map (\<lambda>j. zs ! i * zs ! j) [0..<N]) [0..<N])
      else Inl IndexError)"

definition full_sum_inner :: "real list \<Rightarrow> real list \<Rightarrow> nat \<Rightarrow> real \<Rightarrow> py_error + real" where
  "full_sum_inner a_alpha_ijs_i z_products_i j a_alpha =
     bind_err (getitem a_alpha_ijs_i j) (\<lambda>aij.
     bind_err (getitem z_products_i j) (\<lambda>zz.
       let term = aij * zz in Inr (a_alpha + (term + term))))"

definition full_sum_outer :: "real list list \<Rightarrow> real list list \<Rightarrow> nat \<Rightarrow> real \<Rightarrow> py_error + real" where
  "full_sum_outer a_alpha_ijs z_products i a_alpha =
     bind_err (getitem a_alpha_ijs i) (\<lambda>a_alpha_ijs_i.
     bind_err (getitem z_products i) (\<lambda>z_products_i.
     bind_err (for_each [0..<i] (full_sum_inner a_alpha_ijs_i z_products_i) a_alpha) (\<lambda>a_alpha.
     bind_err (getitem a_alpha_ijs_i i) (\<lambda>aii.
     bind_err (getitem z_products_i i) (\<lambda>zz.
       Inr (a_alpha + aii * zz))))))"

type_synonym dT_state = "real \<times> real \<times> real list list \<times> real list list option"

definition full_dT_inner ::
    "real list \<Rightarrow> real list \<Rightarrow> real list \<Rightarrow> real list \<Rightarrow> real list \<Rightarrow> real list \<Rightarrow>
     nat \<Rightarrow> real \<Rightarrow> real \<Rightarrow> real \<Rightarrow> nat \<Rightarrow> dT_state \<Rightarrow> py_error + dT_state" where
  "full_dT_inner a_alphas da_alpha_dTs d2a_alpha_dT2s kijs_i z_products_i a_alpha_ij_roots_inv_i
       i a_alphai da_alpha_dT_i d2a_alpha_dT2_i j s =
     (case s of (da_alpha_dT, d2a_alpha_dT2, da_alpha_dT_ijs, d2a_alpha_dT2_ijs) \<Rightarrow>
      if j < i then Inr s
      else
        bind_err (getitem a_alphas j) (\<lambda>a_alphaj.
        bind_err (getitem a_alpha_ij_roots_inv_i j) (\<lambda>x0_05_inv.
        bind_err (getitem z_products_i j) (\<lambda>zi_zj.
        bind_err (getitem da_alpha_dTs j) (\<lambda>da_alpha_dT_j.
          let x1 = a_alphai * da_alpha_dT_j;
              x2 = a_alphaj * da_alpha_dT_i;
              x1_x2 = x1 + x2
          in
        bind_err (getitem kijs_i j) (\<lambda>kij.
          let kij_m1 = kij - 1;
              da_alpha_dT_ij = - (1 / 2) * kij_m1 * x1_x2 * x0_05_inv;
              da_alpha_dT_ijs = set2 (set2 da_alpha_dT_ijs i j da_alpha_dT_ij) j i da_alpha_dT_ij;
              da_alpha_dT_ij = da_alpha_dT_ij * zi_zj;
              x0 = a_alphai * a_alphaj
          in
        bind_err (getitem d2a_alpha_dT2s j) (\<lambda>d2a_alpha_dT2_j.
          if x0_05_inv * x0 * x0 = 0 then Inl ZeroDivisionError
          else
            let d2a_alpha_dT2_ij =
                  kij_m1 * ((x0 * (- (1 / 2) * (a_alphai * d2a_alpha_dT2_j + a_alphaj * d2a_alpha_dT2_i)
                                    - da_alpha_dT_i * da_alpha_dT_j)
                             + (1 / 4) * x1_x2 * x1_x2) / (x0_05_inv * x0 * x0));
                d2a_alpha_dT2_ijs =
                  map_option (\<lambda>m. set2 (set2 m i j d2a_alpha_dT2_ij) j i d2a_alpha_dT2_ij)
                    d2a_alpha_dT2_ijs;
                d2a_alpha_dT2_ij = d2a_alpha_dT2_ij * zi_zj
            in if i \<noteq> j
               then Inr (da_alpha_dT + (da_alpha_dT_ij + da_alpha_dT_ij),
                         d2a_alpha_dT2 + (d2a_alpha_dT2_ij + d2a_alpha_dT2_ij),
                         da_alpha_dT_ijs, d2a_alpha_dT2_ijs)
               else Inr (da_alpha_dT + da_alpha_dT_ij, d2a_alpha_dT2 + d2a_alpha_dT2_ij,
                         da_alpha_dT_ijs, d2a_alpha_dT2_ijs))))))))"

definition full_dT_outer ::
    "nat \<Rightarrow> real list \<Rightarrow> real list \<Rightarrow> real list \<Rightarrow> real list list \<Rightarrow> real list list \<Rightarrow>
     real list list \<Rightarrow> nat \<Rightarrow> dT_state \<Rightarrow> py_error + dT_state" where
  "full_dT_outer N a_alphas da_alpha_dTs d2a_alpha_dT2s kijs z_products a_alpha_ij_roots_inv i s =
     bind_err (getitem kijs i) (\<lambda>kijs_i.
     bind_err (getitem a_alphas i) (\<lambda>a_alphai.
     bind_err (getitem z_products i) (\<lambda>z_products_i.
     bind_err (getitem da_alpha_dTs i) (\<lambda>da_alpha_dT_i.
     bind_err (getitem d2a_alpha_dT2s i) (\<lambda>d2a_alpha_dT2_i.
     bind_err (getitem a_alpha_ij_roots_inv i) (\<lambda>a_alpha_ij_roots_inv_i.
       for_each [0..<N]
         (full_dT_inner a_alphas da_alpha_dTs d2a_alpha_dT2s kijs_i z_products_i
            a_alpha_ij_roots_inv_i i a_alphai da_alpha_dT_i d2a_alpha_dT2_i) s))))))"

definition a_alpha_and_derivatives_full ::
    "real list \<Rightarrow> real list \<Rightarrow> real list \<Rightarrow> real \<Rightarrow> real list \<Rightarrow> real list list \<Rightarrow>
     real list list option \<Rightarrow> real list option \<Rightarrow> real list list option \<Rightarrow> bool \<Rightarrow>
     py_error + (real \<times> real \<times> real \<times> real list list option \<times> real list list \<times> real list list)" where
  "a_alpha_and_derivatives_full a_alphas da_alpha_dTs d2a_alpha_dT2s T zs kijs
       a_alpha_ijs a_alpha_i_roots a_alpha_ij_roots_inv second_derivative =
     (let N = length a_alphas;
          cmps = [0..<N]
      in bind_err
           (case (a_alpha_ijs, a_alpha_i_roots, a_alpha_ij_roots_inv) of
              (Some m, Some r, Some v) \<Rightarrow> Inr (m, r, v)
            | _ \<Rightarrow> a_alpha_aijs_composition_independent a_alphas kijs)
           (\<lambda>c. let a_alpha_ijs = fst c; a_alpha_ij_roots_inv = snd (snd c) in
             bind_err (z_products_of N zs) (\<lambda>z_products.
             bind_err (for_each cmps (full_sum_outer a_alpha_ijs z_products) 0) (\<lambda>a_alpha.
               let da_alpha_dT_ijs = replicate N (replicate N 0);
                   d2a_alpha_dT2_ijs =
                     (if second_derivative then Some (replicate N (replicate N 0)) else None)
               in
             bind_err (for_each cmps
                         (full_dT_outer N a_alphas da_alpha_dTs d2a_alpha_dT2s kijs z_products
                            a_alpha_ij_roots_inv)
                         (0, 0, da_alpha_dT_ijs, d2a_alpha_dT2_ijs))
               (\<lambda>s. case s of (da_alpha_dT, d2a_alpha_dT2, da_alpha_dT_ijs, d2a_alpha_dT2_ijs) \<Rightarrow>
                  Inr (a_alpha, da_alpha_dT, d2a_alpha_dT2, d2a_alpha_dT2_ijs, da_alpha_dT_ijs,
                       a_alpha_ijs))))))"

subsection \<open>The mixture instance\<close>

text \<open>
  The attributes of a \<open>GCEOSMIX\<close> instance that the modelled methods read or write.
  An attribute that may be absent (reading it raises AttributeError) is an option;
  \<open>cmps\<close> is \<open>range(N)\<close> throughout.
\<close>

record eos =
  self_N :: nat
  self_Tcs :: "real list"
  self_Pcs :: "real list"
  self_omegas :: "real list"
  self_kijs :: "real list list"
  self_kwargs :: "(string \<times> real list list) list"
  self_ais :: "real list"
  self_bs :: "real list"
  self_zs :: "real list"
  self_T :: real
  self_P :: real
  self_V :: "real option"
  self_b :: "real option"
  self_a_alpha :: "real option"
  self_a_alphas :: "real list option"
  self_da_alpha_dTs :: "real list option"
  self_d2a_alpha_dT2s :: "real list option"
  self_a_alpha_ijs :: "real list list option"
  self_a_alpha_i_roots :: "real list option"
  self_a_alpha_ij_roots_inv :: "real list list option"
  self_da_alpha_dT_ijs :: "real list list option"
  self_d2a_alpha_dT2_ijs :: "real list list option"
  self_Z_l :: "real option"
  self_Z_g :: "real option"
  self_phi_l :: "real option"
  self_phi_g :: "real option"
  self_fugacity_sum_terms :: "real list option"

text \<open>Reading an attribute that may be absent.\<close>

definition getattr :: "'a option \<Rightarrow> py_error + 'a" where
  "getattr a = (case a of Some v \<Rightarrow> Inr v | None \<Rightarrow> Inl AttributeError)"

subsection \<open>\<open>GCEOSMIX.a_alpha_and_derivatives_py\<close> and its cache\<close>

text \<open>
  The method returns a triple when \<open>full\<close> is set and the scalar \<open>a_alpha\<close> otherwise.
  It writes attributes of \<open>self\<close> before it may raise, so the instance after the call is
  returned beside the result or the exception.
\<close>

datatype a_alpha_result = A_alpha_full real real real | A_alpha_only real

text \<open>Lines 653-671: the cached pairwise matrices are taken or recomputed.\<close>

definition a_alpha_py_matrices ::
    "eos \<Rightarrow> real list \<Rightarrow> real \<Rightarrow> bool \<Rightarrow>
     (py_error + (real list list \<times> real list \<times> real list list)) \<times> eos" where
  "a_alpha_py_matrices self a_alphas T quick =
     (let kijs = self_kijs self;
          same_T = (T = self_T self);
          store = (\<lambda>c. self\<lparr>self_a_alpha_ijs := Some (fst c),
                              self_a_alpha_i_roots := Some (fst (snd c)),
                              self_a_alpha_ij_roots_inv := Some (snd (snd c))\<rparr>)
      in if quick then
           (case (same_T, self_a_alpha_ijs self, self_a_alpha_i_roots self,
                  self_a_alpha_ij_roots_inv self) of
              (True, Some m, Some r, Some v) \<Rightarrow> (Inr (m, r, v), self)
            | _ \<Rightarrow>
              (case a_alpha_aijs_composition_independent a_alphas kijs of
                 Inr c \<Rightarrow> (Inr c, store c)
               | Inl ZeroDivisionError \<Rightarrow>
                   (case a_alpha_aijs_composition_independent_support_zeros a_alphas kijs of
                      Inr c \<Rightarrow> (Inr c, store c)
                    | Inl e \<Rightarrow> (Inl e, self))
               | Inl e \<Rightarrow> (Inl e, self)))
         else
           (case (case a_alpha_aijs_composition_independent a_alphas kijs of
                    Inr c \<Rightarrow> Inr c
                  | Inl e \<Rightarrow> a_alpha_aijs_composition_independent_support_zeros a_alphas kijs) of
              Inr c \<Rightarrow> (Inr c, if same_T then store c else self)
            | Inl e \<Rightarrow> (Inl e, self)))"

text \<open>
  Lines 676-682: the call of \<open>a_alpha_and_derivatives_full\<close> under a bare
  \<open>except\<close>. With one component the pure values are taken; otherwise nothing is
  assigned and the next statement reads an unbound local.
\<close>

definition a_alpha_py_full ::
    "eos \<Rightarrow> real list \<Rightarrow> real list \<Rightarrow> real list \<Rightarrow> real \<Rightarrow>
     real list list \<times> real list \<times> real list list \<Rightarrow>
     py_error + (real \<times> real \<times> real \<times> real list list option \<times> real list list \<times> real list list)" where
  "a_alpha_py_full self a_alphas da_alpha_dTs d2a_alpha_dT2s T c =
     (case a_alpha_and_derivatives_full a_alphas da_alpha_dTs d2a_alpha_dT2s T (self_zs self)
             (self_kijs self) (Some (fst c)) (Some (fst (snd c))) (Some (snd (snd c))) True of
        Inr r \<Rightarrow> Inr r
      | Inl e \<Rightarrow>
          if self_N self = 1 then
            bind_err (getitem a_alphas 0) (\<lambda>a0.
            bind_err (getitem da_alpha_dTs 0) (\<lambda>da0.
            bind_err (getitem d2a_alpha_dT2s 0) (\<lambda>d2a0.
              Inr (a0, da0, d2a0, Some [[d2a0]], [[da0]], [[a0]]))))
          else Inl UnboundLocalError)"

text \<open>Lines 673-696: the values from the matrices, and the attributes written.\<close>

definition a_alpha_py_tail ::
    "eos \<Rightarrow> real list \<Rightarrow> real list \<Rightarrow> real list \<Rightarrow> real \<Rightarrow> bool \<Rightarrow>
     real list list \<times> real list \<times> real list list \<Rightarrow> (py_error + a_alpha_result) \<times> eos" where
  "a_alpha_py_tail self a_alphas da_alpha_dTs d2a_alpha_dT2s T full c =
     (if full then
        (case a_alpha_py_full self a_alphas da_alpha_dTs d2a_alpha_dT2s T c of
           Inl e \<Rightarrow> (Inl e, self)
         | Inr (a_alpha, da_alpha_dT, d2a_alpha_dT2, d2a_alpha_dT2_ijs, da_alpha_dT_ijs,
                a_alpha_ijs) \<Rightarrow>
             (Inr (A_alpha_full a_alpha da_alpha_dT d2a_alpha_dT2),
              self\<lparr>self_d2a_alpha_dT2_ijs := d2a_alpha_dT2_ijs,
                   self_da_alpha_dT_ijs := Some da_alpha_dT_ijs,
                   self_a_alpha_ijs := Some a_alpha_ijs\<rparr>))
      else
        (case a_alpha_and_derivatives a_alphas T (self_zs self) (self_kijs self)
                (Some (fst c)) (Some (fst (snd c))) (Some (snd (snd c))) of
           Inl e \<Rightarrow> (Inl e, self)
         | Inr (a_alpha, _, a_alpha_ijs) \<Rightarrow>
             (Inr (A_alpha_only a_alpha),
              self\<lparr>self_da_alpha_dT_ijs := Some [],
                   self_a_alpha_ijs := Some a_alpha_ijs\<rparr>)))"

definition a_alpha_and_derivatives_py ::
    "eos \<Rightarrow> real list \<Rightarrow> real list \<Rightarrow> real list \<Rightarrow> real \<Rightarrow> bool \<Rightarrow> bool \<Rightarrow>
     (py_error + a_alpha_result) \<times> eos" where
  "a_alpha_and_derivatives_py self a_alphas da_alpha_dTs d2a_alpha_dT2s T full quick =
     (case a_alpha_py_matrices self a_alphas T quick of
        (Inl e, self) \<Rightarrow> (Inl e, self)
      | (Inr c, self) \<Rightarrow> a_alpha_py_tail self a_alphas da_alpha_dTs d2a_alpha_dT2s T full c)"

subsection \<open>Constructing instances: \<open>to_TP_zs_fast\<close> and \<open>to_TP_zs\<close>\<close>

text \<open>
  The collaborators that are not part of eos_mix.py, or that each subclass supplies,
  are parameters: \<open>solve\<close> (the cubic root solver of the base class),
  \<open>fast_init_specific\<close> (the subclass hook), the class constructor \<open>init\<close>, the
  correlation \<open>Wilson_K_value\<close>, the Rachford-Rice solver \<open>flash_inner_loop\<close>,
  the subclass method \<open>fugacity_coefficients\<close> and \<open>eos_fugacities_lowest_Gibbs\<close>
  (which recurses through the external \<open>fugacities\<close>).
\<close>

record collab =
  solve :: "eos \<Rightarrow> bool \<Rightarrow> bool \<Rightarrow> bool \<Rightarrow> bool \<Rightarrow> py_error + eos"
  fast_init_specific :: "eos \<Rightarrow> eos \<Rightarrow> py_error + eos"
  init :: "real \<Rightarrow> real \<Rightarrow> real list \<Rightarrow> real list \<Rightarrow> real list \<Rightarrow> real list \<Rightarrow> bool \<Rightarrow> bool \<Rightarrow> bool \<Rightarrow>
           (string \<times> real list list) list \<Rightarrow> py_error + eos"
  Wilson_K_value :: "real \<Rightarrow> real \<Rightarrow> real \<Rightarrow> real \<Rightarrow> real \<Rightarrow> py_error + real"
  flash_inner_loop :: "real list \<Rightarrow> real list \<Rightarrow> real option \<Rightarrow> py_error + (real \<times> real list \<times> real list)"
  fugacity_coefficients :: "eos \<Rightarrow> real \<Rightarrow> real list \<Rightarrow> (py_error + real list) \<times> eos"
  eos_fugacities_lowest_Gibbs :: "eos \<Rightarrow> py_error + (real list \<times> char)"

text \<open>
  \<open>to_TP_zs_fast\<close> (lines 268-300). The pure-species values are copied when the
  temperature is unchanged; the three cached matrices are copied one after the other
  inside \<open>try ... except AttributeError: pass\<close>, so a missing one ends the copying.
\<close>

definition to_TP_zs_fast ::
    "collab \<Rightarrow> eos \<Rightarrow> real \<Rightarrow> real \<Rightarrow> real list \<Rightarrow> bool \<Rightarrow> bool \<Rightarrow> bool \<Rightarrow> py_error + eos" where
  "to_TP_zs_fast ext self T P zs only_l only_g full_alphas =
     (let new = \<lparr>self_N = self_N self, self_Tcs = self_Tcs self, self_Pcs = self_Pcs self,
                 self_omegas = self_omegas self, self_kijs = self_kijs self,
                 self_kwargs = self_kwargs self, self_ais = self_ais self, self_bs = self_bs self,
                 self_zs = zs, self_T = T, self_P = P, self_V = None,
                 self_b = None, self_a_alpha = None,
                 self_a_alphas = None, self_da_alpha_dTs = None, self_d2a_alpha_dT2s = None,
                 self_a_alpha_ijs = None, self_a_alpha_i_roots = None,
                 self_a_alpha_ij_roots_inv = None, self_da_alpha_dT_ijs = None,
                 self_d2a_alpha_dT2_ijs = None, self_Z_l = None, self_Z_g = None,
                 self_phi_l = None, self_phi_g = None, self_fugacity_sum_terms = None\<rparr>;
          copy_alphas = (T = self_T self)
      in bind_err
           (if copy_alphas then
              bind_err (getattr (self_a_alphas self)) (\<lambda>a_alphas.
              bind_err (getattr (self_da_alpha_dTs self)) (\<lambda>da_alpha_dTs.
              bind_err (getattr (self_d2a_alpha_dT2s self)) (\<lambda>d2a_alpha_dT2s.
                let new = new\<lparr>self_a_alphas := Some a_alphas,
                               self_da_alpha_dTs := Some da_alpha_dTs,
                               self_d2a_alpha_dT2s := Some d2a_alpha_dT2s\<rparr>
                in Inr (case self_a_alpha_ijs self of
                          None \<Rightarrow> new
                        | Some m \<Rightarrow>
                            (case self_a_alpha_i_roots self of
                               None \<Rightarrow> new\<lparr>self_a_alpha_ijs := Some m\<rparr>
                             | Some r \<Rightarrow>
                                 new\<lparr>self_a_alpha_ijs := Some m, self_a_alpha_i_roots := Some r,
                                     self_a_alpha_ij_roots_inv := self_a_alpha_ij_roots_inv self\<rparr>)))))
            else Inr new)
           (\<lambda>new. bind_err (fast_init_specific ext new self) (\<lambda>new.
                     solve ext new (\<not> copy_alphas) only_l only_g full_alphas)))"

text \<open>
  \<open>to_TP_zs\<close> (lines 303-307). Instances live in a heap (a list of instances, a
  reference is an index), so that "the same object" can be told from an equal copy;
  a constructed instance is appended.
\<close>

definition to_TP_zs ::
    "collab \<Rightarrow> eos list \<Rightarrow> nat \<Rightarrow> real \<Rightarrow> real \<Rightarrow> real list \<Rightarrow> bool \<Rightarrow> bool \<Rightarrow> bool \<Rightarrow>
     py_error + (nat \<times> eos list)" where
  "to_TP_zs ext heap self T P zs fugacities only_l only_g =
     (let this = heap ! self
      in if T \<noteq> self_T this \<or> P \<noteq> self_P this \<or> zs \<noteq> self_zs this then
           bind_err (init ext T P zs (self_Tcs this) (self_Pcs this) (self_omegas this)
                       only_l only_g fugacities (self_kwargs this))
             (\<lambda>new. Inr (length heap, heap @ [new]))
         else Inr (self, heap))"

subsection \<open>Fugacity coefficients\<close>

text \<open>\<open>math.log\<close>: a ValueError outside the positive reals.\<close>

definition py_log :: "real \<Rightarrow> py_error + real" where
  "py_log x = (if 0 < x then Inr (ln x) else Inl (ValueError ''math domain error''))"

definition py_div :: "real \<Rightarrow> real \<Rightarrow> py_error + real" where
  "py_div a b = (if b = 0 then Inl ZeroDivisionError else Inr (a / b))"

text \<open>A list comprehension whose element expression may raise.\<close>

fun map_err :: "('a \<Rightarrow> py_error + 'b) \<Rightarrow> 'a list \<Rightarrow> py_error + 'b list" where
  "map_err f [] = Inr []"
| "map_err f (x # xs) = bind_err (f x) (\<lambda>y. bind_err (map_err f xs) (\<lambda>ys. Inr (y # ys)))"

text \<open>
  The property \<open>_fugacity_sum_terms\<close> (lines 2273-2289; the later definition of the
  name is the one in force). The value is memoised in \<open>self.fugacity_sum_terms\<close>.
\<close>

definition fugacity_sum_terms_inner :: "real list \<Rightarrow> real list \<Rightarrow> nat \<Rightarrow> nat \<Rightarrow> real list \<Rightarrow> py_error + real list" where
  "fugacity_sum_terms_inner zs l i j fugacity_sum_terms =
     bind_err (getitem zs i) (\<lambda>zi.
     bind_err (getitem l j) (\<lambda>lj.
       let fugacity_sum_terms = fugacity_sum_terms[j := fugacity_sum_terms ! j + zi * lj]
       in bind_err (getitem zs j) (\<lambda>zj.
            Inr (fugacity_sum_terms[i := fugacity_sum_terms ! i + zj * lj]))))"

definition fugacity_sum_terms_outer :: "real list \<Rightarrow> real list list \<Rightarrow> nat \<Rightarrow> real list \<Rightarrow> py_error + real list" where
  "fugacity_sum_terms_outer zs a_alpha_ijs i fugacity_sum_terms =
     bind_err (getitem a_alpha_ijs i) (\<lambda>l.
     bind_err (for_each [0..<i] (fugacity_sum_terms_inner zs l i) fugacity_sum_terms) (\<lambda>fugacity_sum_terms.
     bind_err (getitem zs i) (\<lambda>zi.
     bind_err (getitem l i) (\<lambda>li.
       Inr (fugacity_sum_terms[i := fugacity_sum_terms ! i + zi * li])))))"

definition fugacity_sum_terms_property :: "eos \<Rightarrow> (py_error + real list) \<times> eos" where
  "fugacity_sum_terms_property self =
     (case self_fugacity_sum_terms self of
        Some t \<Rightarrow> (Inr t, self)
      | None \<Rightarrow>
          (case bind_err (getattr (self_a_alpha_ijs self)) (\<lambda>a_alpha_ijs.
                  for_each [0..<self_N self] (fugacity_sum_terms_outer (self_zs self) a_alpha_ijs)
                    (replicate (self_N self) 0)) of
             Inl e \<Rightarrow> (Inl e, self)
           | Inr t \<Rightarrow> (Inr t, self\<lparr>self_fugacity_sum_terms := Some t\<rparr>)))"

text \<open>
  \<open>PRMIX.fugacity_coefficients\<close> (lines 6265-6302). \<open>R\<close> is the gas constant of
  \<open>thermo.utils\<close>. The last stage, from the two logarithm terms \<open>x0\<close> and \<open>x4\<close> on,
  is \<open>PRMIX_lnphis\<close> (lines 6294-6302).
\<close>

definition PRMIX_lnphis ::
    "eos \<Rightarrow> real \<Rightarrow> real \<Rightarrow> real \<Rightarrow> real \<Rightarrow> real \<Rightarrow> real \<Rightarrow> (py_error + real list) \<times> eos" where
  "PRMIX_lnphis self Z a_alpha b two_root_two_B x0 x4 =
     (case fugacity_sum_terms_property self of
        (Inl e, self) \<Rightarrow> (Inl e, self)
      | (Inr fugacity_sum_terms, self) \<Rightarrow>
          if a_alpha * two_root_two_B = 0 then (Inr (replicate (self_N self) 0), self)
          else
            let t50 = 2 * x4 / (a_alpha * two_root_two_B)
            in (bind_err (py_div (x4 + (Z - 1) * two_root_two_B) (b * two_root_two_B)) (\<lambda>t51.
                  map_err (\<lambda>i. bind_err (getitem (self_bs self) i) (\<lambda>bi.
                                 bind_err (getitem fugacity_sum_terms i) (\<lambda>fi.
                                   Inr (bi * t51 - x0 - t50 * fi))))
                    [0..<self_N self]),
                self))"

definition PRMIX_fugacity_coefficients :: "real \<Rightarrow> eos \<Rightarrow> real \<Rightarrow> real list \<Rightarrow> (py_error + real list) \<times> eos" where
  "PRMIX_fugacity_coefficients R self Z zs =
     (let R_inv = 1 / R; R2_inv = R_inv * R_inv; root_two = sqrt 2
      in case getattr (self_a_alpha self) of
           Inl e \<Rightarrow> (Inl e, self)
         | Inr a_alpha \<Rightarrow>
             (case py_div 1 (self_T self) of
                Inl e \<Rightarrow> (Inl e, self)
              | Inr T_inv \<Rightarrow>
                  (case getattr (self_b self) of
                     Inl e \<Rightarrow> (Inl e, self)
                   | Inr b \<Rightarrow>
                       let P_T = self_P self * T_inv;
                           A = a_alpha * P_T * R2_inv * T_inv;
                           B = b * P_T * R_inv;
                           x0 = (case py_log (Z - B) of Inr v \<Rightarrow> v | Inl e \<Rightarrow> 0);
                           root_two_B = B * root_two;
                           two_root_two_B = root_two_B + root_two_B;
                           ZB = Z + B
                       in (case py_div (ZB + root_two_B) (ZB - root_two_B) of
                             Inl e \<Rightarrow> (Inl e, self)
                           | Inr q \<Rightarrow>
                               let x4 = (case py_log q of Inr v \<Rightarrow> A * v | Inl e \<Rightarrow> 0)
                               in PRMIX_lnphis self Z a_alpha b two_root_two_B x0 x4))))"

text \<open>
  The generic \<open>GCEOSMIX.fugacity_coefficients\<close> (lines 3987-3999). \<open>dlnphi_dns\<close>
  (the mole-number derivatives, a method of the class) and \<open>dns_to_dn_partials\<close>
  (of \<open>thermo.utils\<close>) are parameters.
\<close>

definition GCEOSMIX_fugacity_F :: "eos \<Rightarrow> real \<Rightarrow> py_error + real" where
  "GCEOSMIX_fugacity_F self Z =
     (case (case self_Z_l self of
              None \<Rightarrow> Inl AttributeError
            | Some Z_l \<Rightarrow> if Z = Z_l then getattr (self_phi_l self) else getattr (self_phi_g self)) of
        Inr F \<Rightarrow> Inr F
      | Inl e \<Rightarrow> getattr (self_phi_g self))"

definition GCEOSMIX_fugacity_coefficients ::
    "(eos \<Rightarrow> real \<Rightarrow> real list \<Rightarrow> py_error + real list) \<Rightarrow> (real list \<Rightarrow> real \<Rightarrow> py_error + real list) \<Rightarrow>
     eos \<Rightarrow> real \<Rightarrow> real list \<Rightarrow> py_error + real list" where
  "GCEOSMIX_fugacity_coefficients dlnphi_dns dns_to_dn_partials self Z zs =
     bind_err (GCEOSMIX_fugacity_F self Z) (\<lambda>F.
       let logF = (case py_log F of Inr v \<Rightarrow> v | Inl e \<Rightarrow> - 6907755278982137 / 10 ^ 13)
       in bind_err (dlnphi_dns self Z zs) (\<lambda>dns. dns_to_dn_partials dns logF))"

subsection \<open>The two-phase flash by successive substitution\<close>

text \<open>The Wilson estimate of the K-values, one per species (line 1793).\<close>

definition Wilson_Ks :: "collab \<Rightarrow> eos \<Rightarrow> real \<Rightarrow> real \<Rightarrow> py_error + real list" where
  "Wilson_Ks ext self T P =
     map_err (\<lambda>(Pci, Tci, omega). Wilson_K_value ext T P Tci Pci omega)
       (zip (self_Pcs self) (zip (self_Tcs self) (self_omegas self)))"

text \<open>
  Lines 1801-1808: the further K-value sets are tried in turn after a ValueError.
  When all fail the source executes \<open>raise(e)\<close> outside the \<open>except\<close> clause that
  bound \<open>e\<close>; Python 3 has unbound the name by then (Python 2 would raise the
  ValueError again).
\<close>

fun ss_try_extra :: "collab \<Rightarrow> real list \<Rightarrow> real list list \<Rightarrow> py_error + (real \<times> real list \<times> real list)" where
  "ss_try_extra ext zs [] = Inl UnboundLocalError"
| "ss_try_extra ext zs (Ks # Ks_extra) =
     (case flash_inner_loop ext zs Ks None of
        Inr r \<Rightarrow> Inr r
      | Inl (ValueError m) \<Rightarrow> ss_try_extra ext zs Ks_extra
      | Inl e \<Rightarrow> Inl e)"

text \<open>Lines 1787-1808: the starting compositions and vapor fraction.\<close>

definition ss_initial ::
    "collab \<Rightarrow> eos \<Rightarrow> real list option \<Rightarrow> real list list option \<Rightarrow> real list option \<Rightarrow> real list option \<Rightarrow>
     py_error + (real option \<times> real list \<times> real list)" where
  "ss_initial ext self Ks_initial Ks_extra xs ys =
     (case (xs, ys) of
        (Some xs, Some ys) \<Rightarrow> Inr (None, xs, ys)
      | _ \<Rightarrow>
          bind_err (case Ks_initial of
                      None \<Rightarrow> Wilson_Ks ext self (self_T self) (self_P self)
                    | Some Ks \<Rightarrow> Inr Ks) (\<lambda>Ks.
            bind_err (case flash_inner_loop ext (self_zs self) Ks None of
                        Inr r \<Rightarrow> Inr r
                      | Inl (ValueError m) \<Rightarrow>
                          (case Ks_extra of
                             None \<Rightarrow> Inl UnboundLocalError
                           | Some Ks_extra \<Rightarrow> ss_try_extra ext (self_zs self) Ks_extra)
                      | Inl e \<Rightarrow> Inl e)
              (\<lambda>r. case r of (V_over_F, xs, ys) \<Rightarrow> Inr (Some V_over_F, xs, ys))))"

text \<open>
  Lines 1818-1830: the fugacity coefficients of a trial phase. With \<open>near_critical\<close>
  an AttributeError of the first attempt leads to the other root.
\<close>

definition ss_lnphis_g :: "collab \<Rightarrow> bool \<Rightarrow> eos \<Rightarrow> real list \<Rightarrow> (py_error + real list) \<times> eos" where
  "ss_lnphis_g ext near_critical eos_g ys =
     (let r = (case self_Z_g eos_g of
                 None \<Rightarrow> (Inl AttributeError, eos_g)
               | Some Z \<Rightarrow> fugacity_coefficients ext eos_g Z ys)
      in if near_critical \<and> fst r = Inl AttributeError then
           (case self_Z_l (snd r) of
              None \<Rightarrow> (Inl AttributeError, snd r)
            | Some Z \<Rightarrow> fugacity_coefficients ext (snd r) Z ys)
         else r)"

definition ss_lnphis_l :: "collab \<Rightarrow> bool \<Rightarrow> eos \<Rightarrow> real list \<Rightarrow> (py_error + real list) \<times> eos" where
  "ss_lnphis_l ext near_critical eos_l xs =
     (let r = (case self_Z_l eos_l of
                 None \<Rightarrow> (Inl AttributeError, eos_l)
               | Some Z \<Rightarrow> fugacity_coefficients ext eos_l Z xs)
      in if near_critical \<and> fst r = Inl AttributeError then
           (case self_Z_g (snd r) of
              None \<Rightarrow> (Inl AttributeError, snd r)
            | Some Z \<Rightarrow> fugacity_coefficients ext (snd r) Z xs)
         else r)"

text \<open>
  Lines 1944-1953, applied to each of the two new compositions: at the first negative
  entry the whole vector is replaced by its absolute values divided by their sum.
\<close>

definition abs_renormalize :: "real list \<Rightarrow> real list" where
  "abs_renormalize xs_new =
     (if \<exists>xi \<in> set xs_new. xi < 0 then
        let xs_new_sum = sum_list (map abs xs_new)
        in map (\<lambda>i. \<bar>i\<bar> / xs_new_sum) xs_new
      else xs_new)"

text \<open>Lines 1957-1963: the error of the iteration, from the new K-values and the old compositions.\<close>

definition ss_err3 :: "real list \<Rightarrow> real list \<Rightarrow> real list \<Rightarrow> py_error + real" where
  "ss_err3 Ks xs ys =
     for_each (zip Ks (zip xs ys))
       (\<lambda>(Ki, xi, yi) err3. bind_err (py_div (Ki * xi) yi) (\<lambda>q.
          let err_i = q - 1 in Inr (err3 + err_i * err_i)))
       0"

definition comp_difference :: "real list \<Rightarrow> real list \<Rightarrow> real" where
  "comp_difference xs ys = sum_list (map (\<lambda>(xi, yi). \<bar>xi - yi\<bar>) (zip xs ys))"

text \<open>
  One pass of the loop body up to line 1978: the result is
  \<open>(V_over_F, xs_new, ys_new, err3, eos_l, eos_g)\<close>.
\<close>

definition ss_iteration ::
    "collab \<Rightarrow> eos \<Rightarrow> bool \<Rightarrow> bool \<Rightarrow> real option \<Rightarrow> real list \<Rightarrow> real list \<Rightarrow>
     py_error + (real \<times> real list \<times> real list \<times> real \<times> eos \<times> eos)" where
  "ss_iteration ext self near_critical full_alphas V_over_F xs ys =
     bind_err (to_TP_zs_fast ext self (self_T self) (self_P self) ys False True full_alphas) (\<lambda>eos_g.
     bind_err (to_TP_zs_fast ext self (self_T self) (self_P self) xs True False full_alphas) (\<lambda>eos_l.
       case ss_lnphis_g ext near_critical eos_g ys of
         (Inl e, eos_g) \<Rightarrow> Inl e
       | (Inr lnphis_g, eos_g) \<Rightarrow>
           (case ss_lnphis_l ext near_critical eos_l xs of
              (Inl e, eos_l) \<Rightarrow> Inl e
            | (Inr lnphis_l, eos_l) \<Rightarrow>
                let Ks = map (\<lambda>(l, g). exp (l - g)) (zip lnphis_l lnphis_g)
                in bind_err (flash_inner_loop ext (self_zs self) Ks V_over_F) (\<lambda>r.
                     case r of (V_over_F, xs_new, ys_new) \<Rightarrow>
                       let xs_new = abs_renormalize xs_new;
                           ys_new = abs_renormalize ys_new
                       in bind_err (ss_err3 Ks xs ys) (\<lambda>err3.
                            Inr (V_over_F, xs_new, ys_new, err3, eos_l, eos_g))))))"

text \<open>
  The loop \<open>for i in range(maxiter)\<close> (lines 1814-1988); the fifth argument counts the
  passes that remain and the sixth is \<open>i\<close>. The result carries \<open>(i, err3)\<close>, which the
  source writes to \<open>info\<close>. The range is exhausted without a pass only when
  \<open>maxiter\<close> is 0, and then the \<open>return\<close> reads the unbound \<open>eos_l\<close>.
\<close>

fun ss_loop ::
    "collab \<Rightarrow> eos \<Rightarrow> nat \<Rightarrow> real \<Rightarrow> bool \<Rightarrow> real \<Rightarrow> bool \<Rightarrow> nat \<Rightarrow> nat \<Rightarrow> real option \<Rightarrow> real list \<Rightarrow> real list \<Rightarrow>
     py_error + (real \<times> real list \<times> real list \<times> eos \<times> eos \<times> nat \<times> real)" where
  "ss_loop ext self maxiter xtol near_critical trivial_solution_tol full_alphas 0 i V_over_F xs ys =
     Inl UnboundLocalError"
| "ss_loop ext self maxiter xtol near_critical trivial_solution_tol full_alphas (Suc n) i V_over_F xs ys =
     bind_err (ss_iteration ext self near_critical full_alphas V_over_F xs ys) (\<lambda>r.
       case r of (V_over_F, xs, ys, err3, eos_l, eos_g) \<Rightarrow>
         if near_critical \<and> comp_difference xs ys < trivial_solution_tol then
           Inl (ValueError ''Converged to trivial condition, compositions of both phases equal'')
         else if err3 < xtol then Inr (V_over_F, xs, ys, eos_l, eos_g, i, err3)
         else if Suc i = maxiter then Inl (ValueError ''End of SS without convergence'')
         else ss_loop ext self maxiter xtol near_critical trivial_solution_tol full_alphas
                n (Suc i) (Some V_over_F) xs ys)"

definition sequential_substitution_VL ::
    "collab \<Rightarrow> eos \<Rightarrow> real list option \<Rightarrow> nat \<Rightarrow> real \<Rightarrow> bool \<Rightarrow> real list list option \<Rightarrow>
     real list option \<Rightarrow> real list option \<Rightarrow> real \<Rightarrow> bool \<Rightarrow>
     py_error + (real \<times> real list \<times> real list \<times> eos \<times> eos \<times> nat \<times> real)" where
  "sequential_substitution_VL ext self Ks_initial maxiter xtol near_critical Ks_extra xs ys
       trivial_solution_tol full_alphas =
     bind_err (ss_initial ext self Ks_initial Ks_extra xs ys) (\<lambda>s.
       case s of (V_over_F, xs, ys) \<Rightarrow>
         ss_loop ext self maxiter xtol near_critical trivial_solution_tol full_alphas
           maxiter 0 V_over_F xs ys)"

subsection \<open>The stability test of Michelsen\<close>

text \<open>
  One pass of the loop of \<open>stabiliy_iteration_Michelsen\<close> (lines 2013-2045): the result
  is \<open>(sum_zs_test, Ks, err, fugacities_phase)\<close>. The counter \<open>same_phase_count\<close> of
  the source is never read and is left out.
\<close>

definition stab_iteration ::
    "collab \<Rightarrow> eos \<Rightarrow> real \<Rightarrow> real \<Rightarrow> real list \<Rightarrow> bool \<Rightarrow> real list \<Rightarrow> real list \<Rightarrow>
     py_error + (real \<times> real list \<times> real \<times> char)" where
  "stab_iteration ext self T P zs liq fugacities_ref Ks =
     bind_err (if liq then map_err (\<lambda>(zi, Ki). py_div zi Ki) (zip zs Ks)
               else Inr (map (\<lambda>(zi, Ki). zi * Ki) (zip zs Ks))) (\<lambda>zs_test.
       let sum_zs_test = sum_list zs_test in
     bind_err (map_err (\<lambda>zi. py_div zi sum_zs_test) zs_test) (\<lambda>zs_test_normalized.
     bind_err (to_TP_zs_fast ext self T P zs_test_normalized False False False) (\<lambda>eos_test.
     bind_err (eos_fugacities_lowest_Gibbs ext eos_test) (\<lambda>fp.
       case fp of (fugacities_test, fugacities_phase) \<Rightarrow>
     bind_err (if liq then
                 map_err (\<lambda>(fi, f_ref). bind_err (py_div fi f_ref) (\<lambda>q. Inr (q * sum_zs_test)))
                   (zip fugacities_test fugacities_ref)
               else
                 map_err (\<lambda>(fi, f_ref). py_div f_ref (fi * sum_zs_test))
                   (zip fugacities_test fugacities_ref)) (\<lambda>corrections.
       let Ks = map (\<lambda>(Ki, corr). Ki * corr) (zip Ks corrections);
           corrections_minus_1 = map (\<lambda>corr. corr - 1) corrections;
           err = sum_list (map (\<lambda>ci. ci * ci) corrections_minus_1)
       in Inr (sum_zs_test, Ks, err, fugacities_phase))))))"

text \<open>
  The loop \<open>for _ in range(maxiter)\<close> (lines 2012-2065); the counters are as in
  \<open>ss_loop\<close>. After the last pass the loop ends without \<open>break\<close> when the phases
  agree; with \<open>maxiter\<close> 0 the \<open>return\<close> reads the unbound \<open>sum_zs_test\<close>.
\<close>

fun stab_loop ::
    "collab \<Rightarrow> eos \<Rightarrow> real \<Rightarrow> real \<Rightarrow> real list \<Rightarrow> nat \<Rightarrow> real \<Rightarrow> bool \<Rightarrow> real list \<Rightarrow> char \<Rightarrow>
     nat \<Rightarrow> nat \<Rightarrow> real list \<Rightarrow> py_error + (real \<times> real list \<times> bool)" where
  "stab_loop ext self T P zs maxiter xtol liq fugacities_ref fugacities_ref_phase 0 i Ks =
     Inl UnboundLocalError"
| "stab_loop ext self T P zs maxiter xtol liq fugacities_ref fugacities_ref_phase (Suc n) i Ks =
     bind_err (stab_iteration ext self T P zs liq fugacities_ref Ks) (\<lambda>r.
       case r of (sum_zs_test, Ks, err, fugacities_phase) \<Rightarrow>
         if err < xtol then Inr (sum_zs_test, Ks, fugacities_ref_phase = fugacities_phase)
         else if Suc i = maxiter \<and> fugacities_ref_phase \<noteq> fugacities_phase then
           Inl UnconvergedError
         else if Suc i = maxiter then
           Inr (sum_zs_test, Ks, fugacities_ref_phase = fugacities_phase)
         else stab_loop ext self T P zs maxiter xtol liq fugacities_ref fugacities_ref_phase
                n (Suc i) Ks)"

definition stabiliy_iteration_Michelsen ::
    "collab \<Rightarrow> eos \<Rightarrow> real \<Rightarrow> real \<Rightarrow> real list \<Rightarrow> real list option \<Rightarrow> nat \<Rightarrow> real \<Rightarrow> bool \<Rightarrow>
     py_error + (real \<times> real list \<times> bool)" where
  "stabiliy_iteration_Michelsen ext self T P zs Ks_initial maxiter xtol liq =
     bind_err (eos_fugacities_lowest_Gibbs ext self) (\<lambda>fp.
       case fp of (fugacities_ref, fugacities_ref_phase) \<Rightarrow>
     bind_err (case Ks_initial of None \<Rightarrow> Wilson_Ks ext self T P | Some Ks \<Rightarrow> Inr Ks) (\<lambda>Ks.
       stab_loop ext self T P zs maxiter xtol liq fugacities_ref fugacities_ref_phase
         maxiter 0 Ks))"

text \<open>The decision of lines 2121-2130, an \<open>if ... elif\<close> chain.\<close>

definition Michelsen_stable :: "bool \<Rightarrow> bool \<Rightarrow> bool \<Rightarrow> bool \<Rightarrow> real \<Rightarrow> real \<Rightarrow> real \<Rightarrow> bool" where
  "Michelsen_stable phase_failure_g phase_failure_l trivial_g trivial_l
       sum_g_criteria sum_l_criteria stable_criteria =
     (if phase_failure_g \<and> phase_failure_l then True
      else if trivial_g \<and> trivial_l then True
      else if sum_g_criteria < stable_criteria \<and> trivial_l then True
      else if trivial_g \<and> sum_l_criteria < stable_criteria then True
      else if sum_g_criteria < stable_criteria \<and> sum_l_criteria < stable_criteria then True
      else False)"

text \<open>
  \<open>stability_Michelsen\<close> (lines 2067-2151). The flags \<open>g_pass\<close> and \<open>l_pass\<close> of the
  source are never read and are left out.
\<close>

definition stability_Michelsen ::
    "collab \<Rightarrow> eos \<Rightarrow> real \<Rightarrow> real \<Rightarrow> real list \<Rightarrow> real list option \<Rightarrow> nat \<Rightarrow> real \<Rightarrow> real \<Rightarrow> real \<Rightarrow>
     py_error + (bool \<times> real list \<times> real list list)" where
  "stability_Michelsen ext self T P zs Ks_initial maxiter xtol trivial_criteria stable_criteria =
     bind_err (case Ks_initial of None \<Rightarrow> Wilson_Ks ext self T P | Some Ks \<Rightarrow> Inr Ks) (\<lambda>Ks.
     bind_err (stabiliy_iteration_Michelsen ext self T P zs (Some Ks) maxiter xtol False) (\<lambda>g.
       case g of (zs_sum_g, Ks_g, phase_failure_g) \<Rightarrow>
     bind_err (stabiliy_iteration_Michelsen ext self T P zs (Some Ks) maxiter xtol True) (\<lambda>l.
       case l of (zs_sum_l, Ks_l, phase_failure_l) \<Rightarrow>
     bind_err (map_err py_log Ks_g) (\<lambda>log_Ks_g.
     bind_err (map_err py_log Ks_l) (\<lambda>log_Ks_l.
       let lnK_2_tot_g = sum_list (map (\<lambda>log_Ki. log_Ki * log_Ki) log_Ks_g);
           lnK_2_tot_l = sum_list (map (\<lambda>log_Ki. log_Ki * log_Ki) log_Ks_l);
           sum_g_criteria = zs_sum_g - 1;
           sum_l_criteria = zs_sum_l - 1;
           trivial_g = (lnK_2_tot_g < trivial_criteria);
           trivial_l = (lnK_2_tot_l < trivial_criteria);
           stable = Michelsen_stable phase_failure_g phase_failure_l trivial_g trivial_l
                      sum_g_criteria sum_l_criteria stable_criteria;
           Ks = (if \<not> stable then map (\<lambda>(K_g, K_l). K_g * K_l) (zip Ks_g Ks_l) else Ks)
       in Inr (stable, Ks, [Ks_g, Ks_l]))))))"

subsection \<open>Concrete instances and collaborators\<close>

text \<open>
  A two-species instance at T = 115 K, P = 1e6 Pa with equal mole fractions, and
  collaborators with fixed answers; the theorems below are applied to them.
\<close>

definition ex_eos :: eos where
  "ex_eos =
     \<lparr>self_N = 2, self_Tcs = [1261 / 10, 1906 / 10], self_Pcs = [3394000, 4604000],
      self_omegas = [4 / 100, 11 / 1000], self_kijs = [[0, 0], [0, 0]],
      self_kwargs = [(''kijs'', [[0, 0], [0, 0]])], self_ais = [1, 1], self_bs = [1, 1],
      self_zs = [1 / 2, 1 / 2], self_T = 115, self_P = 10 ^ 6, self_V = None,
      self_b = Some 1, self_a_alpha = Some 4,
      self_a_alphas = Some [4, 4], self_da_alpha_dTs = Some [0, 0],
      self_d2a_alpha_dT2s = Some [0, 0],
      self_a_alpha_ijs = None, self_a_alpha_i_roots = None,
      self_a_alpha_ij_roots_inv = None, self_da_alpha_dT_ijs = None,
      self_d2a_alpha_dT2_ijs = None, self_Z_l = Some (1 / 10), self_Z_g = Some (9 / 10),
      self_phi_l = None, self_phi_g = None, self_fugacity_sum_terms = None\<rparr>"

text \<open>
  The root solver finds both roots; the liquid root has \<open>ln phi = [ln (3/2), ln (2/3)]\<close>,
  the vapor root \<open>[0, 0]\<close>; the Rachford-Rice solver answers with half the feed as
  vapor and the compositions \<open>[2/5, 3/5]\<close> and \<open>[3/5, 2/5]\<close>.
\<close>

definition ex_ext :: collab where
  "ex_ext =
     \<lparr>solve = (\<lambda>new pure_a_alphas only_l only_g full_alphas.
                 Inr (new\<lparr>self_Z_l := Some (1 / 10), self_Z_g := Some (9 / 10)\<rparr>)),
      fast_init_specific = (\<lambda>new other. Inr (new\<lparr>self_b := Some 1\<rparr>)),
      init = (\<lambda>T P zs Tcs Pcs omegas only_l only_g fugacities kwargs.
                Inr (ex_eos\<lparr>self_T := T, self_P := P, self_zs := zs, self_Tcs := Tcs,
                            self_Pcs := Pcs, self_omegas := omegas, self_kwargs := kwargs\<rparr>)),
      Wilson_K_value = (\<lambda>T P Tc Pc omega. Inr (Pc / P)),
      flash_inner_loop = (\<lambda>zs Ks guess. Inr (1 / 2, [2 / 5, 3 / 5], [3 / 5, 2 / 5])),
      fugacity_coefficients = (\<lambda>e Z zs. (if Z = 1 / 10 then Inr [ln (3 / 2), ln (2 / 3)]
                                           else Inr [0, 0], e)),
      eos_fugacities_lowest_Gibbs = (\<lambda>e. Inr ([1, 1], CHR ''g''))\<rparr>"

text \<open>Collaborators whose two phases come out almost equal.\<close>

definition ex_ext_trivial :: collab where
  "ex_ext_trivial =
     ex_ext\<lparr>flash_inner_loop :=
              (\<lambda>zs Ks guess. Inr (1 / 2, [1 / 2, 1 / 2], [500001 / 10 ^ 6, 499999 / 10 ^ 6])),
            fugacity_coefficients :=
              (\<lambda>e Z zs. (if Z = 1 / 10 then Inr [ln (1000002 / 10 ^ 6), ln (999998 / 10 ^ 6)]
                          else Inr [0, 0], e))\<rparr>"

text \<open>Collaborators whose Rachford-Rice solver returns a negative liquid mole fraction.\<close>

definition ex_ext_negative :: collab where
  "ex_ext_negative =
     ex_ext\<lparr>flash_inner_loop :=
              (\<lambda>zs Ks guess. Inr (1 / 2, [- 1 / 4, 3 / 4], [3 / 5, 2 / 5]))\<rparr>"

text \<open>
  Collaborators for the stability test: every instance reports its vapor-like root as
  the one of lowest Gibbs energy, with fugacities that make the first correction 1.
\<close>

definition ex_ext_stab :: collab where
  "ex_ext_stab =
     ex_ext\<lparr>eos_fugacities_lowest_Gibbs :=
              (\<lambda>e. if self_zs e = [1 / 3, 2 / 3] then Inr ([1 / 3, 1 / 3], CHR ''g'')
                    else if self_zs e = [2 / 3, 1 / 3] then Inr ([8 / 3, 8 / 3], CHR ''g'')
                    else Inr ([1, 1], CHR ''g''))\<rparr>"

text \<open>
  The instance that \<open>to_TP_zs_fast\<close> builds from \<open>ex_eos\<close> with these collaborators
  at the temperature and pressure of \<open>ex_eos\<close> and the composition \<open>zs\<close>.
\<close>

definition ex_trial_eos :: "real list \<Rightarrow> eos" where
  "ex_trial_eos zs = ex_eos\<lparr>self_zs := zs, self_a_alpha := None\<rparr>"

text \<open>
  An instance for \<open>PRMIX.fugacity_coefficients\<close> whose dimensionless co-volume
  \<open>B = b P / (R T)\<close> is 10 with \<open>R = 8.3144598\<close>, so that both logarithms of the
  formula have a non-positive argument at \<open>Z = 0.1\<close>; and stand-ins for the two
  collaborators of the generic method, \<open>dns_to_dn_partials\<close> adding \<open>F\<close> to each
  derivative.
\<close>

definition ex_pr_eos :: eos where
  "ex_pr_eos =
     ex_eos\<lparr>self_T := 100, self_P := 83144598 / 100, self_b := Some (1 / 100),
            self_bs := [1 / 100, 1 / 100], self_fugacity_sum_terms := Some [1, 1]\<rparr>"

definition ex_dlnphi_dns :: "eos \<Rightarrow> real \<Rightarrow> real list \<Rightarrow> py_error + real list" where
  "ex_dlnphi_dns self Z zs = Inr [0, 0]"

definition ex_dns_to_dn_partials :: "real list \<Rightarrow> real \<Rightarrow> py_error + real list" where
  "ex_dns_to_dn_partials dns F = Inr (map (\<lambda>dni. F + dni) dns)"

text \<open>
  The instance \<open>ex_eos\<close> (at T = 115) holding the three cached pairwise matrices of
  the pure values \<open>[9, 9]\<close>.
\<close>

definition ex_cached_eos :: eos where
  "ex_cached_eos =
     ex_eos\<lparr>self_a_alpha_ijs := Some [[9, 9], [9, 9]],
            self_a_alpha_i_roots := Some [3, 3],
            self_a_alpha_ij_roots_inv := Some [[1 / 9, 1 / 9], [0, 1 / 9]]\<rparr>"


subsection \<open>Auxiliary notions for the proofs\<close>

text \<open>
  What the two loops of the matrix functions have established after the rows before
  \<open>i\<close> and the columns before \<open>j\<close> of row \<open>i\<close>: the entries written so far
  (\<open>covered\<close>), their values (\<open>aij_spec\<close>, \<open>inv_spec\<close>) and the shapes.
\<close>

definition aij_spec :: "real list \<Rightarrow> real list list \<Rightarrow> nat \<Rightarrow> nat \<Rightarrow> real" where
  "aij_spec roots kijs p q =
     (1 - kijs ! (min p q) ! (max p q)) * (roots ! (min p q) * roots ! (max p q))"

definition inv_spec :: "real list \<Rightarrow> nat \<Rightarrow> nat \<Rightarrow> real" where
  "inv_spec roots p q =
     (if q < p then 0
      else if roots ! p * roots ! q = 0 then 10 ^ 100
      else 1 / (roots ! p * roots ! q))"

definition covered :: "nat \<Rightarrow> nat \<Rightarrow> nat \<Rightarrow> nat \<Rightarrow> bool" where
  "covered i j p q = (min p q < i \<or> (min p q = i \<and> max p q < j))"

definition square :: "nat \<Rightarrow> 'a list list \<Rightarrow> bool" where
  "square N M = (length M = N \<and> (\<forall>p<N. length (M ! p) = N))"

definition aijs_inv :: "nat \<Rightarrow> real list \<Rightarrow> real list list \<Rightarrow> nat \<Rightarrow> nat \<Rightarrow>
    real list list \<times> real list list \<Rightarrow> bool" where
  "aijs_inv N roots kijs i j s =
     (square N (fst s) \<and> square N (snd s) \<and>
      (\<forall>p<N. \<forall>q<N. covered i j p q \<longrightarrow> fst s ! p ! q = aij_spec roots kijs p q) \<and>
      (\<forall>p<N. \<forall>q<N. snd s ! p ! q = (if covered i j p q then inv_spec roots p q else 0)))"

definition kijs_shape :: "nat \<Rightarrow> real list list \<Rightarrow> bool" where
  "kijs_shape N kijs = (N \<le> length kijs \<and> (\<forall>i<N. N \<le> length (kijs ! i)))"

subsection \<open>The cache of \<open>a_alpha_and_derivatives_py\<close>, read as one value\<close>

text \<open>
  Auxiliary definitions for the statements about the cache. \<open>recompute_matrices\<close> is
  the pair of nested \<open>try\<close> blocks of lines 659-662 (\<open>quick\<close>, which catches
  ZeroDivisionError only) and 665-668 (not \<open>quick\<close>, a bare \<open>except\<close>); \<open>cache_of\<close>
  reads the three cached attributes, present only when all three are; \<open>store_cache\<close>
  is the assignment of lines 663 and 671.
\<close>

definition recompute_matrices ::
    "bool \<Rightarrow> real list \<Rightarrow> real list list \<Rightarrow> py_error + (real list list \<times> real list \<times> real list list)" where
  "recompute_matrices quick a_alphas kijs =
     (case a_alpha_aijs_composition_independent a_alphas kijs of
        Inr c \<Rightarrow> Inr c
      | Inl e \<Rightarrow>
          if quick \<and> e \<noteq> ZeroDivisionError then Inl e
          else a_alpha_aijs_composition_independent_support_zeros a_alphas kijs)"

definition cache_of :: "eos \<Rightarrow> (real list list \<times> real list \<times> real list list) option" where
  "cache_of self =
     (case (self_a_alpha_ijs self, self_a_alpha_i_roots self, self_a_alpha_ij_roots_inv self) of
        (Some m, Some r, Some v) \<Rightarrow> Some (m, r, v)
      | _ \<Rightarrow> None)"

definition store_cache :: "real list list \<times> real list \<times> real list list \<Rightarrow> eos \<Rightarrow> eos" where
  "store_cache c self =
     self\<lparr>self_a_alpha_ijs := Some (fst c), self_a_alpha_i_roots := Some (fst (snd c)),
          self_a_alpha_ij_roots_inv := Some (snd (snd c))\<rparr>"


section \<open>Verification\<close>

subsection \<open>Loops and the pairwise matrices\<close>

lemma bind_err_simps [simp]:
  "bind_err (Inl e) f = Inl e" "bind_err (Inr x) f = f x"
  by (simp_all add: bind_err_def)

lemma getitem_simps:
  "i < length xs \<Longrightarrow> getitem xs i = Inr (xs ! i)"
  "\<not> i < length xs \<Longrightarrow> getitem xs i = Inl IndexError"
  by (simp_all add: getitem_def)

lemma length_set2 [simp]: "length (set2 M i j v) = length M"
  by (simp add: set2_def)

lemma length_set2_row [simp]: "p < length M \<Longrightarrow> length (set2 M i j v ! p) = length (M ! p)"
  by (cases "p = i") (simp_all add: set2_def)

lemma square_set2 [simp]: "square N (set2 M i j v) = square N M"
  by (auto simp: square_def)

lemma nth_set2:
  "square N M \<Longrightarrow> i < N \<Longrightarrow> j < N \<Longrightarrow> p < N \<Longrightarrow> q < N \<Longrightarrow>
   set2 M i j v ! p ! q = (if p = i \<and> q = j then v else M ! p ! q)"
  by (auto simp: square_def set2_def nth_list_update)

lemma square_replicate [simp]: "square N (replicate N (replicate N x))"
  by (simp add: square_def)

lemma for_each_upt_inv:
  assumes "I i s" and "i \<le> n"
    and step: "\<And>k s. i \<le> k \<Longrightarrow> k < n \<Longrightarrow> I k s \<Longrightarrow> \<exists>s'. body k s = Inr s' \<and> I (Suc k) s'"
  shows "\<exists>s'. for_each [i..<n] body s = Inr s' \<and> I n s'"
  using assms
proof (induction "n - i" arbitrary: i s)
  case 0
  then show ?case by simp
next
  case (Suc d)
  then have lt: "i < n" by linarith
  from Suc.prems(3)[OF le_refl lt Suc.prems(1)]
  obtain s1 where s1: "body i s = Inr s1" "I (Suc i) s1" by blast
  have d: "d = n - Suc i" using Suc.hyps(2) by linarith
  have "\<exists>s'. for_each [Suc i..<n] body s1 = Inr s' \<and> I n s'"
  proof (rule Suc.hyps(1)[OF d s1(2)])
    show "Suc i \<le> n" using lt by simp
    fix k s assume "Suc i \<le> k" "k < n" "I k s"
    then show "\<exists>s'. body k s = Inr s' \<and> I (Suc k) s'"
      using Suc.prems(3)[of k s] by simp
  qed
  then show ?case using s1(1) lt by (simp add: upt_conv_Cons)
qed

lemma for_each_cong:
  "(\<And>x s. x \<in> set xs \<Longrightarrow> f x s = g x s) \<Longrightarrow> for_each xs f s = for_each xs g s"
  by (induction xs arbitrary: s) (auto split: sum.splits)

lemma for_each_error:
  "for_each xs body s = Inl e \<Longrightarrow> \<exists>x\<in>set xs. \<exists>s'. body x s' = Inl e"
  by (induction xs arbitrary: s) (auto split: sum.splits)

lemma covered_Suc:
  "i \<le> j \<Longrightarrow> covered i (Suc j) p q \<longleftrightarrow> covered i j p q \<or> (p = i \<and> q = j) \<or> (p = j \<and> q = i)"
  by (auto simp: covered_def min_def max_def split: if_splits)

lemma covered_row_done:
  "p < N \<Longrightarrow> q < N \<Longrightarrow> covered i N p q \<longleftrightarrow> covered (Suc i) (Suc i) p q"
  by (auto simp: covered_def min_def max_def split: if_splits)

lemma covered_all: "p < N \<Longrightarrow> q < N \<Longrightarrow> covered N N p q"
  by (auto simp: covered_def)

lemma covered_none: "\<not> covered 0 0 p q"
  by (auto simp: covered_def)

lemma not_covered_self: "i \<le> j \<Longrightarrow> \<not> covered i j i j" "i \<le> j \<Longrightarrow> \<not> covered i j j i"
  by (auto simp: covered_def)

lemma aijs_inner_support_zeros_step:
  assumes inv: "aijs_inv N roots kijs i j s" and ij: "i \<le> j" "j < N"
    and len: "N \<le> length (kijs ! i)"
  shows "\<exists>s'. aijs_inner_support_zeros roots (kijs ! i) i j s = Inr s' \<and>
              aijs_inv N roots kijs i (Suc j) s'"
proof -
  have iN: "i < N" using ij by simp
  obtain M V where s: "s = (M, V)" by (cases s)
  from inv s have sq: "square N M" "square N V"
    and Ms: "\<And>p q. p < N \<Longrightarrow> q < N \<Longrightarrow> covered i j p q \<Longrightarrow> M ! p ! q = aij_spec roots kijs p q"
    and Vs: "\<And>p q. p < N \<Longrightarrow> q < N \<Longrightarrow> V ! p ! q = (if covered i j p q then inv_spec roots p q else 0)"
    by (auto simp: aijs_inv_def)
  define v where "v = (1 - kijs ! i ! j) * (roots ! i * roots ! j)"
  define w where "w = inv_spec roots i j"
  have w: "w = (if roots ! i * roots ! j = 0 then 10 ^ 100 else 1 / (roots ! i * roots ! j))"
    using ij by (simp add: w_def inv_spec_def)
  have res: "aijs_inner_support_zeros roots (kijs ! i) i j s =
        Inr (set2 (set2 M i j v) j i v, set2 V i j w)"
    using len ij by (auto simp: aijs_inner_support_zeros_def s Let_def getitem_simps v_def w)
  have vspec: "aij_spec roots kijs i j = v" "aij_spec roots kijs j i = v"
    using ij by (simp_all add: aij_spec_def v_def min_def max_def)
  have "aijs_inv N roots kijs i (Suc j) (set2 (set2 M i j v) j i v, set2 V i j w)"
    unfolding aijs_inv_def fst_conv snd_conv
  proof (intro conjI allI impI)
    show "square N (set2 (set2 M i j v) j i v)" "square N (set2 V i j w)" using sq by simp_all
  next
    fix p q assume pq: "p < N" "q < N" and c: "covered i (Suc j) p q"
    have "set2 (set2 M i j v) j i v ! p ! q =
        (if p = j \<and> q = i then v else if p = i \<and> q = j then v else M ! p ! q)"
      using sq pq iN ij by (simp add: nth_set2)
    then show "set2 (set2 M i j v) j i v ! p ! q = aij_spec roots kijs p q"
      using c Ms[OF pq] vspec ij(1) by (auto simp: covered_Suc)
  next
    fix p q assume pq: "p < N" "q < N"
    have "set2 V i j w ! p ! q = (if p = i \<and> q = j then w else V ! p ! q)"
      using sq pq iN ij by (simp add: nth_set2)
    moreover have "inv_spec roots j i = 0" if "i < j" using that by (simp add: inv_spec_def)
    ultimately show "set2 V i j w ! p ! q = (if covered i (Suc j) p q then inv_spec roots p q else 0)"
      using Vs[OF pq] ij(1) not_covered_self[OF ij(1)]
      by (cases "i = j") (auto simp: covered_Suc w_def)
  qed
  with res show ?thesis by blast
qed

lemma aijs_support_zeros_row:
  assumes inv: "aijs_inv N roots kijs i i s" and iN: "i < N"
    and len: "i < length kijs" "N \<le> length (kijs ! i)"
  shows "\<exists>s'. bind_err (getitem kijs i) (\<lambda>kijs_i.
                 for_each [i..<N] (aijs_inner_support_zeros roots kijs_i i) s) = Inr s' \<and>
              aijs_inv N roots kijs (Suc i) (Suc i) s'"
proof -
  have "\<exists>s'. for_each [i..<N] (aijs_inner_support_zeros roots (kijs ! i) i) s = Inr s' \<and>
             aijs_inv N roots kijs i N s'"
  proof (rule for_each_upt_inv[where I = "aijs_inv N roots kijs i", OF inv])
    show "i \<le> N" using iN by simp
    fix k s assume "i \<le> k" "k < N" "aijs_inv N roots kijs i k s"
    then show "\<exists>s'. aijs_inner_support_zeros roots (kijs ! i) i k s = Inr s' \<and>
                   aijs_inv N roots kijs i (Suc k) s'"
      using len(2) by (intro aijs_inner_support_zeros_step)
  qed
  then obtain s' where s': "for_each [i..<N] (aijs_inner_support_zeros roots (kijs ! i) i) s = Inr s'"
    "aijs_inv N roots kijs i N s'" by blast
  have "aijs_inv N roots kijs (Suc i) (Suc i) s'"
    using s'(2) by (simp add: aijs_inv_def covered_row_done)
  then show ?thesis using s'(1) len(1) by (simp add: getitem_simps)
qed

lemma support_zeros_result:
  assumes "kijs_shape (length a_alphas) kijs"
  shows "\<exists>M V. a_alpha_aijs_composition_independent_support_zeros a_alphas kijs =
                 Inr (M, map sqrt a_alphas, V) \<and>
               aijs_inv (length a_alphas) (map sqrt a_alphas) kijs
                 (length a_alphas) (length a_alphas) (M, V)"
proof -
  let ?N = "length a_alphas" and ?r = "map sqrt a_alphas"
  let ?body = "\<lambda>i s. bind_err (getitem kijs i) (\<lambda>kijs_i.
                 for_each [i..<?N] (aijs_inner_support_zeros ?r kijs_i i) s)"
  have init: "aijs_inv ?N ?r kijs 0 0 (replicate ?N (replicate ?N 0), replicate ?N (replicate ?N 0))"
    by (simp add: aijs_inv_def covered_none)
  have "\<exists>s'. for_each [0..<?N] ?body (replicate ?N (replicate ?N 0), replicate ?N (replicate ?N 0)) = Inr s' \<and>
             aijs_inv ?N ?r kijs ?N ?N s'"
  proof (rule for_each_upt_inv[where I = "\<lambda>i. aijs_inv ?N ?r kijs i i", OF init])
    fix k s assume "0 \<le> k" "k < ?N" "aijs_inv ?N ?r kijs k k s"
    then show "\<exists>s'. ?body k s = Inr s' \<and> aijs_inv ?N ?r kijs (Suc k) (Suc k) s'"
      using assms by (intro aijs_support_zeros_row) (auto simp: kijs_shape_def)
  qed simp
  then obtain s' where s': "for_each [0..<?N] ?body (replicate ?N (replicate ?N 0), replicate ?N (replicate ?N 0)) = Inr s'"
    "aijs_inv ?N ?r kijs ?N ?N s'" by blast
  show ?thesis
    using s' by (cases s') (simp add: a_alpha_aijs_composition_independent_support_zeros_def Let_def)
qed

lemma aijs_inner_eq:
  "roots ! i * roots ! j \<noteq> 0 \<Longrightarrow>
   aijs_inner roots kijs_i i j s = aijs_inner_support_zeros roots kijs_i i j s"
  by (simp add: aijs_inner_def aijs_inner_support_zeros_def Let_def)

lemma plain_eq_support_zeros:
  assumes "\<forall>a\<in>set a_alphas. a \<noteq> 0"
  shows "a_alpha_aijs_composition_independent a_alphas kijs =
         a_alpha_aijs_composition_independent_support_zeros a_alphas kijs"
proof -
  have nz: "map sqrt a_alphas ! i * map sqrt a_alphas ! j \<noteq> 0"
    if "i < length a_alphas" "j < length a_alphas" for i j
    using that assms by (auto simp: nth_mem)
  have "for_each [i..<length a_alphas] (aijs_inner (map sqrt a_alphas) k i) s =
        for_each [i..<length a_alphas] (aijs_inner_support_zeros (map sqrt a_alphas) k i) s"
    if "i < length a_alphas" for i k s
    by (rule for_each_cong) (use that nz in \<open>auto intro!: aijs_inner_eq\<close>)
  then have "for_each [0..<length a_alphas]
          (\<lambda>i s. bind_err (getitem kijs i) (\<lambda>kijs_i.
                 for_each [i..<length a_alphas] (aijs_inner (map sqrt a_alphas) kijs_i i) s)) s0 =
        for_each [0..<length a_alphas]
          (\<lambda>i s. bind_err (getitem kijs i) (\<lambda>kijs_i.
                 for_each [i..<length a_alphas] (aijs_inner_support_zeros (map sqrt a_alphas) kijs_i i) s)) s0" for s0
    by (intro for_each_cong) (auto simp: bind_err_def split: sum.splits)
  then show ?thesis
    by (simp add: a_alpha_aijs_composition_independent_def
        a_alpha_aijs_composition_independent_support_zeros_def Let_def)
qed

lemma triangle_sum:
  fixes t :: "nat \<Rightarrow> nat \<Rightarrow> real"
  assumes sym: "\<And>p q. p < N \<Longrightarrow> q < N \<Longrightarrow> t p q = t q p"
  shows "(\<Sum>p<N. (\<Sum>q = Suc p..<N. t p q + t p q) + t p p) = (\<Sum>p<N. \<Sum>q<N. t p q)"
  using sym
proof (induction N)
  case 0
  then show ?case by simp
next
  case (Suc N)
  have IH: "(\<Sum>p<N. (\<Sum>q = Suc p..<N. t p q + t p q) + t p p) = (\<Sum>p<N. \<Sum>q<N. t p q)"
    using Suc.prems by (intro Suc.IH) auto
  have l: "(\<Sum>p<Suc N. (\<Sum>q = Suc p..<Suc N. t p q + t p q) + t p p)
        = (\<Sum>p<N. (\<Sum>q = Suc p..<N. t p q + t p q) + t p p) + (\<Sum>p<N. t p N + t p N) + t N N"
    by (simp add: sum.distrib algebra_simps)
  have "(\<Sum>q<N. t N q) = (\<Sum>p<N. t p N)"
    by (rule sum.cong) (use Suc.prems in auto)
  then have r: "(\<Sum>p<Suc N. \<Sum>q<Suc N. t p q)
        = (\<Sum>p<N. \<Sum>q<N. t p q) + (\<Sum>p<N. t p N + t p N) + t N N"
    by (simp add: sum.distrib algebra_simps sum_distrib_left)
  show ?case using l r IH by simp
qed

lemma a_alpha_sum_inner_loop:
  assumes "i < N" "N \<le> length row" "N \<le> length zs"
  shows "for_each [Suc i..<N] (a_alpha_sum_inner row zs zi) acc =
         Inr (acc + (\<Sum>q = Suc i..<N. row ! q * zi * zs ! q + row ! q * zi * zs ! q))"
proof -
  have "\<exists>s'. for_each [Suc i..<N] (a_alpha_sum_inner row zs zi) acc = Inr s' \<and>
        s' = acc + (\<Sum>q = Suc i..<N. row ! q * zi * zs ! q + row ! q * zi * zs ! q)"
  proof (rule for_each_upt_inv[where I = "\<lambda>j s. s = acc + (\<Sum>q = Suc i..<j. row ! q * zi * zs ! q + row ! q * zi * zs ! q)"])
    show "acc = acc + (\<Sum>q = Suc i..<Suc i. row ! q * zi * zs ! q + row ! q * zi * zs ! q)" by simp
    show "Suc i \<le> N" using assms by simp
    fix k s assume "Suc i \<le> k" "k < N" "s = acc + (\<Sum>q = Suc i..<k. row ! q * zi * zs ! q + row ! q * zi * zs ! q)"
    then show "\<exists>s'. a_alpha_sum_inner row zs zi k s = Inr s' \<and>
         s' = acc + (\<Sum>q = Suc i..<Suc k. row ! q * zi * zs ! q + row ! q * zi * zs ! q)"
      using assms by (simp add: a_alpha_sum_inner_def getitem_simps Let_def)
  qed
  then show ?thesis by simp
qed

lemma a_alpha_sum_loop:
  assumes sq: "square N M" and zs: "N \<le> length zs"
  shows "for_each [0..<N] (a_alpha_sum_outer N M zs) 0 =
         Inr (\<Sum>p<N. (\<Sum>q = Suc p..<N. M ! p ! q * zs ! p * zs ! q + M ! p ! q * zs ! p * zs ! q)
                      + M ! p ! p * zs ! p * zs ! p)"
proof -
  let ?f = "\<lambda>p. (\<Sum>q = Suc p..<N. M ! p ! q * zs ! p * zs ! q + M ! p ! q * zs ! p * zs ! q)
                      + M ! p ! p * zs ! p * zs ! p"
  have "\<exists>s'. for_each [0..<N] (a_alpha_sum_outer N M zs) 0 = Inr s' \<and> s' = (\<Sum>p<N. ?f p)"
  proof (rule for_each_upt_inv[where I = "\<lambda>i s. s = (\<Sum>p<i. ?f p)"])
    show "(0::real) = (\<Sum>p<0. ?f p)" by simp
    show "0 \<le> N" by simp
    fix k s assume k: "0 \<le> k" "k < N" and s: "s = (\<Sum>p<k. ?f p)"
    have len: "length M = N" "length (M ! k) = N" using sq k by (auto simp: square_def)
    have h: "a_alpha_sum_outer N M zs k s = Inr (s + ?f k)"
      using k zs len
      by (simp add: a_alpha_sum_outer_def getitem_simps a_alpha_sum_inner_loop[where N = N])
    have "(\<Sum>p<Suc k. ?f p) = s + ?f k"
      unfolding s by (rule sum.lessThan_Suc)
    with h show "\<exists>s'. a_alpha_sum_outer N M zs k s = Inr s' \<and> s' = (\<Sum>p<Suc k. ?f p)"
      by (simp only: sum.inject simp_thms ex_simps)
  qed
  then show ?thesis by simp
qed

lemma a_alpha_with_matrix:
  assumes sq: "square (length a_alphas) M" and zs: "length a_alphas \<le> length zs"
    and sym: "\<And>p q. p < length a_alphas \<Longrightarrow> q < length a_alphas \<Longrightarrow> M ! p ! q = M ! q ! p"
  shows "a_alpha_and_derivatives a_alphas T zs kijs (Some M) (Some r) (Some v) =
         Inr (\<Sum>p<length a_alphas. \<Sum>q<length a_alphas. M ! p ! q * zs ! p * zs ! q, None, M)"
proof -
  have "(\<Sum>p<length a_alphas. (\<Sum>q = Suc p..<length a_alphas.
            M ! p ! q * zs ! p * zs ! q + M ! p ! q * zs ! p * zs ! q) + M ! p ! p * zs ! p * zs ! p)
      = (\<Sum>p<length a_alphas. \<Sum>q<length a_alphas. M ! p ! q * zs ! p * zs ! q)"
    by (rule triangle_sum) (simp add: sym mult.commute mult.left_commute)
  then show ?thesis
    using a_alpha_sum_loop[OF sq zs]
    by (simp add: a_alpha_and_derivatives_def Let_def)
qed

subsection \<open>The divide-safe pairwise matrices: claim C6\<close>

lemma aijs_inv_final:
  assumes "aijs_inv N roots kijs N N (M, V)"
  shows "square N M" "square N V"
    "\<And>p q. p < N \<Longrightarrow> q < N \<Longrightarrow> M ! p ! q = aij_spec roots kijs p q"
    "\<And>p q. p < N \<Longrightarrow> q < N \<Longrightarrow> V ! p ! q = inv_spec roots p q"
  using assms by (auto simp: aijs_inv_def covered_all)

lemma aij_spec_sqrt:
  "p < length a_alphas \<Longrightarrow> q < length a_alphas \<Longrightarrow>
   aij_spec (map sqrt a_alphas) kijs p q =
     (1 - kijs ! (min p q) ! (max p q)) * sqrt (a_alphas ! p * a_alphas ! q)"
  by (auto simp: aij_spec_def real_sqrt_mult min_def max_def)

lemma all_less_2: "(\<forall>i<Suc (Suc 0). P i) \<longleftrightarrow> P 0 \<and> P (Suc 0)"
  by (auto simp: less_Suc_eq)

text \<open>
  The divide-safe variant raises no ZeroDivisionError on any input (only an IndexError,
  when \<open>kijs\<close> is too small).
\<close>

lemma support_zeros_no_division_error:
  "a_alpha_aijs_composition_independent_support_zeros a_alphas kijs \<noteq> Inl ZeroDivisionError"
proof
  assume a: "a_alpha_aijs_composition_independent_support_zeros a_alphas kijs = Inl ZeroDivisionError"
  let ?N = "length a_alphas" and ?r = "map sqrt a_alphas"
  let ?body = "\<lambda>i s. bind_err (getitem kijs i) (\<lambda>kijs_i.
                 for_each [i..<?N] (aijs_inner_support_zeros ?r kijs_i i) s)"
  from a have "for_each [0..<?N] ?body (replicate ?N (replicate ?N 0), replicate ?N (replicate ?N 0))
      = Inl ZeroDivisionError"
    by (auto simp: a_alpha_aijs_composition_independent_support_zeros_def Let_def bind_err_def
        split: sum.splits)
  then obtain i s where "?body i s = Inl ZeroDivisionError"
    using for_each_error by fast
  then obtain k where "for_each [i..<?N] (aijs_inner_support_zeros ?r k i) s = Inl ZeroDivisionError"
    by (auto simp: bind_err_def getitem_def split: sum.splits if_splits)
  then obtain j s' where "aijs_inner_support_zeros ?r k i j s' = Inl ZeroDivisionError"
    using for_each_error by fast
  then show False
    by (auto simp: aijs_inner_support_zeros_def Let_def bind_err_def getitem_def split: sum.splits if_splits)
qed

text \<open>
  Claim C6, as the code has it. For non-negative \<open>a_alphas\<close> and a \<open>kijs\<close> of at least
  N rows of at least N entries, \<open>a_alpha_aijs_composition_independent_support_zeros\<close>
  returns normally and raises no division error. On and above the diagonal each entry
  of \<open>a_alpha_ij_roots_inv\<close> is 1e100 where the product of the two roots is zero, and
  the reciprocal of that product elsewhere; below the diagonal the entries are never
  written and stay 0.0. The matrix \<open>a_alpha_ijs\<close> follows the combining rule
  \<open>(1 - kij) * sqrt (ai * aj)\<close>, with \<open>kij\<close> read from the upper triangle of \<open>kijs\<close>.
\<close>

theorem support_zeros_sentinel:
  assumes shape: "kijs_shape (length a_alphas) kijs" and nonneg: "\<forall>a\<in>set a_alphas. 0 \<le> a"
  shows "a_alpha_aijs_composition_independent_support_zeros a_alphas kijs \<noteq> Inl ZeroDivisionError \<and>
    (\<exists>M V. a_alpha_aijs_composition_independent_support_zeros a_alphas kijs =
              Inr (M, map sqrt a_alphas, V) \<and>
            square (length a_alphas) M \<and> square (length a_alphas) V \<and>
            (\<forall>i<length a_alphas. \<forall>j<length a_alphas.
               M ! i ! j = (1 - kijs ! (min i j) ! (max i j)) * sqrt (a_alphas ! i * a_alphas ! j)) \<and>
            (\<forall>i<length a_alphas. \<forall>j<length a_alphas.
               V ! i ! j =
                 (if j < i then 0
                  else if sqrt (a_alphas ! i) * sqrt (a_alphas ! j) = 0 then 10 ^ 100
                  else 1 / (sqrt (a_alphas ! i) * sqrt (a_alphas ! j)))))"
proof -
  from support_zeros_result[OF shape] obtain M V where
    r: "a_alpha_aijs_composition_independent_support_zeros a_alphas kijs = Inr (M, map sqrt a_alphas, V)"
    and inv: "aijs_inv (length a_alphas) (map sqrt a_alphas) kijs (length a_alphas) (length a_alphas) (M, V)"
    by blast
  note f = aijs_inv_final[OF inv]
  have "\<forall>i<length a_alphas. \<forall>j<length a_alphas.
          M ! i ! j = (1 - kijs ! (min i j) ! (max i j)) * sqrt (a_alphas ! i * a_alphas ! j)"
    using f(3) by (simp add: aij_spec_sqrt)
  moreover have "\<forall>i<length a_alphas. \<forall>j<length a_alphas.
          V ! i ! j = (if j < i then 0
                  else if sqrt (a_alphas ! i) * sqrt (a_alphas ! j) = 0 then 10 ^ 100
                  else 1 / (sqrt (a_alphas ! i) * sqrt (a_alphas ! j)))"
    using f(4) by (simp add: inv_spec_def)
  ultimately show ?thesis using r f(1,2) by simp
qed

theorem support_zeros_sentinel_witness:
  "kijs_shape (length [0, 4 :: real]) [[0, 0], [0, 0]] \<and>
   a_alpha_aijs_composition_independent_support_zeros [0, 4] [[0, 0], [0, 0]] \<noteq> Inl ZeroDivisionError \<and>
   (\<exists>M V. a_alpha_aijs_composition_independent_support_zeros [0, 4] [[0, 0], [0, 0]] =
              Inr (M, map sqrt [0, 4], V) \<and> V ! 0 ! 1 = 10 ^ 100 \<and> V ! 1 ! 1 = 1 / 4 \<and> M ! 1 ! 1 = 4)"
proof -
  have h1: "kijs_shape (length [0, 4 :: real]) [[0, 0], [0, 0]]"
    by (simp add: kijs_shape_def all_less_2)
  have h2: "\<forall>a\<in>set [0, 4 :: real]. 0 \<le> a" by simp
  from support_zeros_sentinel[OF h1 h2] obtain M V where
    r: "a_alpha_aijs_composition_independent_support_zeros [0, 4] [[0, 0], [0, 0]] = Inr (M, map sqrt [0, 4], V)"
    and m: "\<forall>i<length [0, 4 :: real]. \<forall>j<length [0, 4 :: real].
               M ! i ! j = (1 - [[0, 0], [0, 0]] ! (min i j) ! (max i j)) * sqrt ([0, 4] ! i * [0, 4] ! j)"
    and v: "\<forall>i<length [0, 4 :: real]. \<forall>j<length [0, 4 :: real].
               V ! i ! j =
                 (if j < i then 0
                  else if sqrt ([0, 4] ! i) * sqrt ([0, 4] ! j) = 0 then 10 ^ 100
                  else 1 / (sqrt ([0, 4] ! i) * sqrt ([0, 4] ! j)))"
    by blast
  have "V ! 0 ! 1 = 10 ^ 100" "V ! 1 ! 1 = 1 / 4" using v by (simp_all add: all_less_2)
  moreover have "M ! 1 ! 1 = 4" using m by (simp add: all_less_2)
  ultimately show ?thesis using h1 h2 r support_zeros_sentinel[OF h1 h2] by blast
qed

text \<open>
  Claim C6 as stated asks for the sentinel at every entry whose root product is zero.
  For \<open>a_alphas = [0.0, 4.0]\<close> the entry \<open>[1][0]\<close> has the root product 0 and holds
  0.0, not 1e100.
\<close>

theorem support_zeros_below_diagonal_counterexample:
  "a_alpha_aijs_composition_independent_support_zeros [0, 4] [[0, 0], [0, 0]] =
     Inr ([[0, 0], [0, 4]], [0, 2], [[10 ^ 100, 10 ^ 100], [0, 1 / 4]]) \<and>
   [0, 2 :: real] ! 1 * [0, 2] ! 0 = 0 \<and>
   [[10 ^ 100, 10 ^ 100], [0, 1 / 4 :: real]] ! 1 ! 0 \<noteq> 10 ^ 100"
  by (simp add: a_alpha_aijs_composition_independent_support_zeros_def Let_def bind_err_def getitem_def
      aijs_inner_support_zeros_def set2_def upt_conv_Cons)

subsection \<open>Instance construction: claim C10\<close>

text \<open>
  Claim C10. For an instance \<open>self\<close> of the heap, \<open>to_TP_zs\<close> called with \<open>T\<close>, \<open>P\<close>
  and \<open>zs\<close> all equal to the instance's own returns the reference \<open>self\<close> itself and
  leaves the heap as it is, whatever the collaborators are (nothing is constructed or
  recomputed). When at least one of the three differs, the class constructor is called
  and its instance is a new object of the heap, different from \<open>self\<close>.
\<close>

theorem to_TP_zs_same_object:
  assumes "self < length heap"
  shows "(T = self_T (heap ! self) \<and> P = self_P (heap ! self) \<and> zs = self_zs (heap ! self) \<longrightarrow>
            to_TP_zs ext heap self T P zs fugacities only_l only_g = Inr (self, heap)) \<and>
         (\<not> (T = self_T (heap ! self) \<and> P = self_P (heap ! self) \<and> zs = self_zs (heap ! self)) \<longrightarrow>
            to_TP_zs ext heap self T P zs fugacities only_l only_g =
              (case init ext T P zs (self_Tcs (heap ! self)) (self_Pcs (heap ! self))
                      (self_omegas (heap ! self)) only_l only_g fugacities (self_kwargs (heap ! self)) of
                 Inl e \<Rightarrow> Inl e
               | Inr new \<Rightarrow> Inr (length heap, heap @ [new])) \<and>
            length heap \<noteq> self)"
  using assms by (auto simp: to_TP_zs_def Let_def bind_err_def split: sum.splits)

theorem to_TP_zs_same_object_witness:
  "(0 :: nat) < length [ex_eos] \<and>
   to_TP_zs ex_ext [ex_eos] 0 115 (10 ^ 6) [1 / 2, 1 / 2] True False False = Inr (0, [ex_eos]) \<and>
   to_TP_zs ex_ext [ex_eos] 0 300 (10 ^ 6) [1 / 2, 1 / 2] True False False =
     Inr (1, [ex_eos, ex_eos\<lparr>self_T := 300\<rparr>])"
proof -
  have h: "(0 :: nat) < length [ex_eos]" by simp
  have a: "to_TP_zs ex_ext [ex_eos] 0 115 (10 ^ 6) [1 / 2, 1 / 2] True False False = Inr (0, [ex_eos])"
    using to_TP_zs_same_object[OF h, of 115 "10 ^ 6" "[1 / 2, 1 / 2]" ex_ext True False False]
    by (simp add: ex_eos_def)
  have b: "to_TP_zs ex_ext [ex_eos] 0 300 (10 ^ 6) [1 / 2, 1 / 2] True False False =
     Inr (1, [ex_eos, ex_eos\<lparr>self_T := 300\<rparr>])"
    using to_TP_zs_same_object[OF h, of 300 "10 ^ 6" "[1 / 2, 1 / 2]" ex_ext True False False]
    by (simp add: ex_eos_def ex_ext_def)
  show ?thesis using h a b by simp
qed

subsection \<open>The stability test: claim C3\<close>

lemma map_err_py_log: "\<forall>K\<in>set Ks. 0 < K \<Longrightarrow> map_err py_log Ks = Inr (map ln Ks)"
  by (induction Ks) (simp_all add: py_log_def)

lemma Michelsen_stable_iff:
  "Michelsen_stable pf_g pf_l trivial_g trivial_l sum_g sum_l crit \<longleftrightarrow>
     (pf_g \<and> pf_l) \<or> ((trivial_g \<or> sum_g < crit) \<and> (trivial_l \<or> sum_l < crit))"
  by (auto simp: Michelsen_stable_def)

text \<open>
  Claim C3, as the code has it. Given the results of the two one-sided trials with
  positive K-values, \<open>stability_Michelsen\<close> reports stable exactly when both trials
  report that the trial phase and the reference phase are of the same type
  (\<open>phase_failure_g\<close> and \<open>phase_failure_l\<close>), or each trial is trivial (sum of
  squared \<open>ln K\<close> below \<open>trivial_criteria\<close>) or has its sum of mole numbers minus 1
  below \<open>stable_criteria\<close>. When the result is unstable the returned K-values are the
  element-wise products of the two trial K-value vectors; when it is stable they are the
  initial K-values.
\<close>

theorem stability_decision:
  assumes Ks: "(case Ks_initial of None \<Rightarrow> Wilson_Ks ext self T P | Some Ks \<Rightarrow> Inr Ks) = Inr Ks"
    and g: "stabiliy_iteration_Michelsen ext self T P zs (Some Ks) maxiter xtol False =
              Inr (zs_sum_g, Ks_g, phase_failure_g)"
    and l: "stabiliy_iteration_Michelsen ext self T P zs (Some Ks) maxiter xtol True =
              Inr (zs_sum_l, Ks_l, phase_failure_l)"
    and pos_g: "\<forall>K\<in>set Ks_g. 0 < K" and pos_l: "\<forall>K\<in>set Ks_l. 0 < K"
    and st: "is_stable \<longleftrightarrow>
         (phase_failure_g \<and> phase_failure_l) \<or>
         (((\<Sum>K\<leftarrow>Ks_g. ln K * ln K) < trivial_criteria \<or> zs_sum_g - 1 < stable_criteria) \<and>
          ((\<Sum>K\<leftarrow>Ks_l. ln K * ln K) < trivial_criteria \<or> zs_sum_l - 1 < stable_criteria))"
  shows "stability_Michelsen ext self T P zs Ks_initial maxiter xtol trivial_criteria stable_criteria =
     Inr (is_stable,
          if is_stable then Ks else map (\<lambda>(K_g, K_l). K_g * K_l) (zip Ks_g Ks_l),
          [Ks_g, Ks_l])"
  using st
  by (auto simp: stability_Michelsen_def Ks g l map_err_py_log[OF pos_g] map_err_py_log[OF pos_l]
      Let_def Michelsen_stable_iff o_def)


lemma ln_2_ge_half: "1 / 2 \<le> ln (2 :: real)"
proof -
  have "ln (1 / 2 :: real) \<le> 1 / 2 - 1" by (rule ln_le_minus_one) simp
  moreover have "ln (1 / 2 :: real) = - ln 2" by (simp add: ln_div)
  ultimately show ?thesis by simp
qed

lemma stab_loop_numeral:
  "stab_loop ext self T P zs maxiter xtol liq fugacities_ref fugacities_ref_phase (numeral k) i Ks =
     bind_err (stab_iteration ext self T P zs liq fugacities_ref Ks) (\<lambda>r.
       case r of (sum_zs_test, Ks, err, fugacities_phase) \<Rightarrow>
         if err < xtol then Inr (sum_zs_test, Ks, fugacities_ref_phase = fugacities_phase)
         else if Suc i = maxiter \<and> fugacities_ref_phase \<noteq> fugacities_phase then
           Inl UnconvergedError
         else if Suc i = maxiter then
           Inr (sum_zs_test, Ks, fugacities_ref_phase = fugacities_phase)
         else stab_loop ext self T P zs maxiter xtol liq fugacities_ref fugacities_ref_phase
                (pred_numeral k) (Suc i) Ks)"
  by (simp add: numeral_eq_Suc)

lemma ex_stab_fast:
  "to_TP_zs_fast ex_ext_stab ex_eos 115 P zs only_l only_g full_alphas =
     Inr (ex_trial_eos zs\<lparr>self_P := P\<rparr>)"
  by (simp add: to_TP_zs_fast_def ex_ext_stab_def ex_ext_def ex_eos_def ex_trial_eos_def
      Let_def getattr_def)

lemma ex_stab_lowest_Gibbs:
  "eos_fugacities_lowest_Gibbs ex_ext_stab e =
     (if self_zs e = [1 / 3, 2 / 3] then Inr ([1 / 3, 1 / 3], CHR ''g'')
      else if self_zs e = [2 / 3, 1 / 3] then Inr ([8 / 3, 8 / 3], CHR ''g'')
      else Inr ([1, 1], CHR ''g''))"
  by (simp add: ex_ext_stab_def)

lemma ex_trial_zs [simp]: "self_zs (ex_trial_eos zs) = zs" "self_zs ex_eos = [1 / 2, 1 / 2]"
  by (simp_all add: ex_trial_eos_def ex_eos_def)

lemma ex_stab_g:
  "stabiliy_iteration_Michelsen ex_ext_stab ex_eos 115 (10 ^ 6) [1 / 2, 1 / 2] (Some [2, 4]) 20
     (1 / 10 ^ 12) False = Inr (3, [2, 4], True)"
  by (simp add: stabiliy_iteration_Michelsen_def ex_stab_lowest_Gibbs stab_loop_numeral
      stab_iteration_def py_div_def ex_stab_fast)

lemma ex_stab_l:
  "stabiliy_iteration_Michelsen ex_ext_stab ex_eos 115 (10 ^ 6) [1 / 2, 1 / 2] (Some [2, 4]) 20
     (1 / 10 ^ 12) True = Inr (3 / 8, [2, 4], True)"
  by (simp add: stabiliy_iteration_Michelsen_def ex_stab_lowest_Gibbs stab_loop_numeral
      stab_iteration_def py_div_def ex_stab_fast)

theorem stability_decision_witness:
  "stabiliy_iteration_Michelsen ex_ext_stab ex_eos 115 (10 ^ 6) [1 / 2, 1 / 2] (Some [2, 4]) 20
     (1 / 10 ^ 12) False = Inr (3, [2, 4], True) \<and>
   stabiliy_iteration_Michelsen ex_ext_stab ex_eos 115 (10 ^ 6) [1 / 2, 1 / 2] (Some [2, 4]) 20
     (1 / 10 ^ 12) True = Inr (3 / 8, [2, 4], True) \<and>
   stability_Michelsen ex_ext_stab ex_eos 115 (10 ^ 6) [1 / 2, 1 / 2] (Some [2, 4]) 20
     (1 / 10 ^ 12) (1 / 10 ^ 4) (1 / 10 ^ 7) = Inr (True, [2, 4], [[2, 4], [2, 4]])"
proof -
  have k: "(case Some [2, 4 :: real] of None \<Rightarrow> Wilson_Ks ex_ext_stab ex_eos 115 (10 ^ 6)
            | Some Ks \<Rightarrow> Inr Ks) = Inr [2, 4]" by simp
  have p: "\<forall>K\<in>set [2, 4 :: real]. 0 < K" by simp
  have s: "True \<longleftrightarrow> (True \<and> True) \<or>
         (((\<Sum>K\<leftarrow>[2, 4 :: real]. ln K * ln K) < 1 / 10 ^ 4 \<or> 3 - 1 < (1 / 10 ^ 7 :: real)) \<and>
          ((\<Sum>K\<leftarrow>[2, 4 :: real]. ln K * ln K) < 1 / 10 ^ 4 \<or> 3 / 8 - 1 < (1 / 10 ^ 7 :: real)))"
    by simp
  show ?thesis
    using stability_decision[OF k ex_stab_g ex_stab_l p p s] ex_stab_g ex_stab_l by simp
qed

text \<open>
  Claim C3 as stated makes the mixture stable exactly when each trial is trivial or
  within the threshold. Here the vapor-like trial is neither (its K-values are
  \<open>[2, 4]\<close> and its sum is 3), yet the result is stable, because both trials report
  the same phase type as the reference: the first branch of the decision.
\<close>

theorem stability_phase_failure_counterexample:
  "stability_Michelsen ex_ext_stab ex_eos 115 (10 ^ 6) [1 / 2, 1 / 2] (Some [2, 4]) 20
     (1 / 10 ^ 12) (1 / 10 ^ 4) (1 / 10 ^ 7) = Inr (True, [2, 4], [[2, 4], [2, 4]]) \<and>
   stabiliy_iteration_Michelsen ex_ext_stab ex_eos 115 (10 ^ 6) [1 / 2, 1 / 2] (Some [2, 4]) 20
     (1 / 10 ^ 12) False = Inr (3, [2, 4], True) \<and>
   \<not> (ln 2 * ln 2 + ln 4 * ln 4 < (1 / 10 ^ 4 :: real)) \<and>
   \<not> (3 - 1 < (1 / 10 ^ 7 :: real))"
proof -
  have "1 / 4 \<le> ln 2 * ln (2 :: real)"
    using mult_mono[OF ln_2_ge_half ln_2_ge_half] by simp
  moreover have "0 \<le> ln 4 * ln (4 :: real)" by (rule mult_nonneg_nonneg) simp_all
  ultimately have "1 / 10000 \<le> ln 2 * ln 2 + ln 4 * ln (4 :: real)" by linarith
  then have a: "\<not> (ln 2 * ln 2 + ln 4 * ln 4 < (1 / 10 ^ 4 :: real))" by simp
  have "stability_Michelsen ex_ext_stab ex_eos 115 (10 ^ 6) [1 / 2, 1 / 2] (Some [2, 4]) 20
     (1 / 10 ^ 12) (1 / 10 ^ 4) (1 / 10 ^ 7) = Inr (True, [2, 4], [[2, 4], [2, 4]])"
    by (simp add: stability_Michelsen_def ex_stab_g[simplified] ex_stab_l[simplified] py_log_def
        Michelsen_stable_def)
  then show ?thesis using a ex_stab_g by simp
qed

subsection \<open>The flash by successive substitution: claims C2, C4 and C7\<close>

lemma ss_loop_numeral:
  "ss_loop ext self maxiter xtol near_critical trivial_solution_tol full_alphas (numeral k) i V_over_F xs ys =
     bind_err (ss_iteration ext self near_critical full_alphas V_over_F xs ys) (\<lambda>r.
       case r of (V_over_F, xs, ys, err3, eos_l, eos_g) \<Rightarrow>
         if near_critical \<and> comp_difference xs ys < trivial_solution_tol then
           Inl (ValueError ''Converged to trivial condition, compositions of both phases equal'')
         else if err3 < xtol then Inr (V_over_F, xs, ys, eos_l, eos_g, i, err3)
         else if Suc i = maxiter then Inl (ValueError ''End of SS without convergence'')
         else ss_loop ext self maxiter xtol near_critical trivial_solution_tol full_alphas
                (pred_numeral k) (Suc i) (Some V_over_F) xs ys)"
  by (simp add: numeral_eq_Suc)

lemma ss_loop_success:
  "ss_loop ext self maxiter xtol near_critical tol full_alphas n i V_over_F xs ys =
     Inr (V', xs', ys', eos_l, eos_g, i', err3) \<Longrightarrow>
   err3 < xtol \<and> i \<le> i' \<and> i' < i + n \<and>
   (\<exists>V0 xs0 ys0. ss_iteration ext self near_critical full_alphas V0 xs0 ys0 =
      Inr (V', xs', ys', err3, eos_l, eos_g))"
proof (induction n arbitrary: i V_over_F xs ys)
  case 0
  then show ?case by simp
next
  case (Suc n)
  from Suc.prems obtain V1 xs1 ys1 e1 el1 eg1 where
    it: "ss_iteration ext self near_critical full_alphas V_over_F xs ys = Inr (V1, xs1, ys1, e1, el1, eg1)"
    by (cases "ss_iteration ext self near_critical full_alphas V_over_F xs ys") auto
  show ?case
  proof (cases "e1 < xtol")
    case True
    with Suc.prems it show ?thesis by (auto split: if_splits)
  next
    case False
    with Suc.prems it have
      "ss_loop ext self maxiter xtol near_critical tol full_alphas n (Suc i) (Some V1) xs1 ys1 =
         Inr (V', xs', ys', eos_l, eos_g, i', err3)"
      by (auto split: if_splits)
    from Suc.IH[OF this] show ?thesis by auto
  qed
qed

text \<open>The error of a pass is the sum over the species of \<open>(K_i * x_i / y_i - 1)\<^sup>2\<close>.\<close>

lemma ss_err3_value:
  "ss_err3 Ks xs ys = Inr e \<Longrightarrow>
   e = (\<Sum>(Ki, xi, yi)\<leftarrow>zip Ks (zip xs ys). (Ki * xi / yi - 1) * (Ki * xi / yi - 1))"
proof -
  have "for_each kxy (\<lambda>(Ki, xi, yi) err3. bind_err (py_div (Ki * xi) yi) (\<lambda>q.
          let err_i = q - 1 in Inr (err3 + err_i * err_i))) acc = Inr e \<Longrightarrow>
        e = acc + (\<Sum>(Ki, xi, yi)\<leftarrow>kxy. (Ki * xi / yi - 1) * (Ki * xi / yi - 1))" for kxy acc
  proof (induction kxy arbitrary: acc)
    case Nil
    then show ?case by simp
  next
    case (Cons a kxy)
    obtain Ki xi yi where a: "a = (Ki, xi, yi)" by (cases a)
    from Cons.prems have "yi \<noteq> 0"
      by (auto simp: a py_div_def split: if_splits)
    with Cons.prems have "for_each kxy (\<lambda>(Ki, xi, yi) err3. bind_err (py_div (Ki * xi) yi) (\<lambda>q.
          let err_i = q - 1 in Inr (err3 + err_i * err_i)))
          (acc + (Ki * xi / yi - 1) * (Ki * xi / yi - 1)) = Inr e"
      by (simp add: a py_div_def Let_def)
    from Cons.IH[OF this] show ?case by (simp add: a)
  qed
  then show "ss_err3 Ks xs ys = Inr e \<Longrightarrow> ?thesis" unfolding ss_err3_def by fastforce
qed

text \<open>
  Claim C2. A call of \<open>sequential_substitution_VL\<close> that returns a result returns it
  from a pass \<open>i < maxiter\<close> whose error \<open>err3\<close> is below \<open>xtol\<close>; and when the last
  pass (\<open>i = maxiter - 1\<close>) ends with an error that is not below \<open>xtol\<close>, the loop
  raises a ValueError instead of returning. Every other outcome of the (total) function
  is an exception.
\<close>

theorem ss_returns_only_converged:
  "(sequential_substitution_VL ext self Ks_initial maxiter xtol near_critical Ks_extra xs ys
      trivial_solution_tol full_alphas = Inr (V', xs', ys', eos_l, eos_g, i, err3) \<longrightarrow>
      err3 < xtol \<and> i < maxiter \<and>
      (\<exists>V0 xs0 ys0. ss_iteration ext self near_critical full_alphas V0 xs0 ys0 =
         Inr (V', xs', ys', err3, eos_l, eos_g))) \<and>
   (Suc i0 = maxiter \<and>
    ss_iteration ext self near_critical full_alphas V0 xs0 ys0 = Inr (V1, xs1, ys1, e1, el, eg) \<and>
    \<not> e1 < xtol \<longrightarrow>
      (\<exists>m. ss_loop ext self maxiter xtol near_critical trivial_solution_tol full_alphas
              (Suc n) i0 V0 xs0 ys0 = Inl (ValueError m)))"
proof (intro conjI impI)
  assume a: "sequential_substitution_VL ext self Ks_initial maxiter xtol near_critical Ks_extra xs ys
      trivial_solution_tol full_alphas = Inr (V', xs', ys', eos_l, eos_g, i, err3)"
  then obtain V xs0 ys0 where
    "ss_loop ext self maxiter xtol near_critical trivial_solution_tol full_alphas maxiter 0 V xs0 ys0 =
       Inr (V', xs', ys', eos_l, eos_g, i, err3)"
    by (auto simp: sequential_substitution_VL_def bind_err_def split: sum.splits prod.splits)
  from ss_loop_success[OF this]
  show "err3 < xtol" "i < maxiter"
    "\<exists>V0 xs0 ys0. ss_iteration ext self near_critical full_alphas V0 xs0 ys0 =
         Inr (V', xs', ys', err3, eos_l, eos_g)"
    by auto
next
  assume "Suc i0 = maxiter \<and>
    ss_iteration ext self near_critical full_alphas V0 xs0 ys0 = Inr (V1, xs1, ys1, e1, el, eg) \<and>
    \<not> e1 < xtol"
  then show "\<exists>m. ss_loop ext self maxiter xtol near_critical trivial_solution_tol full_alphas
              (Suc n) i0 V0 xs0 ys0 = Inl (ValueError m)"
    by auto
qed

lemma ex_fast:
  "to_TP_zs_fast ex_ext ex_eos 115 P zs only_l only_g full_alphas =
     Inr (ex_trial_eos zs\<lparr>self_P := P\<rparr>)"
  "to_TP_zs_fast ex_ext_trivial ex_eos 115 P zs only_l only_g full_alphas =
     Inr (ex_trial_eos zs\<lparr>self_P := P\<rparr>)"
  "to_TP_zs_fast ex_ext_negative ex_eos 115 P zs only_l only_g full_alphas =
     Inr (ex_trial_eos zs\<lparr>self_P := P\<rparr>)"
  by (simp_all add: to_TP_zs_fast_def ex_ext_trivial_def ex_ext_negative_def ex_ext_def ex_eos_def
      ex_trial_eos_def Let_def getattr_def)

lemma ex_trial_P [simp]: "ex_trial_eos zs\<lparr>self_P := 1000000\<rparr> = ex_trial_eos zs"
  by (simp add: ex_trial_eos_def ex_eos_def)

lemma ex_eos_TP [simp]: "self_T ex_eos = 115" "self_P ex_eos = 10 ^ 6"
  by (simp_all add: ex_eos_def)

lemma ex_trial_Z [simp]:
  "self_Z_l (ex_trial_eos zs) = Some (1 / 10)" "self_Z_g (ex_trial_eos zs) = Some (9 / 10)"
  by (simp_all add: ex_trial_eos_def ex_eos_def)

lemma ex_ext_sel:
  "flash_inner_loop ex_ext zs Ks guess = Inr (1 / 2, [2 / 5, 3 / 5], [3 / 5, 2 / 5])"
  "fugacity_coefficients ex_ext e Z zs =
     (if Z = 1 / 10 then Inr [ln (3 / 2), ln (2 / 3)] else Inr [0, 0], e)"
  "fugacity_coefficients ex_ext_negative = fugacity_coefficients ex_ext"
  "flash_inner_loop ex_ext_negative zs Ks guess = Inr (1 / 2, [- 1 / 4, 3 / 4], [3 / 5, 2 / 5])"
  "flash_inner_loop ex_ext_trivial zs Ks guess =
     Inr (1 / 2, [1 / 2, 1 / 2], [500001 / 10 ^ 6, 499999 / 10 ^ 6])"
  "fugacity_coefficients ex_ext_trivial e Z zs =
     (if Z = 1 / 10 then Inr [ln (1000002 / 10 ^ 6), ln (999998 / 10 ^ 6)] else Inr [0, 0], e)"
  by (simp_all add: ex_ext_def ex_ext_negative_def ex_ext_trivial_def)

lemma ex_iteration:
  "ss_iteration ex_ext ex_eos near_critical full_alphas V [2 / 5, 3 / 5] [3 / 5, 2 / 5] =
     Inr (1 / 2, [2 / 5, 3 / 5], [3 / 5, 2 / 5], 0,
          ex_trial_eos [2 / 5, 3 / 5], ex_trial_eos [3 / 5, 2 / 5])"
  by (simp add: ss_iteration_def ex_fast[of "10 ^ 6", simplified] ss_lnphis_g_def ss_lnphis_l_def
      ex_ext_sel abs_renormalize_def ss_err3_def py_div_def Let_def)

lemma ex_iteration_start:
  "ss_iteration ex_ext ex_eos near_critical full_alphas V [1 / 2, 1 / 2] [1 / 2, 1 / 2] =
     Inr (1 / 2, [2 / 5, 3 / 5], [3 / 5, 2 / 5], 13 / 36,
          ex_trial_eos [1 / 2, 1 / 2], ex_trial_eos [1 / 2, 1 / 2])"
  by (simp add: ss_iteration_def ex_fast[of "10 ^ 6", simplified] ss_lnphis_g_def ss_lnphis_l_def
      ex_ext_sel abs_renormalize_def ss_err3_def py_div_def Let_def)

theorem ss_returns_only_converged_witness:
  "sequential_substitution_VL ex_ext ex_eos None 1000 (1 / 10 ^ 13) True None
     (Some [2 / 5, 3 / 5]) (Some [3 / 5, 2 / 5]) (1 / 10 ^ 5) False =
     Inr (1 / 2, [2 / 5, 3 / 5], [3 / 5, 2 / 5],
          ex_trial_eos [2 / 5, 3 / 5], ex_trial_eos [3 / 5, 2 / 5], 0, 0) \<and>
   (0 :: real) < 1 / 10 ^ 13 \<and> (0 :: nat) < 1000 \<and>
   ss_iteration ex_ext ex_eos True False None [1 / 2, 1 / 2] [1 / 2, 1 / 2] =
     Inr (1 / 2, [2 / 5, 3 / 5], [3 / 5, 2 / 5], 13 / 36,
          ex_trial_eos [1 / 2, 1 / 2], ex_trial_eos [1 / 2, 1 / 2]) \<and>
   \<not> (13 / 36 :: real) < 1 / 10 ^ 13 \<and>
   sequential_substitution_VL ex_ext ex_eos None 1 (1 / 10 ^ 13) True None
     (Some [1 / 2, 1 / 2]) (Some [1 / 2, 1 / 2]) (1 / 10 ^ 5) False =
     Inl (ValueError ''End of SS without convergence'')"
proof -
  have a: "sequential_substitution_VL ex_ext ex_eos None 1000 (1 / 10 ^ 13) True None
     (Some [2 / 5, 3 / 5]) (Some [3 / 5, 2 / 5]) (1 / 10 ^ 5) False =
     Inr (1 / 2, [2 / 5, 3 / 5], [3 / 5, 2 / 5],
          ex_trial_eos [2 / 5, 3 / 5], ex_trial_eos [3 / 5, 2 / 5], 0, 0)"
    by (simp add: sequential_substitution_VL_def ss_initial_def ss_loop_numeral ex_iteration
        comp_difference_def)
  have b: "sequential_substitution_VL ex_ext ex_eos None 1 (1 / 10 ^ 13) True None
     (Some [1 / 2, 1 / 2]) (Some [1 / 2, 1 / 2]) (1 / 10 ^ 5) False =
     Inl (ValueError ''End of SS without convergence'')"
    by (simp add: sequential_substitution_VL_def ss_initial_def ex_iteration_start
        comp_difference_def)
  note t = ss_returns_only_converged[of ex_ext ex_eos None 1000 "1 / 10 ^ 13" True None
      "Some [2 / 5, 3 / 5]" "Some [3 / 5, 2 / 5]" "1 / 10 ^ 5" False "1 / 2" "[2 / 5, 3 / 5]"
      "[3 / 5, 2 / 5]" "ex_trial_eos [2 / 5, 3 / 5]" "ex_trial_eos [3 / 5, 2 / 5]" 0 0]
  have d: "(0 :: real) < 1 / 10 ^ 13 \<and> (0 :: nat) < 1000"
    using t[THEN conjunct1, THEN mp, OF a] by (elim conjE) (rule conjI)
  have c1: "ss_iteration ex_ext ex_eos True False None [1 / 2, 1 / 2] [1 / 2, 1 / 2] =
      Inr (1 / 2, [2 / 5, 3 / 5], [3 / 5, 2 / 5], 13 / 36,
           ex_trial_eos [1 / 2, 1 / 2], ex_trial_eos [1 / 2, 1 / 2])"
    by (rule ex_iteration_start)
  have c2: "\<not> (13 / 36 :: real) < 1 / 10 ^ 13" by simp
  show ?thesis
    by (intro conjI a b c1 c2 d[THEN conjunct1] d[THEN conjunct2])
qed

text \<open>
  Claim C4, as the code has it. In any pass of the loop whose new compositions have
  \<open>sum |x_i - y_i|\<close> below \<open>trivial_solution_tol\<close>, the call fails with the
  ValueError "Converged to trivial condition, compositions of both phases equal",
  provided \<open>near_critical\<close> is set (the default). With \<open>near_critical\<close> unset the
  comparison is not made, and a pass whose error is below \<open>xtol\<close> returns its result.
\<close>

theorem trivial_guard:
  assumes "ss_iteration ext self near_critical full_alphas V_over_F xs ys =
             Inr (V', xs', ys', err3, eos_l, eos_g)"
  shows "(near_critical \<and> comp_difference xs' ys' < trivial_solution_tol \<longrightarrow>
           ss_loop ext self maxiter xtol near_critical trivial_solution_tol full_alphas
             (Suc n) i V_over_F xs ys =
           Inl (ValueError ''Converged to trivial condition, compositions of both phases equal'')) \<and>
         (\<not> near_critical \<and> err3 < xtol \<longrightarrow>
           ss_loop ext self maxiter xtol near_critical trivial_solution_tol full_alphas
             (Suc n) i V_over_F xs ys = Inr (V', xs', ys', eos_l, eos_g, i, err3)) \<and>
         comp_difference xs' ys' = (\<Sum>(xi, yi)\<leftarrow>zip xs' ys'. \<bar>xi - yi\<bar>)"
  using assms by (cases near_critical) (simp_all add: comp_difference_def)

lemma ex_iteration_trivial:
  "ss_iteration ex_ext_trivial ex_eos near_critical full_alphas V
     [1 / 2, 1 / 2] [500001 / 10 ^ 6, 499999 / 10 ^ 6] =
     Inr (1 / 2, [1 / 2, 1 / 2], [500001 / 10 ^ 6, 499999 / 10 ^ 6], 0,
          ex_trial_eos [1 / 2, 1 / 2], ex_trial_eos [500001 / 10 ^ 6, 499999 / 10 ^ 6])"
  by (simp add: ss_iteration_def ex_fast[of "10 ^ 6", simplified] ss_lnphis_g_def ss_lnphis_l_def
      ex_ext_sel abs_renormalize_def ss_err3_def py_div_def Let_def)

theorem trivial_guard_witness:
  "ss_iteration ex_ext_trivial ex_eos True False None
     [1 / 2, 1 / 2] [500001 / 10 ^ 6, 499999 / 10 ^ 6] =
     Inr (1 / 2, [1 / 2, 1 / 2], [500001 / 10 ^ 6, 499999 / 10 ^ 6], 0,
          ex_trial_eos [1 / 2, 1 / 2], ex_trial_eos [500001 / 10 ^ 6, 499999 / 10 ^ 6]) \<and>
   comp_difference [1 / 2, 1 / 2] [500001 / 10 ^ 6, 499999 / 10 ^ 6] < (1 / 10 ^ 5 :: real) \<and>
   ss_loop ex_ext_trivial ex_eos 1000 (1 / 10 ^ 13) True (1 / 10 ^ 5) False (Suc 999) 0 None
     [1 / 2, 1 / 2] [500001 / 10 ^ 6, 499999 / 10 ^ 6] =
     Inl (ValueError ''Converged to trivial condition, compositions of both phases equal'')"
proof -
  have c: "comp_difference [1 / 2, 1 / 2] [500001 / 10 ^ 6, 499999 / 10 ^ 6] < (1 / 10 ^ 5 :: real)"
    by (simp add: comp_difference_def)
  from trivial_guard[OF ex_iteration_trivial[of True False None], of "1 / 10 ^ 5" 1000 "1 / 10 ^ 13" 999 0] c
  show ?thesis using ex_iteration_trivial[of True False None] by blast
qed

text \<open>
  Claim C4 as stated has the guard in every call. With \<open>near_critical=False\<close> the call
  returns a two-phase result whose compositions differ by 2e-6 in sum, below the
  tolerance 1e-5.
\<close>

theorem trivial_guard_off_counterexample:
  "sequential_substitution_VL ex_ext_trivial ex_eos None 1000 (1 / 10 ^ 13) False None
     (Some [1 / 2, 1 / 2]) (Some [500001 / 10 ^ 6, 499999 / 10 ^ 6]) (1 / 10 ^ 5) False =
     Inr (1 / 2, [1 / 2, 1 / 2], [500001 / 10 ^ 6, 499999 / 10 ^ 6],
          ex_trial_eos [1 / 2, 1 / 2], ex_trial_eos [500001 / 10 ^ 6, 499999 / 10 ^ 6], 0, 0) \<and>
   comp_difference [1 / 2, 1 / 2] [500001 / 10 ^ 6, 499999 / 10 ^ 6] < (1 / 10 ^ 5 :: real)"
  by (simp add: sequential_substitution_VL_def ss_initial_def ss_loop_numeral
      ex_iteration_trivial[simplified] comp_difference_def)

lemma abs_renormalize_negative:
  assumes "\<exists>x\<in>set xs. x < 0"
  shows "abs_renormalize xs = map (\<lambda>i. \<bar>i\<bar> / sum_list (map abs xs)) xs"
    and "sum_list (abs_renormalize xs) = 1"
    and "\<forall>x\<in>set (abs_renormalize xs). 0 \<le> x"
proof -
  show a: "abs_renormalize xs = map (\<lambda>i. \<bar>i\<bar> / sum_list (map abs xs)) xs"
    using assms by (simp add: abs_renormalize_def Let_def)
  from assms obtain x where x: "x \<in> set xs" "x < 0" by blast
  have "\<bar>x\<bar> \<le> sum_list (map abs xs)"
    using x(1) by (intro member_le_sum_list) auto
  with x have pos: "0 < sum_list (map abs xs)" by linarith
  have "sum_list (map (\<lambda>i. \<bar>i\<bar> * (1 / sum_list (map abs xs))) xs) =
        sum_list (map abs xs) * (1 / sum_list (map abs xs))"
    by (rule sum_list_mult_const)
  then show "sum_list (abs_renormalize xs) = 1" using pos a by simp
  show "\<forall>x\<in>set (abs_renormalize xs). 0 \<le> x" using pos a by auto
qed

text \<open>
  Claim C7. When the Rachford-Rice solver of a pass returns \<open>xs_new\<close> and \<open>ys_new\<close>,
  the pass continues with \<open>abs_renormalize xs_new\<close> and \<open>abs_renormalize ys_new\<close> and
  raises nothing for a negative entry; a vector with a negative entry is replaced by the
  absolute values of its entries divided by their sum, which sums to 1 and has no
  negative entry, and a vector without one is kept.
\<close>

theorem negative_fractions_renormalized:
  assumes "to_TP_zs_fast ext self (self_T self) (self_P self) ys False True full_alphas = Inr eos_g0"
    and "to_TP_zs_fast ext self (self_T self) (self_P self) xs True False full_alphas = Inr eos_l0"
    and "ss_lnphis_g ext near_critical eos_g0 ys = (Inr lnphis_g, eos_g)"
    and "ss_lnphis_l ext near_critical eos_l0 xs = (Inr lnphis_l, eos_l)"
    and "Ks = map (\<lambda>(l, g). exp (l - g)) (zip lnphis_l lnphis_g)"
    and "flash_inner_loop ext (self_zs self) Ks V_over_F = Inr (V', xs_new, ys_new)"
    and "ss_err3 Ks xs ys = Inr err3"
  shows "ss_iteration ext self near_critical full_alphas V_over_F xs ys =
           Inr (V', abs_renormalize xs_new, abs_renormalize ys_new, err3, eos_l, eos_g) \<and>
         (\<forall>v. (\<exists>x\<in>set v. x < 0) \<longrightarrow>
            abs_renormalize v = map (\<lambda>i. \<bar>i\<bar> / sum_list (map abs v)) v \<and>
            sum_list (abs_renormalize v) = 1 \<and> (\<forall>x\<in>set (abs_renormalize v). 0 \<le> x)) \<and>
         (\<forall>v. \<not> (\<exists>x\<in>set v. x < 0) \<longrightarrow> abs_renormalize v = v)"
proof -
  have "ss_iteration ext self near_critical full_alphas V_over_F xs ys =
           Inr (V', abs_renormalize xs_new, abs_renormalize ys_new, err3, eos_l, eos_g)"
    using assms by (simp add: ss_iteration_def Let_def)
  moreover have "\<forall>v. \<not> (\<exists>x\<in>set v. x < 0) \<longrightarrow> abs_renormalize v = v"
    by (simp add: abs_renormalize_def)
  ultimately show ?thesis using abs_renormalize_negative by blast
qed

theorem negative_fractions_renormalized_witness:
  "flash_inner_loop ex_ext_negative (self_zs ex_eos) [3 / 2, 2 / 3] None =
     Inr (1 / 2, [- 1 / 4, 3 / 4], [3 / 5, 2 / 5]) \<and>
   ss_iteration ex_ext_negative ex_eos True False None [2 / 5, 3 / 5] [3 / 5, 2 / 5] =
     Inr (1 / 2, [1 / 4, 3 / 4], [3 / 5, 2 / 5], 0,
          ex_trial_eos [2 / 5, 3 / 5], ex_trial_eos [3 / 5, 2 / 5])"
proof -
  have g: "to_TP_zs_fast ex_ext_negative ex_eos (self_T ex_eos) (self_P ex_eos) [3 / 5, 2 / 5]
             False True False = Inr (ex_trial_eos [3 / 5, 2 / 5])"
    and l: "to_TP_zs_fast ex_ext_negative ex_eos (self_T ex_eos) (self_P ex_eos) [2 / 5, 3 / 5]
             True False False = Inr (ex_trial_eos [2 / 5, 3 / 5])"
    by (simp_all add: ex_fast)
  have pg: "ss_lnphis_g ex_ext_negative True (ex_trial_eos [3 / 5, 2 / 5]) [3 / 5, 2 / 5] =
              (Inr [0, 0], ex_trial_eos [3 / 5, 2 / 5])"
    and pl: "ss_lnphis_l ex_ext_negative True (ex_trial_eos [2 / 5, 3 / 5]) [2 / 5, 3 / 5] =
              (Inr [ln (3 / 2), ln (2 / 3)], ex_trial_eos [2 / 5, 3 / 5])"
    by (simp_all add: ss_lnphis_g_def ss_lnphis_l_def ex_ext_sel)
  have k: "[3 / 2, 2 / 3 :: real] = map (\<lambda>(l, g). exp (l - g)) (zip [ln (3 / 2), ln (2 / 3)] [0, 0])"
    by simp
  have f: "flash_inner_loop ex_ext_negative (self_zs ex_eos) [3 / 2, 2 / 3] None =
     Inr (1 / 2, [- 1 / 4, 3 / 4], [3 / 5, 2 / 5])"
    by (simp add: ex_ext_sel)
  have e: "ss_err3 [3 / 2, 2 / 3] [2 / 5, 3 / 5] [3 / 5, 2 / 5] = Inr 0"
    by (simp add: ss_err3_def py_div_def)
  have r: "abs_renormalize [- 1 / 4, 3 / 4 :: real] = [1 / 4, 3 / 4]"
      "abs_renormalize [3 / 5, 2 / 5 :: real] = [3 / 5, 2 / 5]"
    by (simp_all add: abs_renormalize_def)
  from negative_fractions_renormalized[OF g l pg pl k f e] f show ?thesis
    by (simp only: r simp_thms)
qed

subsection \<open>Fugacity coefficients: claim C5\<close>

lemma map_err_error:
  "map_err f xs = Inl e \<Longrightarrow> \<exists>x\<in>set xs. f x = Inl e"
  by (induction xs) (auto simp: bind_err_def split: sum.splits)

lemma map_err_total:
  "(\<And>x. x \<in> set xs \<Longrightarrow> \<exists>y. f x = Inr y) \<Longrightarrow> \<exists>ys. map_err f xs = Inr ys \<and> length ys = length xs"
proof (induction xs)
  case Nil
  then show ?case by simp
next
  case (Cons a xs)
  then obtain y ys where "f a = Inr y" "map_err f xs = Inr ys" "length ys = length xs"
    by (meson list.set_intros)
  then show ?case by simp
qed

lemma getitem_error: "getitem xs i = Inl e \<Longrightarrow> e = IndexError"
  by (auto simp: getitem_def split: if_splits)

lemma getattr_error: "getattr a = Inl e \<Longrightarrow> e = AttributeError"
  by (auto simp: getattr_def split: option.splits)

lemma py_div_error: "py_div a b = Inl e \<Longrightarrow> e = ZeroDivisionError"
  by (auto simp: py_div_def split: if_splits)

lemma fugacity_sum_terms_inner_error:
  "fugacity_sum_terms_inner zs l i j t = Inl e \<Longrightarrow> e = IndexError"
  by (auto simp: fugacity_sum_terms_inner_def bind_err_def Let_def getitem_def split: sum.splits if_splits)

lemma fugacity_sum_terms_outer_error:
  "fugacity_sum_terms_outer zs m i t = Inl e \<Longrightarrow> e = IndexError"
  unfolding fugacity_sum_terms_outer_def
  by (auto simp: bind_err_def split: sum.splits
      dest!: getitem_error for_each_error fugacity_sum_terms_inner_error)

lemma fugacity_sum_terms_property_error:
  "fst (fugacity_sum_terms_property self) = Inl e \<Longrightarrow> e = IndexError \<or> e = AttributeError"
  unfolding fugacity_sum_terms_property_def
  by (auto simp: bind_err_def split: sum.splits option.splits
      dest!: getattr_error for_each_error fugacity_sum_terms_outer_error)

lemma PRMIX_lnphis_error:
  assumes "fst (PRMIX_lnphis self Z a_alpha b two_root_two_B x0 x4) = Inl e"
  shows "e = IndexError \<or> e = AttributeError \<or> e = ZeroDivisionError"
proof (cases "fugacity_sum_terms_property self")
  case (Pair r self')
  show ?thesis
  proof (cases r)
    case (Inl e')
    with Pair assms have "e' = e" by (simp add: PRMIX_lnphis_def)
    with fugacity_sum_terms_property_error[of self e'] Pair Inl show ?thesis by auto
  next
    case (Inr t)
    with Pair assms show ?thesis
      by (auto simp: PRMIX_lnphis_def Let_def bind_err_def split: if_splits sum.splits
          dest!: py_div_error map_err_error getitem_error)
  qed
qed

lemma PRMIX_no_ValueError:
  "fst (PRMIX_fugacity_coefficients R self Z zs) \<noteq> Inl (ValueError m)"
proof
  assume a: "fst (PRMIX_fugacity_coefficients R self Z zs) = Inl (ValueError m)"
  then consider
      (attr) "getattr (self_a_alpha self) = Inl (ValueError m)"
    | (T) "py_div 1 (self_T self) = Inl (ValueError m)"
    | (b) "getattr (self_b self) = Inl (ValueError m)"
    | (q) x y where "py_div x y = Inl (ValueError m)"
    | (rest) a_alpha b t x0 x4 where
        "fst (PRMIX_lnphis self Z a_alpha b t x0 x4) = Inl (ValueError m)"
    unfolding PRMIX_fugacity_coefficients_def Let_def
    by (auto split: sum.splits)
  then show False
    by cases (auto dest: getattr_error py_div_error PRMIX_lnphis_error)
qed

text \<open>
  Claim C5, as the code has it. In \<open>PRMIX.fugacity_coefficients\<close> (with \<open>a_alpha\<close> and
  \<open>b\<close> present, \<open>T\<close> non-zero and \<open>Z + B\<close> different from \<open>sqrt 2 * B\<close>) each of the two
  logarithm terms whose argument is not positive is replaced by 0 and the formula goes
  on with it; the method never propagates a ValueError, and with the memoised sum terms
  and \<open>bs\<close> of at least N entries it returns N values. The generic
  \<open>GCEOSMIX.fugacity_coefficients\<close> replaces \<open>log F\<close> for a non-positive \<open>F\<close> by
  -690.7755278982137, not by 0.
\<close>

theorem fugacity_log_domain:
  assumes a: "self_a_alpha self = Some a_alpha" and T: "self_T self \<noteq> 0"
    and b: "self_b self = Some b"
    and B: "B = b * (self_P self * (1 / self_T self)) * (1 / R)"
    and A: "A = a_alpha * (self_P self * (1 / self_T self)) * (1 / R * (1 / R)) * (1 / self_T self)"
    and q: "Z + B - B * sqrt 2 \<noteq> 0"
    and F: "GCEOSMIX_fugacity_F other Z' = Inr F"
  shows "PRMIX_fugacity_coefficients R self Z zs =
           PRMIX_lnphis self Z a_alpha b (B * sqrt 2 + B * sqrt 2)
             (if 0 < Z - B then ln (Z - B) else 0)
             (if 0 < (Z + B + B * sqrt 2) / (Z + B - B * sqrt 2)
              then A * ln ((Z + B + B * sqrt 2) / (Z + B - B * sqrt 2)) else 0) \<and>
         (\<forall>m. fst (PRMIX_fugacity_coefficients R self Z zs) \<noteq> Inl (ValueError m)) \<and>
         (\<forall>t. self_fugacity_sum_terms self = Some t \<and> self_N self \<le> length t \<and>
               self_N self \<le> length (self_bs self) \<longrightarrow>
            (\<exists>lnphis. PRMIX_fugacity_coefficients R self Z zs = (Inr lnphis, self) \<and>
                      length lnphis = self_N self)) \<and>
         GCEOSMIX_fugacity_coefficients dlnphi_dns dns_to_dn_partials other Z' zs' =
           bind_err (dlnphi_dns other Z' zs') (\<lambda>dns.
             dns_to_dn_partials dns (if 0 < F then ln F else - 6907755278982137 / 10 ^ 13))"
proof -
  let ?t = "B * sqrt 2 + B * sqrt 2"
  let ?x0 = "if 0 < Z - B then ln (Z - B) else 0"
  let ?x4 = "if 0 < (Z + B + B * sqrt 2) / (Z + B - B * sqrt 2)
              then A * ln ((Z + B + B * sqrt 2) / (Z + B - B * sqrt 2)) else 0"
  have ga: "getattr (self_a_alpha self) = Inr a_alpha" and gb: "getattr (self_b self) = Inr b"
    using a b by (simp_all add: getattr_def)
  have d1: "py_div 1 (self_T self) = Inr (1 / self_T self)"
    using T by (simp add: py_div_def)
  have d2: "py_div (Z + B + B * sqrt 2) (Z + B - B * sqrt 2) =
              Inr ((Z + B + B * sqrt 2) / (Z + B - B * sqrt 2))"
    using q by (simp add: py_div_def)
  have l1: "(case py_log (Z - B) of Inr v \<Rightarrow> v | Inl e \<Rightarrow> 0) = ?x0"
    by (simp add: py_log_def)
  have l2: "(case py_log ((Z + B + B * sqrt 2) / (Z + B - B * sqrt 2)) of
               Inr v \<Rightarrow> A * v | Inl e \<Rightarrow> 0) = ?x4"
    by (simp add: py_log_def)
  have eq: "PRMIX_fugacity_coefficients R self Z zs = PRMIX_lnphis self Z a_alpha b ?t ?x0 ?x4"
    unfolding PRMIX_fugacity_coefficients_def Let_def
    by (simp only: ga gb d1 sum.case B[symmetric] A[symmetric] d2 l1 l2)
  have total: "\<exists>lnphis. PRMIX_fugacity_coefficients R self Z zs = (Inr lnphis, self) \<and>
                      length lnphis = self_N self"
    if t: "self_fugacity_sum_terms self = Some t" "self_N self \<le> length t"
          "self_N self \<le> length (self_bs self)" for t
  proof (cases "a_alpha * ?t = 0")
    case True
    then show ?thesis
      by (simp add: eq PRMIX_lnphis_def fugacity_sum_terms_property_def t(1))
  next
    case False
    then have "B \<noteq> 0" by auto
    then have "b \<noteq> 0" using B by auto
    then have nz: "b * ?t \<noteq> 0" using False by auto
    define t51 where "t51 = (?x4 + (Z - 1) * ?t) / (b * ?t)"
    define t50 where "t50 = 2 * ?x4 / (a_alpha * ?t)"
    have "\<exists>ys. map_err (\<lambda>i. bind_err (getitem (self_bs self) i) (\<lambda>bi.
                     bind_err (getitem t i) (\<lambda>fi. Inr (bi * t51 - ?x0 - t50 * fi))))
                 [0..<self_N self] = Inr ys \<and> length ys = length [0..<self_N self]"
      by (rule map_err_total) (use t in \<open>auto simp: getitem_def\<close>)
    then show ?thesis
      using False nz
      by (auto simp: eq PRMIX_lnphis_def fugacity_sum_terms_property_def t(1) py_div_def Let_def
          t51_def t50_def)
  qed
  have gen: "GCEOSMIX_fugacity_coefficients dlnphi_dns dns_to_dn_partials other Z' zs' =
           bind_err (dlnphi_dns other Z' zs') (\<lambda>dns.
             dns_to_dn_partials dns (if 0 < F then ln F else - 6907755278982137 / 10 ^ 13))"
    using F by (simp add: GCEOSMIX_fugacity_coefficients_def py_log_def Let_def)
  show ?thesis
    using eq total gen PRMIX_no_ValueError by blast
qed


lemma sqrt_2_gt: "101 / 100 < sqrt 2"
  by (rule real_less_rsqrt) (simp add: power2_eq_square)

theorem fugacity_log_domain_witness:
  "self_a_alpha ex_pr_eos = Some 4 \<and> self_T ex_pr_eos \<noteq> 0 \<and> self_b ex_pr_eos = Some (1 / 100) \<and>
   \<not> (0 :: real) < 1 / 10 - 10 \<and>
   \<not> 0 < (1 / 10 + 10 + 10 * sqrt 2) / (1 / 10 + 10 - 10 * sqrt 2) \<and>
   PRMIX_fugacity_coefficients (83144598 / 10 ^ 7) ex_pr_eos (1 / 10) [1 / 2, 1 / 2] =
     (Inr [- 9 / 10, - 9 / 10], ex_pr_eos) \<and>
   GCEOSMIX_fugacity_F (ex_eos\<lparr>self_phi_g := Some (- 1)\<rparr>) (9 / 10) = Inr (- 1) \<and>
   GCEOSMIX_fugacity_coefficients ex_dlnphi_dns ex_dns_to_dn_partials
     (ex_eos\<lparr>self_phi_g := Some (- 1)\<rparr>) (9 / 10) [1 / 2, 1 / 2] =
     Inr [- 6907755278982137 / 10 ^ 13, - 6907755278982137 / 10 ^ 13]"
proof -
  have a: "self_a_alpha ex_pr_eos = Some 4" and T: "self_T ex_pr_eos \<noteq> 0"
    and b: "self_b ex_pr_eos = Some (1 / 100)"
    by (simp_all add: ex_pr_eos_def ex_eos_def)
  have B: "(10 :: real) = 1 / 100 * (self_P ex_pr_eos * (1 / self_T ex_pr_eos)) * (1 / (83144598 / 10 ^ 7))"
    by (simp add: ex_pr_eos_def ex_eos_def)
  define A :: real where
    "A = 4 * (self_P ex_pr_eos * (1 / self_T ex_pr_eos)) *
           (1 / (83144598 / 10 ^ 7) * (1 / (83144598 / 10 ^ 7))) * (1 / self_T ex_pr_eos)"
  have den: "1 / 10 + 10 - 10 * sqrt 2 < 0" using sqrt_2_gt by simp
  then have q: "1 / 10 + 10 - 10 * sqrt 2 \<noteq> 0" by simp
  have num: "0 < 1 / 10 + 10 + 10 * sqrt 2" by (simp add: add_pos_nonneg)
  have neg: "\<not> 0 < (1 / 10 + 10 + 10 * sqrt 2) / (1 / 10 + 10 - 10 * sqrt 2)"
    using divide_pos_neg[OF num den] by simp
  have x0: "\<not> (0 :: real) < 1 / 10 - 10" by simp
  have F: "GCEOSMIX_fugacity_F (ex_eos\<lparr>self_phi_g := Some (- 1)\<rparr>) (9 / 10) = Inr (- 1)"
    by (simp add: GCEOSMIX_fugacity_F_def ex_eos_def getattr_def)
  note t = fugacity_log_domain[OF a T b B A_def q F, of "[1 / 2, 1 / 2]" ex_dlnphi_dns
      ex_dns_to_dn_partials "[1 / 2, 1 / 2]"]
  have l: "PRMIX_lnphis ex_pr_eos (1 / 10) 4 (1 / 100) (10 * sqrt 2 + 10 * sqrt 2) 0 0 =
        (Inr [- 9 / 10, - 9 / 10], ex_pr_eos)"
    by (simp add: PRMIX_lnphis_def fugacity_sum_terms_property_def ex_pr_eos_def ex_eos_def
        py_div_def getitem_def upt_conv_Cons Let_def)
  have p: "PRMIX_fugacity_coefficients (83144598 / 10 ^ 7) ex_pr_eos (1 / 10) [1 / 2, 1 / 2] =
     (Inr [- 9 / 10, - 9 / 10], ex_pr_eos)"
    using t[THEN conjunct1] by (simp only: x0 neg if_False l)
  have g: "GCEOSMIX_fugacity_coefficients ex_dlnphi_dns ex_dns_to_dn_partials
     (ex_eos\<lparr>self_phi_g := Some (- 1)\<rparr>) (9 / 10) [1 / 2, 1 / 2] =
     Inr [- 6907755278982137 / 10 ^ 13, - 6907755278982137 / 10 ^ 13]"
    using t[THEN conjunct2, THEN conjunct2, THEN conjunct2]
    by (simp add: ex_dlnphi_dns_def ex_dns_to_dn_partials_def)
  show ?thesis by (intro conjI a T b x0 neg p F g)
qed

text \<open>
  Claim C5 as stated has zero substituted in both methods. In the generic method a
  non-positive \<open>F\<close> gives -690.7755278982137 for \<open>log F\<close>: the result differs from the
  one with 0 in its place.
\<close>

theorem generic_log_sentinel_counterexample:
  "GCEOSMIX_fugacity_coefficients ex_dlnphi_dns ex_dns_to_dn_partials
     (ex_eos\<lparr>self_phi_g := Some (- 1)\<rparr>) (9 / 10) [1 / 2, 1 / 2] =
     Inr [- 6907755278982137 / 10 ^ 13, - 6907755278982137 / 10 ^ 13] \<and>
   GCEOSMIX_fugacity_coefficients ex_dlnphi_dns ex_dns_to_dn_partials
     (ex_eos\<lparr>self_phi_g := Some (- 1)\<rparr>) (9 / 10) [1 / 2, 1 / 2] \<noteq>
     ex_dns_to_dn_partials [0, 0] 0"
  by (simp add: GCEOSMIX_fugacity_coefficients_def GCEOSMIX_fugacity_F_def ex_eos_def getattr_def
      py_log_def ex_dlnphi_dns_def ex_dns_to_dn_partials_def Let_def)

subsection \<open>The cache of the pairwise matrices\<close>

text \<open>The method \<open>a_alpha_and_derivatives_py\<close> in terms of the cache read as one value.\<close>

lemma a_alpha_py_matrices_eq:
  "a_alpha_py_matrices self a_alphas T quick =
     (if quick \<and> T = self_T self \<and> cache_of self \<noteq> None then (Inr (the (cache_of self)), self)
      else case recompute_matrices quick a_alphas (self_kijs self) of
             Inr c \<Rightarrow> (Inr c, if quick \<or> T = self_T self then store_cache c self else self)
           | Inl e \<Rightarrow> (Inl e, self))"
  by (auto simp: a_alpha_py_matrices_def recompute_matrices_def cache_of_def store_cache_def Let_def
      split: sum.splits option.splits py_error.splits bool.splits)

lemma for_each_preserves:
  assumes "for_each xs body s = Inr s'" and "P s"
    and "\<And>x s s'. x \<in> set xs \<Longrightarrow> P s \<Longrightarrow> body x s = Inr s' \<Longrightarrow> P s'"
  shows "P s'"
  using assms
proof (induction xs arbitrary: s)
  case Nil
  then show ?case by simp
next
  case (Cons x xs)
  from Cons.prems(1) obtain s1 where s1: "body x s = Inr s1" "for_each xs body s1 = Inr s'"
    by (auto split: sum.splits)
  have "P s1" using Cons.prems(2,3) s1(1) by auto
  then show ?case using Cons.IH[OF s1(2)] Cons.prems(3) by auto
qed

lemma aijs_inner_square:
  "aijs_inner r k i j s = Inr s' \<Longrightarrow> square N (fst s) \<Longrightarrow> square N (fst s')"
  "aijs_inner_support_zeros r k i j s = Inr s' \<Longrightarrow> square N (fst s) \<Longrightarrow> square N (fst s')"
  by (auto simp: aijs_inner_def aijs_inner_support_zeros_def Let_def bind_err_def
      split: if_splits sum.splits)

lemma plain_square:
  assumes "a_alpha_aijs_composition_independent a_alphas kijs = Inr c"
  shows "square (length a_alphas) (fst c)"
proof -
  let ?N = "length a_alphas" and ?r = "map sqrt a_alphas"
  let ?body = "\<lambda>i s. bind_err (getitem kijs i) (\<lambda>kijs_i.
                 for_each [i..<?N] (aijs_inner ?r kijs_i i) s)"
  from assms obtain s' where
    s': "for_each [0..<?N] ?body (replicate ?N (replicate ?N 0), replicate ?N (replicate ?N 0)) = Inr s'"
    and c: "c = (fst s', ?r, snd s')"
    by (auto simp: a_alpha_aijs_composition_independent_def Let_def bind_err_def split: sum.splits)
  have "square ?N (fst s')"
  proof (rule for_each_preserves[OF s', where P = "\<lambda>s. square ?N (fst s)"])
    show "square ?N (fst (replicate ?N (replicate ?N (0::real)), replicate ?N (replicate ?N (0::real))))"
      by simp
    fix x s t assume "square ?N (fst s)" and b: "?body x s = Inr t"
    from b obtain k where "for_each [x..<?N] (aijs_inner ?r k x) s = Inr t"
      by (auto simp: bind_err_def split: sum.splits)
    then show "square ?N (fst t)"
      by (rule for_each_preserves) (use \<open>square ?N (fst s)\<close> in \<open>auto intro: aijs_inner_square\<close>)
  qed
  then show ?thesis by (simp add: c)
qed

lemma support_zeros_square:
  assumes "a_alpha_aijs_composition_independent_support_zeros a_alphas kijs = Inr c"
  shows "square (length a_alphas) (fst c)"
proof -
  let ?N = "length a_alphas" and ?r = "map sqrt a_alphas"
  let ?body = "\<lambda>i s. bind_err (getitem kijs i) (\<lambda>kijs_i.
                 for_each [i..<?N] (aijs_inner_support_zeros ?r kijs_i i) s)"
  from assms obtain s' where
    s': "for_each [0..<?N] ?body (replicate ?N (replicate ?N 0), replicate ?N (replicate ?N 0)) = Inr s'"
    and c: "c = (fst s', ?r, snd s')"
    by (auto simp: a_alpha_aijs_composition_independent_support_zeros_def Let_def bind_err_def
        split: sum.splits)
  have "square ?N (fst s')"
  proof (rule for_each_preserves[OF s', where P = "\<lambda>s. square ?N (fst s)"])
    show "square ?N (fst (replicate ?N (replicate ?N (0::real)), replicate ?N (replicate ?N (0::real))))"
      by simp
    fix x s t assume "square ?N (fst s)" and b: "?body x s = Inr t"
    from b obtain k where "for_each [x..<?N] (aijs_inner_support_zeros ?r k x) s = Inr t"
      by (auto simp: bind_err_def split: sum.splits)
    then show "square ?N (fst t)"
      by (rule for_each_preserves) (use \<open>square ?N (fst s)\<close> in \<open>auto intro: aijs_inner_square\<close>)
  qed
  then show ?thesis by (simp add: c)
qed

lemma recompute_square:
  "recompute_matrices quick a_alphas kijs = Inr c \<Longrightarrow> square (length a_alphas) (fst c)"
  by (auto simp: recompute_matrices_def split: sum.splits if_splits
      intro: plain_square support_zeros_square)

lemma full_sum_inner_ok:
  assumes "i \<le> length row" "i \<le> length zrow"
  shows "\<exists>a. for_each [0..<i] (full_sum_inner row zrow) acc = Inr a"
proof -
  have "\<exists>s'. for_each [0..<i] (full_sum_inner row zrow) acc = Inr s' \<and> True"
    by (rule for_each_upt_inv[where I = "\<lambda>_ _. True"])
       (use assms in \<open>auto simp: full_sum_inner_def getitem_simps Let_def\<close>)
  then show ?thesis by simp
qed

lemma full_sum_ok:
  assumes "square N M" "square N zp"
  shows "\<exists>a. for_each [0..<N] (full_sum_outer M zp) 0 = Inr a"
proof -
  have "\<exists>s'. for_each [0..<N] (full_sum_outer M zp) 0 = Inr s' \<and> True"
  proof (rule for_each_upt_inv[where I = "\<lambda>_ _. True"])
    fix k s assume k: "0 \<le> k" "k < N"
    then have len: "k < length M" "k < length zp" "length (M ! k) = N" "length (zp ! k) = N"
      using assms by (auto simp: square_def)
    from full_sum_inner_ok[of k "M ! k" "zp ! k" s] len k obtain a where
      "for_each [0..<k] (full_sum_inner (M ! k) (zp ! k)) s = Inr a" by auto
    then show "\<exists>s'. full_sum_outer M zp k s = Inr s' \<and> True"
      using len k by (simp add: full_sum_outer_def getitem_simps)
  qed simp_all
  then show ?thesis by simp
qed

lemma z_products_square: "z_products_of N zs = Inr zp \<Longrightarrow> square N zp"
  by (auto simp: z_products_of_def square_def split: if_splits)

lemma full_error_any_square:
  assumes e: "a_alpha_and_derivatives_full a das d2as T zs kijs (Some M) (Some r) (Some v) sd = Inl e"
    and sq: "square (length a) M" "square (length a) M'"
  shows "a_alpha_and_derivatives_full a das d2as T zs kijs (Some M') (Some r) (Some v) sd = Inl e"
proof (cases "z_products_of (length a) zs")
  case (Inl x)
  with e show ?thesis by (simp add: a_alpha_and_derivatives_full_def Let_def)
next
  case (Inr zp)
  from full_sum_ok[OF sq(1) z_products_square[OF Inr]] obtain s1 where
    s1: "for_each [0..<length a] (full_sum_outer M zp) 0 = Inr s1" by blast
  from full_sum_ok[OF sq(2) z_products_square[OF Inr]] obtain s2 where
    s2: "for_each [0..<length a] (full_sum_outer M' zp) 0 = Inr s2" by blast
  from e show ?thesis
    by (cases sd)
       (auto simp: a_alpha_and_derivatives_full_def Let_def Inr s1 s2 bind_err_def
        split: sum.splits prod.splits)
qed

lemma full_returns_matrix:
  "a_alpha_and_derivatives_full a das d2as T zs kijs (Some M) (Some r) (Some v) sd =
     Inr (x1, x2, x3, x4, x5, M'') \<Longrightarrow> M'' = M"
  by (auto simp: a_alpha_and_derivatives_full_def Let_def bind_err_def split: sum.splits prod.splits)

lemma a_alpha_returns_matrix:
  "a_alpha_and_derivatives a T zs kijs (Some M) (Some r) (Some v) = Inr (x1, x2, M'') \<Longrightarrow> M'' = M"
  by (auto simp: a_alpha_and_derivatives_def Let_def bind_err_def split: sum.splits)

lemma tail_fields:
  "self_T (snd (a_alpha_py_tail s a das d2as T full c)) = self_T s"
  "self_zs (snd (a_alpha_py_tail s a das d2as T full c)) = self_zs s"
  "self_kijs (snd (a_alpha_py_tail s a das d2as T full c)) = self_kijs s"
  "self_N (snd (a_alpha_py_tail s a das d2as T full c)) = self_N s"
  "self_a_alpha_i_roots (snd (a_alpha_py_tail s a das d2as T full c)) = self_a_alpha_i_roots s"
  "self_a_alpha_ij_roots_inv (snd (a_alpha_py_tail s a das d2as T full c)) =
     self_a_alpha_ij_roots_inv s"
  by (auto simp: a_alpha_py_tail_def split: sum.splits prod.splits)

lemma tail_result_cong:
  assumes "self_zs s = self_zs s'" "self_kijs s = self_kijs s'" "self_N s = self_N s'"
  shows "fst (a_alpha_py_tail s a das d2as T full c) = fst (a_alpha_py_tail s' a das d2as T full c)"
  using assms
  by (auto simp: a_alpha_py_tail_def a_alpha_py_full_def split: sum.splits prod.splits)

lemma tail_ijs:
  assumes ijs: "self_a_alpha_ijs s = Some (fst c)"
    and sq: "square (length a) (fst c)" and len: "length a = self_N s"
  shows "\<exists>M. self_a_alpha_ijs (snd (a_alpha_py_tail s a das d2as T full c)) = Some M \<and>
             fst (a_alpha_py_tail s a das d2as T full (M, snd c)) =
             fst (a_alpha_py_tail s a das d2as T full c)"
proof (cases full)
  case False
  show ?thesis
  proof (cases "a_alpha_and_derivatives a T (self_zs s) (self_kijs s)
                  (Some (fst c)) (Some (fst (snd c))) (Some (snd (snd c)))")
    case (Inl e)
    then show ?thesis using False ijs by (simp add: a_alpha_py_tail_def)
  next
    case (Inr r)
    obtain x1 x2 M where r: "r = (x1, x2, M)" by (cases r)
    have "M = fst c" using Inr r a_alpha_returns_matrix by blast
    then show ?thesis using False Inr r by (simp add: a_alpha_py_tail_def)
  qed
next
  case True
  let ?full = "\<lambda>M. a_alpha_and_derivatives_full a das d2as T (self_zs s) (self_kijs s)
                  (Some M) (Some (fst (snd c))) (Some (snd (snd c))) True"
  show ?thesis
  proof (cases "?full (fst c)")
    case (Inr r)
    obtain x1 x2 x3 x4 x5 M where r: "r = (x1, x2, x3, x4, x5, M)" by (cases r)
    have "M = fst c" using Inr r full_returns_matrix by blast
    then show ?thesis using True Inr r by (simp add: a_alpha_py_tail_def a_alpha_py_full_def)
  next
    case (Inl e)
    show ?thesis
    proof (cases "a_alpha_py_full s a das d2as T c")
      case (Inl e')
      then show ?thesis using True ijs by (simp add: a_alpha_py_tail_def)
    next
      case (Inr r)
      with Inl obtain a0 da0 d2a0 where
        N1: "self_N s = 1" and r: "r = (a0, da0, d2a0, Some [[d2a0]], [[da0]], [[a0]])"
        by (auto simp: a_alpha_py_full_def bind_err_def split: if_splits sum.splits)
      have "square (length a) [[a0]]" using len N1 by (simp add: square_def)
      from full_error_any_square[OF Inl sq this] have "?full [[a0]] = Inl e" .
      then have "a_alpha_py_full s a das d2as T ([[a0]], snd c) = a_alpha_py_full s a das d2as T c"
        using Inl by (simp add: a_alpha_py_full_def)
      then show ?thesis using True Inr r by (simp add: a_alpha_py_tail_def)
    qed
  qed
qed

lemma matrices_fields:
  "self_T (snd (a_alpha_py_matrices s a T quick)) = self_T s"
  "self_zs (snd (a_alpha_py_matrices s a T quick)) = self_zs s"
  "self_kijs (snd (a_alpha_py_matrices s a T quick)) = self_kijs s"
  "self_N (snd (a_alpha_py_matrices s a T quick)) = self_N s"
  by (auto simp: a_alpha_py_matrices_eq store_cache_def split: sum.splits)

lemma py_fields:
  "self_T (snd (a_alpha_and_derivatives_py s a das d2as T full quick)) = self_T s"
  "self_zs (snd (a_alpha_and_derivatives_py s a das d2as T full quick)) = self_zs s"
  "self_kijs (snd (a_alpha_and_derivatives_py s a das d2as T full quick)) = self_kijs s"
  "self_N (snd (a_alpha_and_derivatives_py s a das d2as T full quick)) = self_N s"
  using matrices_fields[of s a T quick]
  by (auto simp: a_alpha_and_derivatives_py_def tail_fields split: prod.splits sum.splits)

lemma py_with_cache:
  assumes c: "cache_of s = Some c" and T: "T = self_T s"
    and sq: "square (length a) (fst c)" and len: "length a = self_N s"
  shows "fst (a_alpha_and_derivatives_py
                (snd (a_alpha_py_tail s a das d2as T full c)) a das d2as T full True) =
         fst (a_alpha_py_tail s a das d2as T full c)"
proof -
  let ?s1 = "snd (a_alpha_py_tail s a das d2as T full c)"
  have ijs: "self_a_alpha_ijs s = Some (fst c)"
    and r: "self_a_alpha_i_roots s = Some (fst (snd c))"
    and v: "self_a_alpha_ij_roots_inv s = Some (snd (snd c))"
    using c by (auto simp: cache_of_def split: option.splits)
  from tail_ijs[OF ijs sq len, of das d2as T full] obtain M where
    M: "self_a_alpha_ijs ?s1 = Some M"
    "fst (a_alpha_py_tail s a das d2as T full (M, snd c)) = fst (a_alpha_py_tail s a das d2as T full c)"
    by blast
  have c1: "cache_of ?s1 = Some (M, snd c)"
    using M(1) r v by (simp add: cache_of_def tail_fields)
  have "a_alpha_py_matrices ?s1 a T True = (Inr (M, snd c), ?s1)"
    using c1 T by (simp add: a_alpha_py_matrices_eq tail_fields)
  then have "fst (a_alpha_and_derivatives_py ?s1 a das d2as T full True) =
             fst (a_alpha_py_tail ?s1 a das d2as T full (M, snd c))"
    by (simp add: a_alpha_and_derivatives_py_def)
  also have "\<dots> = fst (a_alpha_py_tail s a das d2as T full (M, snd c))"
    by (rule tail_result_cong) (simp_all add: tail_fields)
  finally show ?thesis using M(2) by simp
qed

lemma cache_of_store [simp]: "cache_of (store_cache c s) = Some c"
  by (simp add: cache_of_def store_cache_def)

lemma store_fields [simp]:
  "self_T (store_cache c s) = self_T s" "self_zs (store_cache c s) = self_zs s"
  "self_kijs (store_cache c s) = self_kijs s" "self_N (store_cache c s) = self_N s"
  by (simp_all add: store_cache_def)

lemma py_twice:
  assumes len: "length a = self_N s"
    and ok: "\<And>c. cache_of s = Some c \<Longrightarrow> square (length a) (fst c)"
  shows "fst (a_alpha_and_derivatives_py
                (snd (a_alpha_and_derivatives_py s a das d2as T full quick)) a das d2as T full quick) =
         fst (a_alpha_and_derivatives_py s a das d2as T full quick)"
proof (cases "quick \<and> T = self_T s")
  case True
  then have q: "quick" and T: "T = self_T s" by auto
  show ?thesis
  proof (cases "cache_of s")
    case (Some c)
    then have m: "a_alpha_py_matrices s a T True = (Inr c, s)"
      using T by (simp add: a_alpha_py_matrices_eq)
    then have "a_alpha_and_derivatives_py s a das d2as T full True = a_alpha_py_tail s a das d2as T full c"
      by (simp add: a_alpha_and_derivatives_py_def)
    then show ?thesis using py_with_cache[OF Some T ok[OF Some] len] q by simp
  next
    case None
    show ?thesis
    proof (cases "recompute_matrices True a (self_kijs s)")
      case (Inl e)
      then have "a_alpha_and_derivatives_py s a das d2as T full True = (Inl e, s)"
        using None by (simp add: a_alpha_and_derivatives_py_def a_alpha_py_matrices_eq)
      then show ?thesis using q by simp
    next
      case (Inr c)
      let ?s' = "store_cache c s"
      have "a_alpha_and_derivatives_py s a das d2as T full True = a_alpha_py_tail ?s' a das d2as T full c"
        using None Inr by (simp add: a_alpha_and_derivatives_py_def a_alpha_py_matrices_eq)
      moreover have "fst (a_alpha_and_derivatives_py
                (snd (a_alpha_py_tail ?s' a das d2as T full c)) a das d2as T full True) =
         fst (a_alpha_py_tail ?s' a das d2as T full c)"
        by (rule py_with_cache) (use T len recompute_square[OF Inr] in simp_all)
      ultimately show ?thesis using q by simp
    qed
  qed
next
  case False
  let ?s1 = "snd (a_alpha_and_derivatives_py s a das d2as T full quick)"
  have f1: "self_T ?s1 = self_T s" "self_kijs ?s1 = self_kijs s" "self_zs ?s1 = self_zs s"
    "self_N ?s1 = self_N s"
    by (simp_all add: py_fields)
  show ?thesis
  proof (cases "recompute_matrices quick a (self_kijs s)")
    case (Inl e)
    then have "a_alpha_and_derivatives_py s a das d2as T full quick = (Inl e, s)"
      using False by (auto simp: a_alpha_and_derivatives_py_def a_alpha_py_matrices_eq)
    then show ?thesis by simp
  next
    case (Inr c)
    define s' where "s' = snd (a_alpha_py_matrices s a T quick)"
    define s'' where "s'' = snd (a_alpha_py_matrices ?s1 a T quick)"
    have "fst (a_alpha_py_matrices s a T quick) = Inr c"
      using False Inr by (auto simp: a_alpha_py_matrices_eq)
    then have m: "a_alpha_py_matrices s a T quick = (Inr c, s')"
      by (simp add: s'_def prod_eq_iff)
    have s': "self_zs s' = self_zs s" "self_kijs s' = self_kijs s" "self_N s' = self_N s"
      by (simp_all add: s'_def matrices_fields)
    have "fst (a_alpha_py_matrices ?s1 a T quick) = Inr c"
      using False Inr f1 by (auto simp: a_alpha_py_matrices_eq)
    then have m1: "a_alpha_py_matrices ?s1 a T quick = (Inr c, s'')"
      by (simp add: s''_def prod_eq_iff)
    have s'': "self_zs s'' = self_zs s" "self_kijs s'' = self_kijs s" "self_N s'' = self_N s"
      by (simp_all add: s''_def matrices_fields f1)
    have "fst (a_alpha_and_derivatives_py ?s1 a das d2as T full quick) =
          fst (a_alpha_py_tail s'' a das d2as T full c)"
      using m1 by (simp add: a_alpha_and_derivatives_py_def)
    also have "\<dots> = fst (a_alpha_py_tail s' a das d2as T full c)"
      by (rule tail_result_cong) (simp_all add: s' s'')
    also have "\<dots> = fst (a_alpha_and_derivatives_py s a das d2as T full quick)"
      using m by (simp add: a_alpha_and_derivatives_py_def)
    finally show ?thesis .
  qed
qed

lemma ex_cached_cache:
  "cache_of ex_cached_eos = Some ([[9, 9], [9, 9]], [3, 3], [[1 / 9, 1 / 9], [0, 1 / 9]])"
  by (simp add: cache_of_def ex_cached_eos_def)

lemma ex_cached_sel:
  "self_T ex_cached_eos = 115" "self_N ex_cached_eos = 2"
  "self_zs ex_cached_eos = [1 / 2, 1 / 2]" "self_kijs ex_cached_eos = [[0, 0], [0, 0]]"
  by (simp_all add: ex_cached_eos_def ex_eos_def)

lemma ex_plain_9:
  "a_alpha_aijs_composition_independent [9, 9] [[0, 0], [0, 0]] =
     Inr ([[9, 9], [9, 9]], [3, 3], [[1 / 9, 1 / 9], [0, 1 / 9]])"
  by (simp add: a_alpha_aijs_composition_independent_def Let_def bind_err_def getitem_def
      aijs_inner_def set2_def upt_conv_Cons)

lemma ex_plain_4:
  "a_alpha_aijs_composition_independent [4, 4] [[0, 0], [0, 0]] =
     Inr ([[4, 4], [4, 4]], [2, 2], [[1 / 4, 1 / 4], [0, 1 / 4]])"
  by (simp add: a_alpha_aijs_composition_independent_def Let_def bind_err_def getitem_def
      aijs_inner_def set2_def upt_conv_Cons)

text \<open>
  The cache of the instance \<open>ex_cached_eos\<close> is the one that a quick call at T = 200
  with the pure values \<open>[9, 9]\<close> leaves on \<open>ex_eos\<close>.
\<close>

lemma ex_cached_reachable:
  "cache_of (snd (a_alpha_and_derivatives_py ex_eos [9, 9] [0, 0] [0, 0] 200 False True)) =
   cache_of ex_cached_eos"
proof -
  have T: "self_T ex_eos = 115" "self_kijs ex_eos = [[0, 0], [0, 0]]" "self_zs ex_eos = [1 / 2, 1 / 2]"
    by (simp_all add: ex_eos_def)
  have r: "recompute_matrices True [9, 9] [[0, 0], [0, 0]] =
             Inr ([[9, 9], [9, 9]], [3, 3], [[1 / 9, 1 / 9], [0, 1 / 9]])"
    by (simp add: recompute_matrices_def ex_plain_9)
  have m: "a_alpha_py_matrices ex_eos [9, 9] 200 True =
        (Inr ([[9, 9], [9, 9]], [3, 3], [[1 / 9, 1 / 9], [0, 1 / 9]]),
         store_cache ([[9, 9], [9, 9]], [3, 3], [[1 / 9, 1 / 9], [0, 1 / 9]]) ex_eos)"
    by (simp add: a_alpha_py_matrices_eq T r)
  have sq: "square (length [9, 9 :: real]) [[9, 9], [9, 9]]"
    by (simp add: square_def all_less_2)
  have a: "a_alpha_and_derivatives [9, 9] 200 [1 / 2, 1 / 2] [[0, 0], [0, 0]]
             (Some [[9, 9], [9, 9]]) (Some [3, 3]) (Some [[1 / 9, 1 / 9], [0, 1 / 9]]) =
           Inr (9, None, [[9, 9], [9, 9]])"
    by (subst a_alpha_with_matrix[OF sq]) (auto simp: less_Suc_eq lessThan_Suc)
  show ?thesis
    by (simp add: a_alpha_and_derivatives_py_def m a_alpha_py_tail_def T a
        cache_of_def store_cache_def ex_cached_eos_def)
qed

text \<open>
  Claim C8, as the code has it. Let the pure-value vector have the instance's length N
  and let the cached \<open>a_alpha_ijs\<close>, when the three cached attributes are present, be an
  N x N matrix. With \<open>quick\<close> set (the default) and T equal to the instance's T, the
  method takes the three cached quantities as they are, without calling
  \<open>a_alpha_aijs_composition_independent\<close> and without writing the instance, and its
  result is computed from them. Two successive calls with the same arguments on the
  same instance return the same result (value or exception), for every T and for both
  values of \<open>quick\<close> and \<open>full\<close>.
\<close>

theorem cache_reuse:
  assumes len: "length a_alphas = self_N self"
    and ok: "\<forall>c. cache_of self = Some c \<longrightarrow> square (length a_alphas) (fst c)"
  shows "(\<forall>c. cache_of self = Some c \<longrightarrow>
            a_alpha_py_matrices self a_alphas (self_T self) True = (Inr c, self) \<and>
            a_alpha_and_derivatives_py self a_alphas das d2as (self_T self) full True =
              a_alpha_py_tail self a_alphas das d2as (self_T self) full c) \<and>
         fst (a_alpha_and_derivatives_py
                (snd (a_alpha_and_derivatives_py self a_alphas das d2as T full quick))
                a_alphas das d2as T full quick) =
         fst (a_alpha_and_derivatives_py self a_alphas das d2as T full quick)"
proof (intro conjI allI impI)
  fix c assume c: "cache_of self = Some c"
  then show m: "a_alpha_py_matrices self a_alphas (self_T self) True = (Inr c, self)"
    by (simp add: a_alpha_py_matrices_eq)
  then show "a_alpha_and_derivatives_py self a_alphas das d2as (self_T self) full True =
             a_alpha_py_tail self a_alphas das d2as (self_T self) full c"
    by (simp add: a_alpha_and_derivatives_py_def)
next
  show "fst (a_alpha_and_derivatives_py
                (snd (a_alpha_and_derivatives_py self a_alphas das d2as T full quick))
                a_alphas das d2as T full quick) =
         fst (a_alpha_and_derivatives_py self a_alphas das d2as T full quick)"
    by (rule py_twice[OF len]) (use ok in blast)
qed

lemma ex_cached_tail:
  "fst (a_alpha_py_tail ex_cached_eos [4, 4] [0, 0] [0, 0] 115 False
          ([[9, 9], [9, 9]], [3, 3], [[1 / 9, 1 / 9], [0, 1 / 9]])) = Inr (A_alpha_only 9)"
proof -
  have sq: "square (length [4, 4 :: real]) [[9, 9], [9, 9]]"
    by (simp add: square_def all_less_2)
  have a: "a_alpha_and_derivatives [4, 4] 115 [1 / 2, 1 / 2] [[0, 0], [0, 0]]
             (Some [[9, 9], [9, 9]]) (Some [3, 3]) (Some [[1 / 9, 1 / 9], [0, 1 / 9]]) =
           Inr (9, None, [[9, 9], [9, 9]])"
    by (subst a_alpha_with_matrix[OF sq]) (auto simp: less_Suc_eq lessThan_Suc)
  show ?thesis by (simp add: a_alpha_py_tail_def ex_cached_sel a)
qed

theorem cache_reuse_witness:
  "length [4, 4 :: real] = self_N ex_cached_eos \<and>
   a_alpha_py_matrices ex_cached_eos [4, 4] 115 True =
     (Inr ([[9, 9], [9, 9]], [3, 3], [[1 / 9, 1 / 9], [0, 1 / 9]]), ex_cached_eos) \<and>
   fst (a_alpha_and_derivatives_py ex_cached_eos [4, 4] [0, 0] [0, 0] 115 False True) =
     Inr (A_alpha_only 9) \<and>
   fst (a_alpha_and_derivatives_py
          (snd (a_alpha_and_derivatives_py ex_cached_eos [4, 4] [0, 0] [0, 0] 115 False True))
          [4, 4] [0, 0] [0, 0] 115 False True) = Inr (A_alpha_only 9)"
proof -
  let ?c = "([[9, 9], [9, 9]], [3, 3], [[1 / 9, 1 / 9], [0, 1 / 9 :: real]])"
  have h1: "length [4, 4 :: real] = self_N ex_cached_eos" by (simp add: ex_cached_sel)
  have h2: "\<forall>c. cache_of ex_cached_eos = Some c \<longrightarrow> square (length [4, 4 :: real]) (fst c)"
    by (simp add: ex_cached_cache square_def all_less_2)
  note t = cache_reuse[OF h1 h2, of "[0, 0]" "[0, 0]" False 115 True]
  from t have t1: "cache_of ex_cached_eos = Some ?c \<longrightarrow>
      a_alpha_py_matrices ex_cached_eos [4, 4] (self_T ex_cached_eos) True = (Inr ?c, ex_cached_eos) \<and>
      a_alpha_and_derivatives_py ex_cached_eos [4, 4] [0, 0] [0, 0] (self_T ex_cached_eos) False True =
        a_alpha_py_tail ex_cached_eos [4, 4] [0, 0] [0, 0] (self_T ex_cached_eos) False ?c"
    by blast
  from t1 ex_cached_cache have
    a: "a_alpha_py_matrices ex_cached_eos [4, 4] 115 True = (Inr ?c, ex_cached_eos)"
    and b: "a_alpha_and_derivatives_py ex_cached_eos [4, 4] [0, 0] [0, 0] 115 False True =
        a_alpha_py_tail ex_cached_eos [4, 4] [0, 0] [0, 0] 115 False ?c"
    by (simp_all add: ex_cached_sel)
  have c: "fst (a_alpha_and_derivatives_py ex_cached_eos [4, 4] [0, 0] [0, 0] 115 False True) =
     Inr (A_alpha_only 9)"
    by (simp only: b ex_cached_tail)
  from t have d: "fst (a_alpha_and_derivatives_py
          (snd (a_alpha_and_derivatives_py ex_cached_eos [4, 4] [0, 0] [0, 0] 115 False True))
          [4, 4] [0, 0] [0, 0] 115 False True) =
       fst (a_alpha_and_derivatives_py ex_cached_eos [4, 4] [0, 0] [0, 0] 115 False True)"
    by (rule conjunct2)
  show ?thesis
    by (intro conjI) (rule h1, rule a, rule c, simp only: d c)
qed

text \<open>
  Claim C8 as stated covers every recomputation at an unchanged T. With \<open>quick=False\<close>
  the method does not read the cache: at \<open>T = self.T = 115\<close>, with the matrices of the
  pure values \<open>[9, 9]\<close> cached, a call with the pure values \<open>[4, 4]\<close> computes the
  pairwise root products again and returns the value 4 of the new matrices (the cached
  ones give 9).
\<close>

theorem cache_recomputed_counterexample:
  "self_T ex_cached_eos = 115 \<and>
   cache_of ex_cached_eos = Some ([[9, 9], [9, 9]], [3, 3], [[1 / 9, 1 / 9], [0, 1 / 9]]) \<and>
   fst (a_alpha_py_matrices ex_cached_eos [4, 4] 115 False) =
     Inr ([[4, 4], [4, 4]], [2, 2], [[1 / 4, 1 / 4], [0, 1 / 4]]) \<and>
   fst (a_alpha_and_derivatives_py ex_cached_eos [4, 4] [0, 0] [0, 0] 115 False False) =
     Inr (A_alpha_only 4)"
proof -
  let ?c = "([[4, 4], [4, 4]], [2, 2], [[1 / 4, 1 / 4], [0, 1 / 4 :: real]])"
  have r: "recompute_matrices False [4, 4] [[0, 0], [0, 0]] = Inr ?c"
    by (simp add: recompute_matrices_def ex_plain_4)
  have m: "a_alpha_py_matrices ex_cached_eos [4, 4] 115 False = (Inr ?c, store_cache ?c ex_cached_eos)"
    by (simp add: a_alpha_py_matrices_eq ex_cached_sel r)
  have sq: "square (length [4, 4 :: real]) [[4, 4], [4, 4]]"
    by (simp add: square_def all_less_2)
  have a: "a_alpha_and_derivatives [4, 4] 115 [1 / 2, 1 / 2] [[0, 0], [0, 0]]
             (Some [[4, 4], [4, 4]]) (Some [2, 2]) (Some [[1 / 4, 1 / 4], [0, 1 / 4]]) =
           Inr (4, None, [[4, 4], [4, 4]])"
    by (subst a_alpha_with_matrix[OF sq]) (auto simp: less_Suc_eq lessThan_Suc)
  have "fst (a_alpha_and_derivatives_py ex_cached_eos [4, 4] [0, 0] [0, 0] 115 False False) =
     Inr (A_alpha_only 4)"
    by (simp add: a_alpha_and_derivatives_py_def m a_alpha_py_tail_def ex_cached_sel a)
  then show ?thesis by (simp add: ex_cached_sel ex_cached_cache m)
qed

subsection \<open>The mixing rule on the method: claims C1 and C9\<close>

text \<open>
  \<open>a_alpha_aijs_composition_independent\<close> either agrees with its divide-safe variant or
  raises ZeroDivisionError, so the matrices that \<open>a_alpha_and_derivatives_py\<close> recomputes
  are always those of the divide-safe variant.
\<close>

lemma aijs_inner_or_zero_division:
  "aijs_inner r k i j s = aijs_inner_support_zeros r k i j s \<or>
   aijs_inner r k i j s = Inl ZeroDivisionError"
  by (simp add: aijs_inner_def aijs_inner_support_zeros_def Let_def)

lemma for_each_or_error:
  assumes "\<And>x s. x \<in> set xs \<Longrightarrow> f x s = g x s \<or> f x s = Inl e"
  shows "for_each xs f s = for_each xs g s \<or> for_each xs f s = Inl e"
  using assms
proof (induction xs arbitrary: s)
  case Nil
  then show ?case by simp
next
  case (Cons x xs)
  from Cons.prems[of x s] consider "f x s = g x s" | "f x s = Inl e" by auto
  then show ?case
  proof cases
    case 1
    show ?thesis
    proof (cases "g x s")
      case (Inl e')
      then show ?thesis using 1 by simp
    next
      case (Inr s')
      have "for_each xs f s' = for_each xs g s' \<or> for_each xs f s' = Inl e"
        by (rule Cons.IH) (use Cons.prems in auto)
      then show ?thesis using 1 Inr by auto
    qed
  next
    case 2
    then show ?thesis by simp
  qed
qed

lemma plain_or_zero_division:
  "a_alpha_aijs_composition_independent a_alphas kijs =
     a_alpha_aijs_composition_independent_support_zeros a_alphas kijs \<or>
   a_alpha_aijs_composition_independent a_alphas kijs = Inl ZeroDivisionError"
proof -
  let ?N = "length a_alphas" and ?r = "map sqrt a_alphas"
  let ?f = "\<lambda>i s. bind_err (getitem kijs i) (\<lambda>kijs_i. for_each [i..<?N] (aijs_inner ?r kijs_i i) s)"
  let ?g = "\<lambda>i s. bind_err (getitem kijs i) (\<lambda>kijs_i.
              for_each [i..<?N] (aijs_inner_support_zeros ?r kijs_i i) s)"
  let ?s0 = "(replicate ?N (replicate ?N (0::real)), replicate ?N (replicate ?N (0::real)))"
  have row: "?f i s = ?g i s \<or> ?f i s = Inl ZeroDivisionError" for i s
  proof (cases "getitem kijs i")
    case (Inl e)
    then show ?thesis by simp
  next
    case (Inr k)
    have "for_each [i..<?N] (aijs_inner ?r k i) s = for_each [i..<?N] (aijs_inner_support_zeros ?r k i) s \<or>
          for_each [i..<?N] (aijs_inner ?r k i) s = Inl ZeroDivisionError"
      by (rule for_each_or_error) (rule aijs_inner_or_zero_division)
    then show ?thesis using Inr by simp
  qed
  have "for_each [0..<?N] ?f ?s0 = for_each [0..<?N] ?g ?s0 \<or>
        for_each [0..<?N] ?f ?s0 = Inl ZeroDivisionError"
    by (rule for_each_or_error) (rule row)
  then show ?thesis
    by (auto simp: a_alpha_aijs_composition_independent_def
        a_alpha_aijs_composition_independent_support_zeros_def Let_def)
qed

lemma recompute_eq_support_zeros:
  "recompute_matrices quick a_alphas kijs =
   a_alpha_aijs_composition_independent_support_zeros a_alphas kijs"
  using plain_or_zero_division[of a_alphas kijs]
  by (auto simp: recompute_matrices_def split: sum.splits)

text \<open>
  The method without a cached matrix to take (\<open>quick\<close> unset, another T, or no cache):
  the matrices are those of the divide-safe variant, whichever function computed them,
  and the mixture \<open>a_alpha\<close> is the double sum of the mixing rule.
\<close>

lemma matrices_fresh:
  assumes shape: "kijs_shape (length a_alphas) (self_kijs self)"
    and fresh: "\<not> (quick \<and> T = self_T self \<and> cache_of self \<noteq> None)"
  shows "\<exists>M V s'. a_alpha_py_matrices self a_alphas T quick = (Inr (M, map sqrt a_alphas, V), s') \<and>
           aijs_inv (length a_alphas) (map sqrt a_alphas) (self_kijs self)
             (length a_alphas) (length a_alphas) (M, V) \<and>
           self_zs s' = self_zs self \<and> self_kijs s' = self_kijs self \<and> self_N s' = self_N self"
proof -
  from support_zeros_result[OF shape] obtain M V where
    r: "a_alpha_aijs_composition_independent_support_zeros a_alphas (self_kijs self) =
          Inr (M, map sqrt a_alphas, V)"
    and inv: "aijs_inv (length a_alphas) (map sqrt a_alphas) (self_kijs self)
             (length a_alphas) (length a_alphas) (M, V)"
    by blast
  have "fst (a_alpha_py_matrices self a_alphas T quick) = Inr (M, map sqrt a_alphas, V)"
    using fresh r by (auto simp: a_alpha_py_matrices_eq recompute_eq_support_zeros)
  then have "a_alpha_py_matrices self a_alphas T quick =
        (Inr (M, map sqrt a_alphas, V), snd (a_alpha_py_matrices self a_alphas T quick))"
    by (simp add: prod_eq_iff)
  then show ?thesis using inv matrices_fields[of self a_alphas T quick] by blast
qed

lemma a_alpha_py_double_sum:
  assumes shape: "kijs_shape (length a_alphas) (self_kijs self)"
    and sym: "\<forall>i<length a_alphas. \<forall>j<length a_alphas.
                self_kijs self ! i ! j = self_kijs self ! j ! i"
    and nonneg: "\<forall>a\<in>set a_alphas. 0 \<le> a"
    and zs: "length (self_zs self) = length a_alphas"
    and fresh: "\<not> (quick \<and> T = self_T self \<and> cache_of self \<noteq> None)"
  shows "fst (a_alpha_and_derivatives_py self a_alphas das d2as T False quick) =
           Inr (A_alpha_only (\<Sum>i<length a_alphas. \<Sum>j<length a_alphas.
                  self_zs self ! i * self_zs self ! j * (1 - self_kijs self ! i ! j) *
                  sqrt (a_alphas ! i * a_alphas ! j)))"
proof -
  let ?N = "length a_alphas" and ?k = "self_kijs self" and ?z = "self_zs self"
  from matrices_fresh[OF shape fresh] obtain M V s' where
    m: "a_alpha_py_matrices self a_alphas T quick = (Inr (M, map sqrt a_alphas, V), s')"
    and inv: "aijs_inv ?N (map sqrt a_alphas) ?k ?N ?N (M, V)"
    and s': "self_zs s' = ?z" "self_kijs s' = ?k"
    by blast
  note f = aijs_inv_final[OF inv]
  have k: "?k ! (min p q) ! (max p q) = ?k ! p ! q" if "p < ?N" "q < ?N" for p q
    using sym that by (auto simp: min_def max_def)
  have M: "M ! p ! q = (1 - ?k ! p ! q) * sqrt (a_alphas ! p * a_alphas ! q)"
    if "p < ?N" "q < ?N" for p q
    using f(3)[OF that] that by (simp add: aij_spec_sqrt k)
  have Msym: "M ! p ! q = M ! q ! p" if "p < ?N" "q < ?N" for p q
    using M[OF that] M[OF that(2,1)] sym that by (simp add: mult.commute)
  have "a_alpha_and_derivatives a_alphas T ?z ?k (Some M) (Some (map sqrt a_alphas)) (Some V) =
        Inr (\<Sum>p<?N. \<Sum>q<?N. M ! p ! q * ?z ! p * ?z ! q, None, M)"
    by (rule a_alpha_with_matrix) (use f(1) zs Msym in auto)
  moreover have "(\<Sum>p<?N. \<Sum>q<?N. M ! p ! q * ?z ! p * ?z ! q) =
       (\<Sum>i<?N. \<Sum>j<?N. ?z ! i * ?z ! j * (1 - ?k ! i ! j) * sqrt (a_alphas ! i * a_alphas ! j))"
    by (intro sum.cong refl) (simp add: M)
  ultimately show ?thesis
    by (simp add: a_alpha_and_derivatives_py_def m a_alpha_py_tail_def s')
qed


lemma lower_triangle_sum:
  fixes t :: "nat \<Rightarrow> nat \<Rightarrow> real"
  assumes sym: "\<And>p q. p < N \<Longrightarrow> q < N \<Longrightarrow> t p q = t q p"
  shows "(\<Sum>p<N. (\<Sum>q<p. t p q + t p q) + t p p) = (\<Sum>p<N. \<Sum>q<N. t p q)"
  using sym
proof (induction N)
  case 0
  then show ?case by simp
next
  case (Suc N)
  have IH: "(\<Sum>p<N. (\<Sum>q<p. t p q + t p q) + t p p) = (\<Sum>p<N. \<Sum>q<N. t p q)"
    using Suc.prems by (intro Suc.IH) auto
  have "(\<Sum>p<N. t p N) = (\<Sum>q<N. t N q)"
    by (rule sum.cong) (use Suc.prems in auto)
  then have r: "(\<Sum>p<Suc N. \<Sum>q<Suc N. t p q)
        = (\<Sum>p<N. \<Sum>q<N. t p q) + (\<Sum>q<N. t N q + t N q) + t N N"
    by (simp add: sum.distrib algebra_simps sum_distrib_left)
  show ?case using r IH by simp
qed

lemma full_sum_inner_loop:
  assumes "i \<le> length row" "i \<le> length zrow"
  shows "for_each [0..<i] (full_sum_inner row zrow) acc =
         Inr (acc + (\<Sum>q<i. row ! q * zrow ! q + row ! q * zrow ! q))"
proof -
  let ?f = "\<lambda>q. row ! q * zrow ! q + row ! q * zrow ! q"
  have "\<exists>s'. for_each [0..<i] (full_sum_inner row zrow) acc = Inr s' \<and> s' = acc + (\<Sum>q<i. ?f q)"
  proof (rule for_each_upt_inv[where I = "\<lambda>k s. s = acc + (\<Sum>q<k. ?f q)"])
    show "acc = acc + (\<Sum>q<0. ?f q)" by simp
    show "0 \<le> i" by simp
    fix k s assume k: "0 \<le> k" "k < i" and s: "s = acc + (\<Sum>q<k. ?f q)"
    have "full_sum_inner row zrow k s = Inr (s + ?f k)"
      using k assms by (simp add: full_sum_inner_def getitem_simps Let_def)
    moreover have "acc + (\<Sum>q<Suc k. ?f q) = s + ?f k"
      unfolding s by (simp only: sum.lessThan_Suc add.assoc)
    ultimately show "\<exists>s'. full_sum_inner row zrow k s = Inr s' \<and> s' = acc + (\<Sum>q<Suc k. ?f q)"
      by (simp only: sum.inject simp_thms ex_simps)
  qed
  then show ?thesis by simp
qed

lemma full_sum_loop:
  assumes sq: "square N M" and zp: "square N zp"
  shows "for_each [0..<N] (full_sum_outer M zp) 0 =
         Inr (\<Sum>p<N. (\<Sum>q<p. M ! p ! q * zp ! p ! q + M ! p ! q * zp ! p ! q)
                      + M ! p ! p * zp ! p ! p)"
proof -
  let ?f = "\<lambda>p. (\<Sum>q<p. M ! p ! q * zp ! p ! q + M ! p ! q * zp ! p ! q) + M ! p ! p * zp ! p ! p"
  have "\<exists>s'. for_each [0..<N] (full_sum_outer M zp) 0 = Inr s' \<and> s' = (\<Sum>p<N. ?f p)"
  proof (rule for_each_upt_inv[where I = "\<lambda>i s. s = (\<Sum>p<i. ?f p)"])
    show "(0::real) = (\<Sum>p<0. ?f p)" by simp
    show "0 \<le> N" by simp
    fix k s assume k: "0 \<le> k" "k < N" and s: "s = (\<Sum>p<k. ?f p)"
    have len: "length M = N" "length (M ! k) = N" "length zp = N" "length (zp ! k) = N"
      using sq zp k by (auto simp: square_def)
    have h: "full_sum_outer M zp k s = Inr (s + ?f k)"
      using k len
      by (simp add: full_sum_outer_def getitem_simps full_sum_inner_loop add.assoc)
    have "(\<Sum>p<Suc k. ?f p) = s + ?f k"
      unfolding s by (rule sum.lessThan_Suc)
    with h show "\<exists>s'. full_sum_outer M zp k s = Inr s' \<and> s' = (\<Sum>p<Suc k. ?f p)"
      by (simp only: sum.inject simp_thms ex_simps)
  qed
  then show ?thesis by simp
qed

lemma z_products_nth:
  "z_products_of N zs = Inr zp \<Longrightarrow> p < N \<Longrightarrow> q < N \<Longrightarrow> zp ! p ! q = zs ! p * zs ! q"
  by (auto simp: z_products_of_def split: if_splits)

lemma full_dT_inner_ok:
  assumes "j < N" "N \<le> length a_alphas" "N \<le> length das" "N \<le> length d2as"
    "N \<le> length kijs_i" "N \<le> length zrow" "N \<le> length vrow"
    and "i \<le> j \<longrightarrow> vrow ! j * (ai * a_alphas ! j) * (ai * a_alphas ! j) \<noteq> 0"
  shows "\<exists>s'. full_dT_inner a_alphas das d2as kijs_i zrow vrow i ai dai d2ai j s = Inr s'"
  using assms
  by (cases s) (auto simp: full_dT_inner_def getitem_simps Let_def)

lemma full_dT_loop_ok:
  assumes len: "length a_alphas = N" "N \<le> length das" "N \<le> length d2as"
    and shape: "kijs_shape N kijs" and zp: "square N zp" and V: "square N V"
    and nz: "\<And>i j. i \<le> j \<Longrightarrow> j < N \<Longrightarrow>
               V ! i ! j * (a_alphas ! i * a_alphas ! j) * (a_alphas ! i * a_alphas ! j) \<noteq> 0"
  shows "\<exists>s'. for_each [0..<N] (full_dT_outer N a_alphas das d2as kijs zp V) s = Inr s'"
proof -
  have "\<exists>s'. for_each [0..<N] (full_dT_outer N a_alphas das d2as kijs zp V) s = Inr s' \<and> True"
  proof (rule for_each_upt_inv[where I = "\<lambda>_ _. True"])
    fix i s assume i: "0 \<le> i" "i < N"
    have l: "i < length kijs" "N \<le> length (kijs ! i)" "i < length zp" "length (zp ! i) = N"
      "i < length V" "length (V ! i) = N"
      using i shape zp V by (auto simp: kijs_shape_def square_def)
    have "\<exists>s'. for_each [0..<N]
            (full_dT_inner a_alphas das d2as (kijs ! i) (zp ! i) (V ! i) i (a_alphas ! i)
               (das ! i) (d2as ! i)) s = Inr s' \<and> True"
    proof (rule for_each_upt_inv[where I = "\<lambda>_ _. True"])
      fix j t assume j: "0 \<le> j" "j < N"
      have "\<exists>s'. full_dT_inner a_alphas das d2as (kijs ! i) (zp ! i) (V ! i) i (a_alphas ! i)
               (das ! i) (d2as ! i) j t = Inr s'"
        by (rule full_dT_inner_ok[where N = N]) (use j len l nz[of i j] in auto)
      then show "\<exists>s'. full_dT_inner a_alphas das d2as (kijs ! i) (zp ! i) (V ! i) i (a_alphas ! i)
               (das ! i) (d2as ! i) j t = Inr s' \<and> True" by simp
    qed simp_all
    then show "\<exists>s'. full_dT_outer N a_alphas das d2as kijs zp V i s = Inr s' \<and> True"
      using i len l by (simp add: full_dT_outer_def getitem_simps)
  qed simp_all
  then show ?thesis by simp
qed

lemma a_alpha_py_double_sum_full:
  assumes shape: "kijs_shape (length a_alphas) (self_kijs self)"
    and sym: "\<forall>i<length a_alphas. \<forall>j<length a_alphas.
                self_kijs self ! i ! j = self_kijs self ! j ! i"
    and pos: "\<forall>a\<in>set a_alphas. 0 < a"
    and zs: "length (self_zs self) = length a_alphas"
    and das: "length das = length a_alphas" and d2as: "length d2as = length a_alphas"
    and fresh: "\<not> (quick \<and> T = self_T self \<and> cache_of self \<noteq> None)"
  shows "\<exists>da d2a. fst (a_alpha_and_derivatives_py self a_alphas das d2as T True quick) =
           Inr (A_alpha_full (\<Sum>i<length a_alphas. \<Sum>j<length a_alphas.
                  self_zs self ! i * self_zs self ! j * (1 - self_kijs self ! i ! j) *
                  sqrt (a_alphas ! i * a_alphas ! j)) da d2a)"
proof -
  let ?N = "length a_alphas" and ?k = "self_kijs self" and ?z = "self_zs self"
  let ?r = "map sqrt a_alphas"
  from matrices_fresh[OF shape fresh] obtain M V s' where
    m: "a_alpha_py_matrices self a_alphas T quick = (Inr (M, ?r, V), s')"
    and inv: "aijs_inv ?N ?r ?k ?N ?N (M, V)"
    and s': "self_zs s' = ?z" "self_kijs s' = ?k"
    by blast
  note f = aijs_inv_final[OF inv]
  have k: "?k ! (min p q) ! (max p q) = ?k ! p ! q" if "p < ?N" "q < ?N" for p q
    using sym that by (auto simp: min_def max_def)
  have M: "M ! p ! q = (1 - ?k ! p ! q) * sqrt (a_alphas ! p * a_alphas ! q)"
    if "p < ?N" "q < ?N" for p q
    using f(3)[OF that] that by (simp add: aij_spec_sqrt k)
  have Msym: "M ! p ! q = M ! q ! p" if "p < ?N" "q < ?N" for p q
    using M[OF that] M[OF that(2,1)] sym that by (simp add: mult.commute)
  obtain zp where zp: "z_products_of ?N ?z = Inr zp"
    using zs by (simp add: z_products_of_def)
  note zsq = z_products_square[OF zp]
  have sum: "for_each [0..<?N] (full_sum_outer M zp) 0 =
         Inr (\<Sum>p<?N. (\<Sum>q<p. M ! p ! q * zp ! p ! q + M ! p ! q * zp ! p ! q)
                      + M ! p ! p * zp ! p ! p)"
    by (rule full_sum_loop[OF f(1) zsq])
  have "(\<Sum>p<?N. (\<Sum>q<p. M ! p ! q * zp ! p ! q + M ! p ! q * zp ! p ! q) + M ! p ! p * zp ! p ! p)
      = (\<Sum>p<?N. \<Sum>q<?N. M ! p ! q * zp ! p ! q)"
    by (rule lower_triangle_sum)
       (simp add: Msym z_products_nth[OF zp] mult.commute)
  also have "\<dots> = (\<Sum>i<?N. \<Sum>j<?N. ?z ! i * ?z ! j * (1 - ?k ! i ! j) * sqrt (a_alphas ! i * a_alphas ! j))"
    by (intro sum.cong refl) (simp add: M z_products_nth[OF zp])
  finally have val: "(\<Sum>p<?N. (\<Sum>q<p. M ! p ! q * zp ! p ! q + M ! p ! q * zp ! p ! q)
                         + M ! p ! p * zp ! p ! p) =
      (\<Sum>i<?N. \<Sum>j<?N. ?z ! i * ?z ! j * (1 - ?k ! i ! j) * sqrt (a_alphas ! i * a_alphas ! j))" .
  have sum': "for_each [0..<?N] (full_sum_outer M zp) 0 =
      Inr (\<Sum>i<?N. \<Sum>j<?N. ?z ! i * ?z ! j * (1 - ?k ! i ! j) * sqrt (a_alphas ! i * a_alphas ! j))"
    using sum by (simp only: val)
  have nz: "V ! i ! j * (a_alphas ! i * a_alphas ! j) * (a_alphas ! i * a_alphas ! j) \<noteq> 0"
    if "i \<le> j" "j < ?N" for i j
  proof -
    have p: "0 < a_alphas ! i" "0 < a_alphas ! j" using pos that by auto
    then have "sqrt (a_alphas ! i) * sqrt (a_alphas ! j) \<noteq> 0" by simp
    then have "V ! i ! j = 1 / (sqrt (a_alphas ! i) * sqrt (a_alphas ! j))"
      using f(4)[of i j] that by (simp add: inv_spec_def)
    then show ?thesis using p by simp
  qed
  from full_dT_loop_ok[where s = "(0, 0, replicate ?N (replicate ?N 0), Some (replicate ?N (replicate ?N 0)))",
      OF refl _ _ shape zsq f(2) nz] das d2as
  obtain da d2a D D2 where
    dT: "for_each [0..<?N] (full_dT_outer ?N a_alphas das d2as ?k zp V)
           (0, 0, replicate ?N (replicate ?N 0), Some (replicate ?N (replicate ?N 0))) =
         Inr (da, d2a, D, D2)"
    by (metis order_refl prod_cases4)
  have "a_alpha_and_derivatives_full a_alphas das d2as T ?z ?k (Some M) (Some ?r) (Some V) True =
        Inr (\<Sum>i<?N. \<Sum>j<?N. ?z ! i * ?z ! j * (1 - ?k ! i ! j) * sqrt (a_alphas ! i * a_alphas ! j),
             da, d2a, D2, D, M)"
    by (simp add: a_alpha_and_derivatives_full_def Let_def zp sum' dT)
  then show ?thesis
    by (simp add: a_alpha_and_derivatives_py_def m a_alpha_py_tail_def a_alpha_py_full_def s')
qed

lemma sqrt_16: "sqrt 16 = 4"
  by (rule real_sqrt_unique) simp_all

lemma ex_eos_sel:
  "self_T ex_eos = 115" "self_N ex_eos = 2" "self_zs ex_eos = [1 / 2, 1 / 2]"
  "self_kijs ex_eos = [[0, 0], [0, 0]]" "cache_of ex_eos = None"
  by (simp_all add: ex_eos_def cache_of_def)

lemma ex_support_zeros_04:
  "a_alpha_aijs_composition_independent_support_zeros [0, 4] [[0, 0], [0, 0]] =
     Inr ([[0, 0], [0, 4]], [0, 2], [[10 ^ 100, 10 ^ 100], [0, 1 / 4]])"
  by (simp add: a_alpha_aijs_composition_independent_support_zeros_def Let_def bind_err_def getitem_def
      aijs_inner_support_zeros_def set2_def upt_conv_Cons)

lemma ex_full_04:
  "a_alpha_and_derivatives_full [0, 4] [0, 0] [0, 0] 115 [1 / 2, 1 / 2] [[0, 0], [0, 0]]
     (Some [[0, 0], [0, 4]]) (Some [0, 2]) (Some [[10 ^ 100, 10 ^ 100], [0, 1 / 4]]) True =
   Inl ZeroDivisionError"
  by (simp add: a_alpha_and_derivatives_full_def Let_def z_products_of_def full_sum_outer_def
      full_sum_inner_def full_dT_outer_def full_dT_inner_def bind_err_def getitem_def set2_def
      upt_conv_Cons)

text \<open>
  Claim C1 on the method \<open>a_alpha_and_derivatives_py\<close>. By the lemmas
  \<open>a_alpha_py_double_sum\<close> and \<open>a_alpha_py_double_sum_full\<close> the method returns the double sum over all i, j of
  \<open>zs[i] * zs[j] * (1 - kijs[i][j]) * sqrt (a_alphas[i] * a_alphas[j])\<close> with
  \<open>full=False\<close> for every non-negative \<open>a_alphas\<close>, and with \<open>full=True\<close> for strictly
  positive ones. With \<open>full=True\<close> (the default), two components and a zero pure value,
  \<open>a_alphas = [0.0, 4.0]\<close>, \<open>zs = [0.5, 0.5]\<close>, \<open>kijs = [[0, 0], [0, 0]]\<close>, the call of
  \<open>a_alpha_and_derivatives_full\<close> divides by zero, the bare \<open>except\<close> assigns the results
  only when \<open>self.N == 1\<close>, and the method raises UnboundLocalError; the double sum of
  the claim is 1, which the same call with \<open>full=False\<close> returns.
\<close>

theorem a_alpha_full_zero_unbound:
  "fst (a_alpha_and_derivatives_py ex_eos [0, 4] [0, 0] [0, 0] 115 True True) =
     Inl UnboundLocalError \<and>
   fst (a_alpha_and_derivatives_py ex_eos [0, 4] [0, 0] [0, 0] 115 False True) =
     Inr (A_alpha_only 1) \<and>
   (\<Sum>i<length [0, 4 :: real]. \<Sum>j<length [0, 4 :: real].
      self_zs ex_eos ! i * self_zs ex_eos ! j * (1 - self_kijs ex_eos ! i ! j) *
      sqrt ([0, 4] ! i * [0, 4] ! j)) = 1"
proof -
  let ?c = "([[0, 0], [0, 4]], [0, 2], [[10 ^ 100, 10 ^ 100], [0, 1 / 4 :: real]])"
  have m: "a_alpha_py_matrices ex_eos [0, 4] 115 True = (Inr ?c, store_cache ?c ex_eos)"
    by (simp add: a_alpha_py_matrices_eq ex_eos_sel recompute_eq_support_zeros ex_support_zeros_04)
  have full: "fst (a_alpha_and_derivatives_py ex_eos [0, 4] [0, 0] [0, 0] 115 True True) =
      Inl UnboundLocalError"
    using ex_full_04
    by (simp add: a_alpha_and_derivatives_py_def m a_alpha_py_tail_def a_alpha_py_full_def ex_eos_sel)
  have sq: "square (length [0, 4 :: real]) [[0, 0], [0, 4]]"
    by (simp add: square_def all_less_2)
  have a: "a_alpha_and_derivatives [0, 4] 115 [1 / 2, 1 / 2] [[0, 0], [0, 0]]
             (Some [[0, 0], [0, 4]]) (Some [0, 2]) (Some [[10 ^ 100, 10 ^ 100], [0, 1 / 4]]) =
           Inr (1, None, [[0, 0], [0, 4]])"
    by (subst a_alpha_with_matrix[OF sq]) (auto simp: less_Suc_eq lessThan_Suc)
  have only: "fst (a_alpha_and_derivatives_py ex_eos [0, 4] [0, 0] [0, 0] 115 False True) =
      Inr (A_alpha_only 1)"
    using a by (simp add: a_alpha_and_derivatives_py_def m a_alpha_py_tail_def ex_eos_sel)
  have s: "(\<Sum>i<length [0, 4 :: real]. \<Sum>j<length [0, 4 :: real].
      self_zs ex_eos ! i * self_zs ex_eos ! j * (1 - self_kijs ex_eos ! i ! j) *
      sqrt ([0, 4] ! i * [0, 4] ! j)) = (1 :: real)"
    by (simp add: ex_eos_sel lessThan_Suc sqrt_16)
  from full only s show ?thesis by (intro conjI)
qed









end
